(* ===== verification/Prelude.thy ===== *)
theory Prelude
  imports Complex_Main "HOL-Library.Word" "HOL-Library.Sublist" "HOL-Library.List_Lexorder"
begin

text \<open>
  The vocabulary every component of the ScholarMatch front end shares: JavaScript strings
  as lists of UTF-16 code units, the string methods of the standard library that the
  source calls, JavaScript numbers, the records that TypeScript uses as dictionaries, and
  the generic list lemmas the component proofs rest on.
\<close>

section \<open>Collections of facts\<close>

named_theorems js_defs \<open>definitions of string and number primitives, for evaluation\<close>
named_theorems inv_intros \<open>introduction rules for component invariants\<close>

section \<open>Strings\<close>

text \<open>
  A JavaScript string is a sequence of 16-bit code units; \<open>length\<close> counts units, and
  comparison with \<open><\<close> is lexicographic on units.  A source literal in ASCII is written
  \<open>js ''text''\<close>; a unit beyond ASCII is spliced in as a word (\<open>[0x2014]\<close> is an em dash).
\<close>

type_synonym code_unit = "16 word"
type_synonym jsstring = "code_unit list"

definition js :: "string \<Rightarrow> jsstring" where
  "js s = map of_char s"

lemma of_char_unit: "(of_char c :: code_unit) = word_of_nat (of_char c)"
  by (metis of_nat_of_char)

lemma unat_of_char: "unat (of_char c :: code_unit) = (of_char c :: nat)"
proof -
  have "(of_char c :: nat) < 256"
    by (rule nat_of_char_less_256)
  then have "(of_char c :: nat) < 2 ^ LENGTH(16)"
    by (rule less_trans) simp
  then show ?thesis
    by (simp add: of_char_unit unsigned_of_nat take_bit_nat_eq_self del: of_nat_of_char)
qed

lemma of_char_unit_inject [simp]: "(of_char a :: code_unit) = of_char b \<longleftrightarrow> a = b"
  by (metis unat_of_char of_char_eq_iff)

lemma js_inject [simp]: "js s = js t \<longleftrightarrow> s = t"
  unfolding js_def by (rule inj_map_eq_map) (rule injI, simp)

lemma js_Nil [simp]: "js [] = []"
  by (simp add: js_def)

lemma js_eq_Nil [simp]: "js s = [] \<longleftrightarrow> s = []" "[] = js s \<longleftrightarrow> s = []"
  by (auto simp: js_def)

lemma length_js [simp]: "length (js s) = length s"
  by (simp add: js_def)

lemma js_append [simp]: "js (s @ t) = js s @ js t"
  by (simp add: js_def)

lemma js_Cons: "js (c # s) = of_char c # js s"
  by (simp add: js_def)

text \<open>White space and line terminators, as \<open>String.prototype.trim\<close> removes them.\<close>

definition is_space :: "code_unit \<Rightarrow> bool" where
  "is_space u \<longleftrightarrow>
     u \<in> {0x9, 0xA, 0xB, 0xC, 0xD, 0x20, 0xA0, 0x1680, 0x2028, 0x2029, 0x202F, 0x205F,
           0x3000, 0xFEFF} \<or> (0x2000 \<le> u \<and> u \<le> 0x200A)"

definition trim :: "jsstring \<Rightarrow> jsstring" where
  "trim s = rev (dropWhile is_space (rev (dropWhile is_space s)))"

text \<open>
  \<open>String.prototype.toUpperCase\<close>.  The table holds every unit whose capital form is
  ASCII text: the letters a to z, the sharp s, the dotless i, the long s and the Latin
  ligatures.  Any other unit is left as it is; its real capital form is never ASCII text,
  and the source only compares the result with ASCII text.
\<close>

definition upper_unit :: "code_unit \<Rightarrow> jsstring" where
  "upper_unit u =
     (if 0x61 \<le> u \<and> u \<le> 0x7A then [u - 0x20]
      else if u = 0xDF then js ''SS''
      else if u = 0x131 then js ''I''
      else if u = 0x17F then js ''S''
      else if u = 0xFB00 then js ''FF''
      else if u = 0xFB01 then js ''FI''
      else if u = 0xFB02 then js ''FL''
      else if u = 0xFB03 then js ''FFI''
      else if u = 0xFB04 then js ''FFL''
      else if u = 0xFB05 \<or> u = 0xFB06 then js ''ST''
      else [u])"

definition to_upper :: "jsstring \<Rightarrow> jsstring" where
  "to_upper s = concat (map upper_unit s)"

text \<open>\<open>toLowerCase\<close> on ASCII text (the source applies it to its own ASCII labels).\<close>

definition lower_ascii :: "jsstring \<Rightarrow> jsstring" where
  "lower_ascii s = map (\<lambda>u. if 0x41 \<le> u \<and> u \<le> 0x5A then u + 0x20 else u) s"

lemmas [js_defs] = js_def is_space_def trim_def upper_unit_def to_upper_def lower_ascii_def

lemma trim_Nil [simp]: "trim [] = []"
  by (simp add: trim_def)

lemma length_dropWhile_rev_le: "length (dropWhile P (rev (dropWhile P s))) \<le> length s"
  by (metis length_dropWhile_le length_rev le_trans)

lemma length_trim_le: "length (trim s) \<le> length s"
  by (simp add: trim_def length_dropWhile_rev_le)

lemma hd_trim_not_space: "trim s \<noteq> [] \<Longrightarrow> \<not> is_space (hd (trim s))"
proof -
  assume ne: "trim s \<noteq> []"
  let ?t = "dropWhile is_space s"
  have split: "?t = trim s @ rev (takeWhile is_space (rev ?t))"
    unfolding trim_def
    by (metis rev_append rev_rev_ident takeWhile_dropWhile_id)
  have "hd ?t = hd (trim s)"
    using ne by (subst split) (rule hd_append2)
  moreover have "?t \<noteq> []"
    using ne by (subst split) simp
  ultimately show ?thesis
    by (metis hd_dropWhile)
qed

lemma last_trim_not_space: "trim s \<noteq> [] \<Longrightarrow> \<not> is_space (last (trim s))"
  unfolding trim_def by (metis hd_dropWhile last_rev rev_is_Nil_conv)

lemma dropWhile_hd_id: "s \<noteq> [] \<Longrightarrow> \<not> P (hd s) \<Longrightarrow> dropWhile P s = s"
  by (cases s) auto

lemma trim_id: "s \<noteq> [] \<Longrightarrow> \<not> is_space (hd s) \<Longrightarrow> \<not> is_space (last s) \<Longrightarrow> trim s = s"
  by (simp add: trim_def dropWhile_hd_id hd_rev)

lemma trim_trim [simp]: "trim (trim s) = trim s"
proof (cases "trim s = []")
  case True
  then show ?thesis by (simp add: trim_Nil)
next
  case False
  then show ?thesis by (simp add: trim_id hd_trim_not_space last_trim_not_space)
qed

lemma to_upper_Nil [simp]: "to_upper [] = []"
  by (simp add: to_upper_def)

lemma upper_unit_nonempty [simp]: "upper_unit u \<noteq> []"
  by (simp add: upper_unit_def)

lemma to_upper_eq_Nil [simp]: "to_upper s = [] \<longleftrightarrow> s = []"
  by (cases s) (auto simp: to_upper_def)

section \<open>Numbers\<close>

text \<open>
  A JavaScript number is a NaN, an infinity or a finite value.  Finite values are
  rationals here (every double is one); the source compares them and never relies on
  rounding, except where a theory says so.
\<close>

datatype number = NaN | Infinity | NegInfinity | Fin rat

fun is_finite :: "number \<Rightarrow> bool" where
  "is_finite (Fin _) = True"
| "is_finite _ = False"

fun num_less :: "number \<Rightarrow> number \<Rightarrow> bool" where
  "num_less NaN _ = False"
| "num_less _ NaN = False"
| "num_less Infinity _ = False"
| "num_less _ NegInfinity = False"
| "num_less NegInfinity _ = True"
| "num_less _ Infinity = True"
| "num_less (Fin x) (Fin y) = (x < y)"

text \<open>\<open>Math.round\<close>: the nearest integer, halves towards plus infinity.\<close>

definition math_round :: "rat \<Rightarrow> int" where
  "math_round x = \<lfloor>x + 1 / 2\<rfloor>"

lemmas [js_defs] = math_round_def

lemma math_round_mono: "x \<le> y \<Longrightarrow> math_round x \<le> math_round y"
  unfolding math_round_def by (rule floor_mono) simp

lemma math_round_of_int [simp]: "math_round (of_int z) = z"
  unfolding math_round_def by linarith

section \<open>Decimal numerals\<close>

fun decimal :: "nat \<Rightarrow> string" where
  "decimal n = (if n < 10 then [char_of (48 + n)] else decimal (n div 10) @ [char_of (48 + n mod 10)])"

declare decimal.simps [simp del]

definition js_of_nat :: "nat \<Rightarrow> jsstring" where
  "js_of_nat n = js (decimal n)"

definition js_of_int :: "int \<Rightarrow> jsstring" where
  "js_of_int z = (if z < 0 then js ''-'' @ js_of_nat (nat (- z)) else js_of_nat (nat z))"

lemmas [js_defs] = js_of_nat_def js_of_int_def

lemma decimal_nonempty [simp]: "decimal n \<noteq> []"
  by (subst decimal.simps) simp

section \<open>Dictionaries\<close>

text \<open>
  A TypeScript \<open>Record<K, V>\<close> that the source fills key by key is an association list in
  insertion order: \<open>map_of\<close> reads it, and it is empty exactly when it has no keys.
\<close>

type_synonym ('k, 'v) dict = "('k \<times> 'v) list"

definition keys_of :: "('k, 'v) dict \<Rightarrow> 'k list" where
  "keys_of d = map fst d"

definition delete_keys :: "'k set \<Rightarrow> ('k, 'v) dict \<Rightarrow> ('k, 'v) dict" where
  "delete_keys ks d = filter (\<lambda>(k, _). k \<notin> ks) d"

text \<open>\<open>Map.prototype.set\<close>, cookie jars and object spread: an existing key keeps its place.\<close>

fun dict_set :: "'k \<Rightarrow> 'v \<Rightarrow> ('k, 'v) dict \<Rightarrow> ('k, 'v) dict" where
  "dict_set k v [] = [(k, v)]"
| "dict_set k v ((k', v') # d) = (if k' = k then (k, v) # d else (k', v') # dict_set k v d)"

definition dict_delete :: "'k \<Rightarrow> ('k, 'v) dict \<Rightarrow> ('k, 'v) dict" where
  "dict_delete k d = delete_keys {k} d"

lemma map_of_dict_set [simp]: "map_of (dict_set k v d) = (map_of d)(k \<mapsto> v)"
  by (induction k v d rule: dict_set.induct) auto

lemma keys_of_dict_set: "set (keys_of (dict_set k v d)) = insert k (set (keys_of d))"
  by (induction k v d rule: dict_set.induct) (auto simp: keys_of_def)

lemma distinct_dict_set [inv_intros]: "distinct (keys_of d) \<Longrightarrow> distinct (keys_of (dict_set k v d))"
proof (induction k v d rule: dict_set.induct)
  case (2 k v k' v' d)
  then show ?case
    using keys_of_dict_set [of k v d] by (auto simp: keys_of_def)
qed (simp add: keys_of_def)

lemma map_of_delete_keys:
  "map_of (delete_keys ks d) k = (if k \<in> ks then None else map_of d k)"
  by (induction d) (auto simp: delete_keys_def)

lemma map_of_dict_delete [simp]: "map_of (dict_delete k d) = (map_of d)(k := None)"
  by (auto simp: dict_delete_def map_of_delete_keys)

section \<open>Lists of entities with an identifier\<close>

text \<open>
  The workspaces keep lists of server entities and replace the entity with the same
  identifier by the newest copy.
\<close>

definition replace_by :: "('a \<Rightarrow> 'k) \<Rightarrow> 'a \<Rightarrow> 'a list \<Rightarrow> 'a list" where
  "replace_by key x xs = map (\<lambda>y. if key y = key x then x else y) xs"

definition upsert_by :: "('a \<Rightarrow> 'k) \<Rightarrow> 'a \<Rightarrow> 'a list \<Rightarrow> 'a list" where
  "upsert_by key x xs = (if \<exists>y \<in> set xs. key y = key x then replace_by key x xs else x # xs)"

lemma map_key_replace_by [simp]: "map key (replace_by key x xs) = map key xs"
  by (induction xs) (auto simp: replace_by_def)

lemma length_replace_by [simp]: "length (replace_by key x xs) = length xs"
  by (simp add: replace_by_def)

lemma distinct_upsert_by [inv_intros]:
  "distinct (map key xs) \<Longrightarrow> distinct (map key (upsert_by key x xs))"
  by (auto simp: upsert_by_def)

lemma upsert_by_member: "x \<in> set (upsert_by key x xs)"
  by (auto simp: upsert_by_def replace_by_def)

lemma upsert_by_keeps:
  "y \<in> set xs \<Longrightarrow> key y \<noteq> key x \<Longrightarrow> y \<in> set (upsert_by key x xs)"
  by (auto simp: upsert_by_def replace_by_def)

lemma upsert_by_keys: "set (map key (upsert_by key x xs)) = insert (key x) (set (map key xs))"
  by (auto simp: upsert_by_def replace_by_def)

lemma filter_empty_iff: "filter P xs = [] \<longleftrightarrow> (\<forall>x \<in> set xs. \<not> P x)"
  by (induction xs) auto

lemma sorted_map_filter [simp]: "sorted (map f xs) \<Longrightarrow> sorted (map f (filter P xs))"
  by (induction xs) auto

end
