(* ===== verification/Url_Text.thy ===== *)
theory Url_Text
  imports Prelude
begin

text \<open>
  The parts of the platform's URL support that the source calls: \<open>encodeURIComponent\<close>,
  and \<open>URLSearchParams\<close> as it is written out (\<open>toString\<close>) and read back (\<open>get\<close>).  The
  last section shows that what is written is what is read.
\<close>

section \<open>Code points and UTF-8\<close>

definition is_high :: "code_unit \<Rightarrow> bool" where
  "is_high u \<longleftrightarrow> 0xD800 \<le> u \<and> u \<le> 0xDBFF"

definition is_low :: "code_unit \<Rightarrow> bool" where
  "is_low u \<longleftrightarrow> 0xDC00 \<le> u \<and> u \<le> 0xDFFF"

lemmas [js_defs] = is_high_def is_low_def

text \<open>A string is well formed when every surrogate is half of a pair.\<close>

fun well_formed :: "jsstring \<Rightarrow> bool" where
  "well_formed [] = True"
| "well_formed [u] = (\<not> is_high u \<and> \<not> is_low u)"
| "well_formed (u # v # s) =
     (if is_high u then is_low v \<and> well_formed s else \<not> is_low u \<and> well_formed (v # s))"

definition lone_unit :: "code_unit \<Rightarrow> nat" where
  "lone_unit u = (if is_high u \<or> is_low u then 0xFFFD else unat u)"

fun code_points :: "jsstring \<Rightarrow> nat list" where
  "code_points [] = []"
| "code_points [u] = [lone_unit u]"
| "code_points (u # v # s) =
     (if is_high u \<and> is_low v
      then (0x10000 + (unat u - 0xD800) * 0x400 + (unat v - 0xDC00)) # code_points s
      else lone_unit u # code_points (v # s))"

definition units_of :: "nat \<Rightarrow> jsstring" where
  "units_of c =
     (if c < 0x10000 then [of_nat c]
      else [of_nat (0xD800 + (c - 0x10000) div 0x400), of_nat (0xDC00 + (c - 0x10000) mod 0x400)])"

definition utf8 :: "nat \<Rightarrow> nat list" where
  "utf8 c =
     (if c < 0x80 then [c]
      else if c < 0x800 then [0xC0 + c div 64, 0x80 + c mod 64]
      else if c < 0x10000 then [0xE0 + c div 4096, 0x80 + c div 64 mod 64, 0x80 + c mod 64]
      else [0xF0 + c div 262144, 0x80 + c div 4096 mod 64, 0x80 + c div 64 mod 64, 0x80 + c mod 64])"

definition is_cont :: "nat \<Rightarrow> bool" where
  "is_cont b \<longleftrightarrow> 0x80 \<le> b \<and> b < 0xC0"

text \<open>Bytes that are not well-formed UTF-8 give \<open>None\<close>; the platform substitutes U+FFFD there.\<close>

fun utf8_decode :: "nat list \<Rightarrow> nat list option" where
  "utf8_decode [] = Some []"
| "utf8_decode (b # bs) =
     (if b < 0x80 then map_option ((#) b) (utf8_decode bs)
      else if b < 0xC2 then None
      else if b < 0xE0 then
        (case bs of
           c # cs \<Rightarrow> if is_cont c
             then map_option ((#) ((b - 0xC0) * 64 + (c - 0x80))) (utf8_decode cs) else None
         | _ \<Rightarrow> None)
      else if b < 0xF0 then
        (case bs of
           c # d # ds \<Rightarrow> if is_cont c \<and> is_cont d
             then let p = (b - 0xE0) * 4096 + (c - 0x80) * 64 + (d - 0x80)
                  in if 0x800 \<le> p then map_option ((#) p) (utf8_decode ds) else None
             else None
         | _ \<Rightarrow> None)
      else
        (case bs of
           c # d # e # es \<Rightarrow> if is_cont c \<and> is_cont d \<and> is_cont e
             then let p = (b - 0xF0) * 262144 + (c - 0x80) * 4096 + (d - 0x80) * 64 + (e - 0x80)
                  in if 0x10000 \<le> p \<and> p < 0x110000
                     then map_option ((#) p) (utf8_decode es) else None
             else None
         | _ \<Rightarrow> None))"

section \<open>Percent-encoding\<close>

definition hex_digit :: "nat \<Rightarrow> code_unit" where
  "hex_digit n = (if n < 10 then of_nat (48 + n) else of_nat (55 + n))"

definition percent :: "nat \<Rightarrow> jsstring" where
  "percent b = [0x25, hex_digit (b div 16), hex_digit (b mod 16)]"

definition is_alnum :: "nat \<Rightarrow> bool" where
  "is_alnum b \<longleftrightarrow> (48 \<le> b \<and> b \<le> 57) \<or> (65 \<le> b \<and> b \<le> 90) \<or> (97 \<le> b \<and> b \<le> 122)"

definition component_byte :: "nat \<Rightarrow> jsstring" where
  "component_byte b =
     (if is_alnum b \<or> b \<in> {33, 39, 40, 41, 42, 45, 46, 95, 126} then [of_nat b] else percent b)"

text \<open>\<open>encodeURIComponent\<close> throws (here \<open>None\<close>) on a lone surrogate.\<close>

definition encodeURIComponent :: "jsstring \<Rightarrow> jsstring option" where
  "encodeURIComponent s =
     (if well_formed s
      then Some (concat (map component_byte (concat (map utf8 (code_points s))))) else None)"

definition form_byte :: "nat \<Rightarrow> jsstring" where
  "form_byte b =
     (if b = 32 then [0x2B]
      else if is_alnum b \<or> b \<in> {42, 45, 46, 95} then [of_nat b] else percent b)"

definition form_encode :: "jsstring \<Rightarrow> jsstring" where
  "form_encode s = concat (map form_byte (concat (map utf8 (code_points s))))"

lemmas [js_defs] = lone_unit_def units_of_def utf8_def is_cont_def hex_digit_def percent_def is_alnum_def
  component_byte_def encodeURIComponent_def form_byte_def form_encode_def

section \<open>URLSearchParams\<close>

type_synonym params = "(jsstring, jsstring) dict"

text \<open>\<open>set\<close> replaces the value of the first entry with the name and drops the others.\<close>

fun params_set :: "jsstring \<Rightarrow> jsstring \<Rightarrow> params \<Rightarrow> params" where
  "params_set k v [] = [(k, v)]"
| "params_set k v ((k', v') # ps) =
     (if k' = k then (k, v) # filter (\<lambda>(k'', _). k'' \<noteq> k) ps else (k', v') # params_set k v ps)"

fun params_string :: "params \<Rightarrow> jsstring" where
  "params_string [] = []"
| "params_string [(k, v)] = form_encode k @ [0x3D] @ form_encode v"
| "params_string ((k, v) # ps) = form_encode k @ [0x3D] @ form_encode v @ [0x26] @ params_string ps"

fun split_on :: "code_unit \<Rightarrow> jsstring \<Rightarrow> jsstring list" where
  "split_on d [] = [[]]"
| "split_on d (u # s) =
     (if u = d then [] # split_on d s
      else (case split_on d s of p # ps \<Rightarrow> (u # p) # ps | [] \<Rightarrow> [[u]]))"

definition hex_value :: "code_unit \<Rightarrow> nat option" where
  "hex_value u =
     (if 48 \<le> u \<and> u \<le> 57 then Some (unat u - 48)
      else if 65 \<le> u \<and> u \<le> 70 then Some (unat u - 55)
      else if 97 \<le> u \<and> u \<le> 102 then Some (unat u - 87) else None)"

fun form_bytes :: "jsstring \<Rightarrow> nat list" where
  "form_bytes [] = []"
| "form_bytes (u # s) =
     (if u = 0x2B then 32 # form_bytes s
      else if u = 0x25 then
        (case s of
           a # b # t \<Rightarrow>
             (case (hex_value a, hex_value b) of
                (Some x, Some y) \<Rightarrow> (16 * x + y) # form_bytes t
              | _ \<Rightarrow> 0x25 # form_bytes s)
         | _ \<Rightarrow> 0x25 # form_bytes s)
      else unat u # form_bytes s)"

definition form_decode :: "jsstring \<Rightarrow> jsstring option" where
  "form_decode s = map_option (\<lambda>cs. concat (map units_of cs)) (utf8_decode (form_bytes s))"

fun read_pair :: "jsstring \<Rightarrow> (jsstring \<times> jsstring) option" where
  "read_pair p =
     (let k = takeWhile (\<lambda>u. u \<noteq> 0x3D) p; v = drop (Suc (length k)) p
      in case (form_decode k, form_decode v) of (Some a, Some b) \<Rightarrow> Some (a, b) | _ \<Rightarrow> None)"

text \<open>
  \<open>get\<close> on the parameters of a query string: the first value under the name.  A pair that is
  not well-formed UTF-8 is left out (the platform keeps it with substituted characters).
\<close>

definition parse_params :: "jsstring \<Rightarrow> params" where
  "parse_params q = List.map_filter read_pair (filter (\<lambda>p. p \<noteq> []) (split_on 0x26 q))"

definition params_get :: "params \<Rightarrow> jsstring \<Rightarrow> jsstring option" where
  "params_get ps k = map_of ps k"

lemmas [js_defs] = hex_value_def form_decode_def parse_params_def params_get_def

lemma params_get_set: "params_get (params_set k v ps) k' = (if k' = k then Some v else params_get ps k')"
proof -
  have "map_of (filter (\<lambda>(k'', _). k'' \<noteq> k) qs) k' = (if k' = k then None else map_of qs k')"
    for qs :: params
    by (induction qs) auto
  then show ?thesis
    by (induction k v ps rule: params_set.induct) (auto simp: params_get_def)
qed

section \<open>What is written is what is read\<close>

lemma hex_value_digit [simp]: "n < 16 \<Longrightarrow> hex_value (hex_digit n) = Some n"
proof -
  have "list_all (\<lambda>n. hex_value (hex_digit n) = Some n) [0..<16]"
    by code_simp
  then show "n < 16 \<Longrightarrow> hex_value (hex_digit n) = Some n"
    by (simp add: list_all_iff)
qed

lemma form_bytes_percent: "b < 256 \<Longrightarrow> form_bytes (percent b @ s) = b # form_bytes s"
  by (simp add: percent_def)

lemma unat_of_nat_unit [simp]: "b < 65536 \<Longrightarrow> unat (word_of_nat b :: code_unit) = b"
  by (simp add: unsigned_of_nat take_bit_nat_eq_self)

lemma of_nat_unit_eq: "b < 65536 \<Longrightarrow> c < 65536 \<Longrightarrow> (word_of_nat b :: code_unit) = word_of_nat c \<longleftrightarrow> b = c"
  by (metis unat_of_nat_unit)

lemma of_nat_unit_numeral:
  "b < 65536 \<Longrightarrow> numeral n < (65536::nat) \<Longrightarrow> (word_of_nat b :: code_unit) = numeral n \<longleftrightarrow> b = numeral n"
  by (metis of_nat_numeral of_nat_unit_eq)

lemma form_bytes_form_byte: "b < 256 \<Longrightarrow> form_bytes (form_byte b @ s) = b # form_bytes s"
  by (auto simp: form_byte_def form_bytes_percent is_alnum_def of_nat_unit_numeral)

lemma form_bytes_concat: "\<forall>b \<in> set bs. b < 256 \<Longrightarrow> form_bytes (concat (map form_byte bs)) = bs"
  by (induction bs) (simp_all add: form_bytes_form_byte)

lemma utf8_bytes: "c < 0x110000 \<Longrightarrow> \<forall>b \<in> set (utf8 c). b < 256"
  by (auto simp: utf8_def)

lemma utf8_decode_1: "b < 0x80 \<Longrightarrow> utf8_decode (b # bs) = map_option ((#) b) (utf8_decode bs)"
  by (subst utf8_decode.simps) simp

lemma utf8_decode_2:
  "2 \<le> x \<Longrightarrow> x < 32 \<Longrightarrow> y < 64 \<Longrightarrow>
   utf8_decode ((0xC0 + x) # (0x80 + y) # bs) = map_option ((#) (x * 64 + y)) (utf8_decode bs)"
  by (subst utf8_decode.simps) (simp add: is_cont_def)

lemma utf8_decode_3:
  "x < 16 \<Longrightarrow> y < 64 \<Longrightarrow> z < 64 \<Longrightarrow> 0x800 \<le> x * 4096 + y * 64 + z \<Longrightarrow>
   utf8_decode ((0xE0 + x) # (0x80 + y) # (0x80 + z) # bs) =
   map_option ((#) (x * 4096 + y * 64 + z)) (utf8_decode bs)"
  by (subst utf8_decode.simps) (simp add: is_cont_def)

lemma utf8_decode_4:
  "w < 8 \<Longrightarrow> x < 64 \<Longrightarrow> y < 64 \<Longrightarrow> z < 64 \<Longrightarrow>
   0x10000 \<le> w * 262144 + x * 4096 + y * 64 + z \<Longrightarrow>
   w * 262144 + x * 4096 + y * 64 + z < 0x110000 \<Longrightarrow>
   utf8_decode ((0xF0 + w) # (0x80 + x) # (0x80 + y) # (0x80 + z) # bs) =
   map_option ((#) (w * 262144 + x * 4096 + y * 64 + z)) (utf8_decode bs)"
  by (subst utf8_decode.simps) (simp add: is_cont_def)

lemma base64_digits:
  fixes c :: nat
  shows "c div 64 * 64 + c mod 64 = c"
    and "c div 4096 * 4096 + c div 64 mod 64 * 64 + c mod 64 = c"
    and "c div 262144 * 262144 + c div 4096 mod 64 * 4096 + c div 64 mod 64 * 64 + c mod 64 = c"
proof -
  have d: "c div 4096 = c div 64 div 64" "c div 262144 = c div 4096 div 64"
    by (simp_all add: div_mult2_eq [symmetric])
  show "c div 64 * 64 + c mod 64 = c"
    by simp
  then show "c div 4096 * 4096 + c div 64 mod 64 * 64 + c mod 64 = c"
    using div_mult_mod_eq [of "c div 64" 64] unfolding d(1) by linarith
  then show "c div 262144 * 262144 + c div 4096 mod 64 * 4096 + c div 64 mod 64 * 64 + c mod 64 = c"
    using div_mult_mod_eq [of "c div 4096" 64] unfolding d(2) by linarith
qed

lemma utf8_decode_utf8:
  assumes "c < 0x110000"
  shows "utf8_decode (utf8 c @ bs) = map_option ((#) c) (utf8_decode bs)"
proof -
  consider (1) "c < 0x80" | (2) "0x80 \<le> c" "c < 0x800" | (3) "0x800 \<le> c" "c < 0x10000"
    | (4) "0x10000 \<le> c"
    by linarith
  then show ?thesis
  proof cases
    case 1
    then show ?thesis by (simp add: utf8_def utf8_decode_1 del: utf8_decode.simps)
  next
    case 2
    then have "2 \<le> c div 64" "c div 64 < 32" by linarith+
    then have "utf8_decode ((0xC0 + c div 64) # (0x80 + c mod 64) # bs) = map_option ((#) c) (utf8_decode bs)"
      using utf8_decode_2 [of "c div 64" "c mod 64" bs] by simp
    with 2 show ?thesis by (simp add: utf8_def del: utf8_decode.simps)
  next
    case 3
    then have "c div 4096 < 16" by linarith
    then have "utf8_decode ((0xE0 + c div 4096) # (0x80 + c div 64 mod 64) # (0x80 + c mod 64) # bs)
        = map_option ((#) c) (utf8_decode bs)"
      using utf8_decode_3 [of "c div 4096" "c div 64 mod 64" "c mod 64" bs] 3
      by (simp only: base64_digits)
    with 3 show ?thesis by (simp add: utf8_def del: utf8_decode.simps)
  next
    case 4
    with assms have "c div 262144 < 8" by linarith
    then have "utf8_decode ((0xF0 + c div 262144) # (0x80 + c div 4096 mod 64) # (0x80 + c div 64 mod 64)
        # (0x80 + c mod 64) # bs) = map_option ((#) c) (utf8_decode bs)"
      using utf8_decode_4 [of "c div 262144" "c div 4096 mod 64" "c div 64 mod 64" "c mod 64" bs] 4 assms
      by (simp only: base64_digits)
    with 4 show ?thesis by (simp add: utf8_def del: utf8_decode.simps)
  qed
qed

lemma utf8_decode_concat:
  "\<forall>c \<in> set cs. c < 0x110000 \<Longrightarrow> utf8_decode (concat (map utf8 cs)) = Some cs"
  by (induction cs) (simp_all add: utf8_decode_utf8 del: utf8_decode.simps(2))

lemma surrogate_bounds:
  "is_high u \<Longrightarrow> 0xD800 \<le> unat u \<and> unat u \<le> 0xDBFF"
  "is_low u \<Longrightarrow> 0xDC00 \<le> unat u \<and> unat u \<le> 0xDFFF"
  by (auto simp: is_high_def is_low_def word_le_nat_alt)

lemma unat_unit_bound: "unat (u :: code_unit) < 65536"
  using unsigned_less [of u] by simp

lemma units_of_unat [simp]: "units_of (unat u) = [u]"
  using unat_unit_bound [of u] by (simp add: units_of_def)

lemma units_of_pair:
  assumes "is_high u" and "is_low v"
  shows "units_of (0x10000 + (unat u - 0xD800) * 0x400 + (unat v - 0xDC00)) = [u, v]"
proof -
  from assms have u: "0xD800 \<le> unat u" "unat u \<le> 0xDBFF" and v: "0xDC00 \<le> unat v" "unat v \<le> 0xDFFF"
    using surrogate_bounds by auto
  define a b where "a = unat u - 0xD800" and "b = unat v - 0xDC00"
  with u v have ab: "unat u = 0xD800 + a" "unat v = 0xDC00 + b" "b < 0x400" and "a < 0x400"
    by auto
  have "u = word_of_nat (0xD800 + a)" "v = word_of_nat (0xDC00 + b)"
    unfolding ab(1,2) [symmetric] by simp_all
  with ab show ?thesis
    by (simp add: units_of_def add.assoc)
qed

lemma lone_unit_bound: "lone_unit u < 65536"
  using unat_unit_bound [of u] by (simp add: lone_unit_def)

lemma pair_bound:
  "is_high u \<Longrightarrow> is_low v \<Longrightarrow> 0x10000 + (unat u - 0xD800) * 0x400 + (unat v - 0xDC00) < 0x110000"
  using surrogate_bounds(1) [of u] surrogate_bounds(2) [of v] by auto

lemma code_points_bound: "\<forall>c \<in> set (code_points s). c < 0x110000"
proof (induction s rule: code_points.induct)
  case (2 u)
  show ?case using lone_unit_bound [of u] by simp
next
  case (3 u v s)
  then show ?case using lone_unit_bound [of u] pair_bound [of u v] by simp
qed simp

lemma units_of_lone: "\<not> is_high u \<Longrightarrow> \<not> is_low u \<Longrightarrow> units_of (lone_unit u) = [u]"
  by (simp add: lone_unit_def)

lemma units_of_code_points: "well_formed s \<Longrightarrow> concat (map units_of (code_points s)) = s"
  by (induction s rule: code_points.induct) (auto simp: units_of_pair units_of_lone split: if_splits)

lemma form_decode_encode: "well_formed s \<Longrightarrow> form_decode (form_encode s) = Some s"
proof -
  assume wf: "well_formed s"
  have "\<forall>b \<in> set (concat (map utf8 (code_points s))). b < 256"
    using utf8_bytes code_points_bound by fastforce
  then have "form_bytes (form_encode s) = concat (map utf8 (code_points s))"
    unfolding form_encode_def by (rule form_bytes_concat)
  then show ?thesis
    using wf by (simp add: form_decode_def utf8_decode_concat code_points_bound units_of_code_points)
qed

text \<open>The separators of a query string never occur in an encoded name or value.\<close>

lemma hex_digit_separators: "n < 16 \<Longrightarrow> hex_digit n \<notin> {0x23, 0x26, 0x3D}"
proof -
  have "list_all (\<lambda>n. hex_digit n \<notin> {0x23, 0x26, 0x3D}) [0..<16]"
    by code_simp
  then show "n < 16 \<Longrightarrow> hex_digit n \<notin> {0x23, 0x26, 0x3D}"
    by (simp add: list_all_iff)
qed

lemma form_byte_separators: "b < 256 \<Longrightarrow> {0x23, 0x26, 0x3D} \<inter> set (form_byte b) = {}"
  using hex_digit_separators [of "b div 16"] hex_digit_separators [of "b mod 16"]
  by (auto simp: form_byte_def percent_def is_alnum_def of_nat_unit_numeral dest: sym)

lemma form_encode_separators:
  "0x26 \<notin> set (form_encode s)" "0x3D \<notin> set (form_encode s)" "0x23 \<notin> set (form_encode s)"
  using form_byte_separators utf8_bytes code_points_bound [of s]
  by (fastforce simp: form_encode_def)+

lemma split_on_none: "d \<notin> set s \<Longrightarrow> split_on d s = [s]"
  by (induction s) auto

lemma split_on_append: "d \<notin> set s \<Longrightarrow> split_on d (s @ d # t) = s # split_on d t"
  by (induction s) auto

lemma read_pair_encoded:
  assumes "well_formed k" and "well_formed v"
  shows "read_pair (form_encode k @ 0x3D # form_encode v) = Some (k, v)"
proof -
  have "takeWhile (\<lambda>u. u \<noteq> 0x3D) (form_encode k @ 0x3D # form_encode v) = form_encode k"
    using form_encode_separators(2) [of k] by (subst takeWhile_append2) auto
  with assms show ?thesis
    by (simp add: Let_def form_decode_encode)
qed

lemma params_string_no_hash: "0x23 \<notin> set (params_string ps)"
  by (induction ps rule: params_string.induct) (simp_all add: form_encode_separators)

lemma parse_params_string:
  "\<forall>(k, v) \<in> set ps. well_formed k \<and> well_formed v \<Longrightarrow> parse_params (params_string ps) = ps"
proof (induction ps rule: params_string.induct)
  case 1
  show ?case by (simp add: parse_params_def map_filter_def)
next
  case (2 k v)
  then show ?case
    using form_encode_separators
    by (simp add: parse_params_def map_filter_def split_on_none read_pair_encoded del: read_pair.simps)
next
  case (3 k v p ps)
  let ?pair = "form_encode k @ 0x3D # form_encode v"
  have "split_on 0x26 (params_string ((k, v) # p # ps)) = ?pair # split_on 0x26 (params_string (p # ps))"
    using form_encode_separators split_on_append [of "0x26" ?pair] by simp
  with 3 show ?case
    by (simp add: parse_params_def map_filter_def read_pair_encoded del: read_pair.simps params_string.simps)
qed

lemma well_formed_js [simp]: "well_formed (js s)"
proof -
  have "\<not> 55296 \<le> (of_char c :: nat)" "\<not> 56320 \<le> (of_char c :: nat)" for c
    using nat_of_char_less_256 [of c] by linarith+
  then have ascii: "\<not> is_high (of_char c)" "\<not> is_low (of_char c)" for c
    using nat_of_char_less_256 [of c]
    by (auto simp: is_high_def is_low_def word_le_nat_alt unat_of_char)
  show ?thesis
    by (induction s rule: induct_list012) (simp_all add: js_Cons ascii)
qed

text \<open>Reading never makes text longer: a value is no longer than the query it came from.\<close>

lemma length_form_bytes: "length (form_bytes s) \<le> length s"
proof (induction s rule: length_induct)
  case (1 s)
  show ?case
  proof (cases s)
    case (Cons u t)
    have IH: "length (form_bytes x) \<le> length x" if "length x \<le> length t" for x
      using 1 Cons that by simp
    show ?thesis
      unfolding Cons form_bytes.simps(2) [of u t]
      using IH [of t] IH [of "drop 2 t"]
      by (auto simp del: form_bytes.simps(2) split: list.splits option.splits)
  qed simp
qed

lemma length_units_of: "length (units_of c) \<le> 2" "c < 0x10000 \<Longrightarrow> length (units_of c) = 1"
  by (simp_all add: units_of_def)

lemma length_units_Cons:
  "map_option ((#) c) r = Some cs \<Longrightarrow> (\<And>ds. r = Some ds \<Longrightarrow> length (concat (map units_of ds)) \<le> n) \<Longrightarrow>
   length (concat (map units_of cs)) \<le> length (units_of c) + n"
  by (cases r) auto

lemma length_utf8_decode:
  "utf8_decode bs = Some cs \<Longrightarrow> length (concat (map units_of cs)) \<le> length bs"
proof (induction bs arbitrary: cs rule: length_induct)
  case (1 bs)
  show ?case
  proof (cases bs)
    case (Cons b t)
    have IH: "length (concat (map units_of ds)) \<le> length x"
      if "length x \<le> length t" "utf8_decode x = Some ds" for x ds
      using "1.IH" Cons that by simp
    have step: "length (concat (map units_of cs)) \<le> length (units_of c) + length x"
      if "map_option ((#) c) (utf8_decode x) = Some cs" "length x \<le> length t" for c x
      using length_units_Cons [OF that(1)] IH [OF that(2)] by blast
    note dec = "1.prems" [unfolded Cons utf8_decode.simps(2) [of b t]]
    consider "b < 0x80" | "0x80 \<le> b" "b < 0xE0" | "0xE0 \<le> b" "b < 0xF0" | "0xF0 \<le> b"
      by linarith
    then show ?thesis
    proof cases
      case 1
      with dec have "length (concat (map units_of cs)) \<le> length (units_of b) + length t"
        by (intro step) (auto simp del: utf8_decode.simps)
      with 1 Cons show ?thesis by (simp add: length_units_of(2))
    next
      case 2
      with dec obtain c x p where x: "t = c # x" and d: "map_option ((#) p) (utf8_decode x) = Some cs"
        by (auto simp del: utf8_decode.simps map_option_eq_Some split: if_splits list.splits)
      show ?thesis
        using step [OF d] length_units_of(1) [of p] by (simp add: Cons x)
    next
      case 3
      with dec obtain c c' x p where x: "t = c # c' # x" and d: "map_option ((#) p) (utf8_decode x) = Some cs"
        by (auto simp: Let_def simp del: utf8_decode.simps map_option_eq_Some split: if_splits list.splits)
      show ?thesis
        using step [OF d] length_units_of(1) [of p] by (simp add: Cons x)
    next
      case 4
      with dec obtain c c' c'' x p where x: "t = c # c' # c'' # x"
        and d: "map_option ((#) p) (utf8_decode x) = Some cs"
        by (auto simp: Let_def simp del: utf8_decode.simps map_option_eq_Some split: if_splits list.splits)
      show ?thesis
        using step [OF d] length_units_of(1) [of p] by (simp add: Cons x)
    qed
  qed (use "1.prems" in simp)
qed

lemma length_form_decode: "form_decode s = Some t \<Longrightarrow> length t \<le> length s"
  using length_utf8_decode [of "form_bytes s"] length_form_bytes [of s]
  by (auto simp: form_decode_def intro: le_trans)

lemma length_read_pair: "read_pair p = Some (k, v) \<Longrightarrow> length v \<le> length p"
  using length_form_decode
  by (fastforce simp: Let_def split: option.splits)

lemma length_split_on: "p \<in> set (split_on d s) \<Longrightarrow> length p \<le> length s"
  by (induction s arbitrary: p) (fastforce split: list.splits if_splits)+

lemma length_params_get: "params_get (parse_params q) k = Some v \<Longrightarrow> length v \<le> length q"
proof -
  assume "params_get (parse_params q) k = Some v"
  then have "(k, v) \<in> set (parse_params q)"
    by (auto simp: params_get_def dest: map_of_SomeD)
  then obtain p where "p \<in> set (split_on 0x26 q)" and "read_pair p = Some (k, v)"
    by (auto simp: parse_params_def map_filter_def simp del: read_pair.simps)
  then show ?thesis
    using length_read_pair length_split_on le_trans by blast
qed

section \<open>Path segments\<close>

text \<open>
  A component that was encoded decodes to itself and holds no separator of a path.  On such
  text form decoding is percent decoding, since a plus sign is always escaped.
\<close>

lemma form_bytes_component: "b < 256 \<Longrightarrow> form_bytes (component_byte b @ s) = b # form_bytes s"
  by (auto simp: component_byte_def form_bytes_percent is_alnum_def of_nat_unit_numeral)

lemma form_bytes_components: "\<forall>b \<in> set bs. b < 256 \<Longrightarrow> form_bytes (concat (map component_byte bs)) = bs"
  by (induction bs) (simp_all add: form_bytes_component)

lemma form_decode_component:
  assumes "encodeURIComponent s = Some t"
  shows "form_decode t = Some s"
proof -
  from assms have wf: "well_formed s" and t: "t = concat (map component_byte (concat (map utf8 (code_points s))))"
    by (auto simp: encodeURIComponent_def split: if_splits)
  have "\<forall>b \<in> set (concat (map utf8 (code_points s))). b < 256"
    using utf8_bytes code_points_bound by fastforce
  then have "form_bytes t = concat (map utf8 (code_points s))"
    unfolding t by (rule form_bytes_components)
  then show ?thesis
    using wf by (simp add: form_decode_def utf8_decode_concat code_points_bound units_of_code_points)
qed

lemma hex_digit_slash: "n < 16 \<Longrightarrow> hex_digit n \<notin> {0x2F, 0x3F}"
proof -
  have "list_all (\<lambda>n. hex_digit n \<notin> {0x2F, 0x3F}) [0..<16]"
    by code_simp
  then show "n < 16 \<Longrightarrow> hex_digit n \<notin> {0x2F, 0x3F}"
    by (simp add: list_all_iff)
qed

lemma component_byte_separators: "b < 256 \<Longrightarrow> {0x23, 0x2F, 0x3F} \<inter> set (component_byte b) = {}"
  using hex_digit_separators [of "b div 16"] hex_digit_separators [of "b mod 16"]
    hex_digit_slash [of "b div 16"] hex_digit_slash [of "b mod 16"]
  by (auto simp: component_byte_def percent_def is_alnum_def of_nat_unit_numeral dest: sym)

lemma encodeURIComponent_separators:
  assumes "encodeURIComponent s = Some t"
  shows "0x2F \<notin> set t" "0x3F \<notin> set t" "0x23 \<notin> set t"
proof -
  from assms have "t = concat (map component_byte (concat (map utf8 (code_points s))))"
    by (auto simp: encodeURIComponent_def split: if_splits)
  then show "0x2F \<notin> set t" "0x3F \<notin> set t" "0x23 \<notin> set t"
    using component_byte_separators utf8_bytes code_points_bound [of s] by fastforce+
qed

lemma encodeURIComponent_defined: "encodeURIComponent s \<noteq> None \<longleftrightarrow> well_formed s"
  by (simp add: encodeURIComponent_def)

end
