(* ===== verification/Routing.thy ===== *)
theory Routing
  imports Url_Text
begin

text \<open>
  Where a visitor may be sent: \<^verbatim>\<open>app/lib/routing/safe-redirect.ts\<close> and \<^verbatim>\<open>routes.ts\<close>, the
  request proxy (\<^verbatim>\<open>proxy.ts\<close> with \<^verbatim>\<open>app/lib/supabase/proxy-session.ts\<close>) and the two auth
  route handlers under \<^verbatim>\<open>app/auth\<close>.  Supabase is a parameter: what \<open>getUser\<close> and the
  code exchange return.
\<close>

section \<open>Destinations\<close>

definition DEFAULT_DESTINATION :: jsstring where
  "DEFAULT_DESTINATION = js ''/dashboard''"

definition sanitizeRedirectPath :: "jsstring option \<Rightarrow> jsstring \<Rightarrow> jsstring" where
  "sanitizeRedirectPath candidate fallback =
     (case candidate of
        None \<Rightarrow> fallback
      | Some c \<Rightarrow>
          if c = [] then fallback
          else if \<not> prefix (js ''/'') c then fallback
          else if prefix (js ''//'') c \<or> prefix (js ''/'' @ [0x5C]) c then fallback
          else if (\<exists>u \<in> set c. u \<le> 0x1F) \<or> sublist (js ''://'') c then fallback
          else c)"

definition buildSignInUrl :: "jsstring \<Rightarrow> jsstring option \<Rightarrow> jsstring" where
  "buildSignInUrl intendedPath reason =
     (let next = sanitizeRedirectPath (Some intendedPath) DEFAULT_DESTINATION;
          params0 = (if next \<noteq> DEFAULT_DESTINATION then params_set (js ''next'') next [] else []);
          params = (case reason of Some r \<Rightarrow> params_set (js ''reason'') r params0 | None \<Rightarrow> params0);
          query = params_string params
      in if query \<noteq> [] then js ''/sign-in?'' @ query else js ''/sign-in'')"

definition PROTECTED_PREFIXES :: "jsstring list" where
  "PROTECTED_PREFIXES = map js
     [''/admin'', ''/onboarding'', ''/dashboard'', ''/matches'', ''/scholarships'',
      ''/applications'', ''/documents'', ''/profile'', ''/settings'']"

definition AUTH_ENTRY_PATHS :: "jsstring list" where
  "AUTH_ENTRY_PATHS = map js [''/sign-in'', ''/sign-up'', ''/forgot-password'', ''/verify-email'']"

definition isProtectedPath :: "jsstring \<Rightarrow> bool" where
  "isProtectedPath pathname =
     list_ex (\<lambda>p. pathname = p \<or> prefix (p @ js ''/'') pathname) PROTECTED_PREFIXES"

definition isAuthEntryPath :: "jsstring \<Rightarrow> bool" where
  "isAuthEntryPath pathname = list_ex (\<lambda>p. pathname = p) AUTH_ENTRY_PATHS"

lemmas [js_defs] = DEFAULT_DESTINATION_def sanitizeRedirectPath_def buildSignInUrl_def
  PROTECTED_PREFIXES_def AUTH_ENTRY_PATHS_def isProtectedPath_def isAuthEntryPath_def

section \<open>The proxy\<close>

record cookie =
  ck_name :: jsstring
  ck_value :: jsstring
  ck_options :: jsstring

text \<open>A response keeps its cookies by name; \<open>set\<close> replaces the cookie with the same name.\<close>

type_synonym cookie_jar = "(jsstring, cookie) dict"

definition jar_set :: "cookie \<Rightarrow> cookie_jar \<Rightarrow> cookie_jar" where
  "jar_set c jar = dict_set (ck_name c) c jar"

definition jar_all :: "cookie_jar \<Rightarrow> cookie list" where
  "jar_all jar = map snd jar"

record next_request =
  req_pathname :: jsstring
  req_search :: jsstring
  req_params :: params
  req_cookies :: cookie_jar

text \<open>
  Supabase's \<open>getUser\<close> calls the adapter's \<open>setAll\<close> any number of times and then returns
  a user or null, or throws.
\<close>

datatype 'u user_result = Resolved "'u option" | Threw

record 'u auth_answer =
  ans_set_all :: "cookie list list"
  ans_user :: "'u user_result"

text \<open>
  \<open>setAll\<close> writes the name and value to the request, starts a new response for the
  updated request and puts the cookies on it.
\<close>

definition set_all :: "cookie list \<Rightarrow> next_request \<times> cookie_jar \<Rightarrow> next_request \<times> cookie_jar" where
  "set_all cookies st =
     (let request = (fst st)\<lparr>req_cookies := fold (\<lambda>c. jar_set (c\<lparr>ck_options := []\<rparr>)) cookies (req_cookies (fst st))\<rparr>;
          response = fold jar_set cookies []
      in (request, response))"

definition refreshSession ::
  "(cookie list \<Rightarrow> 'u auth_answer) \<Rightarrow> next_request \<Rightarrow> cookie_jar \<times> 'u option" where
  "refreshSession auth request =
     (let answer = auth (jar_all (req_cookies request));
          (_, response) = fold set_all (ans_set_all answer) (request, []);
          user = (case ans_user answer of Resolved u \<Rightarrow> u | Threw \<Rightarrow> None)
      in (response, user))"

datatype proxy_response = Pass cookie_jar | Redirect jsstring cookie_jar

definition redirectPreservingCookies :: "jsstring \<Rightarrow> cookie_jar \<Rightarrow> proxy_response" where
  "redirectPreservingCookies path source = Redirect path (fold jar_set (jar_all source) [])"

definition proxy :: "(cookie list \<Rightarrow> 'u auth_answer) \<Rightarrow> next_request \<Rightarrow> proxy_response" where
  "proxy auth request =
     (let (response, user) = refreshSession auth request
      in if user = None \<and> isProtectedPath (req_pathname request)
         then redirectPreservingCookies
                (buildSignInUrl (req_pathname request @ req_search request) None) response
         else if user \<noteq> None \<and> isAuthEntryPath (req_pathname request)
         then redirectPreservingCookies
                (sanitizeRedirectPath (params_get (req_params request) (js ''next'')) DEFAULT_DESTINATION)
                response
         else Pass response)"

text \<open>
  The paths the proxy runs for (\<open>config.matcher\<close>): everything but static assets, image
  optimisation, the auth handlers and files with an image extension.
\<close>

definition matched :: "jsstring \<Rightarrow> bool" where
  "matched pathname =
     (case pathname of
        [] \<Rightarrow> False
      | u # rest \<Rightarrow>
          u = 0x2F \<and>
          \<not> list_ex (\<lambda>p. prefix (js p) rest)
              [''_next/static'', ''_next/image'', ''auth/'', ''icon'', ''opengraph-image''] \<and>
          \<not> (prefix (js ''favicon'') rest \<and> 8 \<le> length rest \<and> prefix (js ''ico'') (drop 8 rest)) \<and>
          \<not> list_ex (\<lambda>e. suffix (js e) rest) [''.svg'', ''.png'', ''.jpg'', ''.jpeg'', ''.gif'', ''.webp''])"

section \<open>The auth route handlers\<close>

text \<open>
  \<open>exchange\<close> and \<open>verify\<close> are Supabase's calls: whether they came back without an error.
\<close>

definition confirm_GET ::
  "(jsstring \<Rightarrow> bool) \<Rightarrow> (jsstring \<Rightarrow> jsstring \<Rightarrow> bool) \<Rightarrow> params \<Rightarrow> jsstring" where
  "confirm_GET exchange verify search =
     (let next = sanitizeRedirectPath (params_get search (js ''next'')) DEFAULT_DESTINATION;
          code = params_get search (js ''code'');
          tokenHash = params_get search (js ''token_hash'');
          type = params_get search (js ''type'');
          invalid = js ''/sign-in?reason=link-invalid''
      in case code of
           Some c \<Rightarrow>
             if c \<noteq> [] then (if exchange c then next else invalid)
             else (case (tokenHash, type) of
                     (Some h, Some t) \<Rightarrow>
                       if h \<noteq> [] \<and> t \<noteq> [] \<and> verify t h then next else invalid
                   | _ \<Rightarrow> invalid)
         | None \<Rightarrow>
             (case (tokenHash, type) of
                (Some h, Some t) \<Rightarrow> if h \<noteq> [] \<and> t \<noteq> [] \<and> verify t h then next else invalid
              | _ \<Rightarrow> invalid))"

text \<open>Whatever \<open>signOut\<close> makes of the session, the answer is 303 to the sign-in page.\<close>

definition signout_POST :: "('u option \<Rightarrow> 'u option) \<Rightarrow> 'u option \<Rightarrow> 'u option \<times> nat \<times> jsstring" where
  "signout_POST signOut session = (signOut session, 303, js ''/sign-in'')"

section \<open>Lemmas\<close>

text \<open>
  How a browser resolves a reference against an https page (WHATWG URL): leading and
  trailing C0 controls and spaces are cut, tabs and line ends removed; the reference leaves
  the origin only if it then starts with a scheme or with two slashes of either kind.
\<close>

definition url_cleaned :: "jsstring \<Rightarrow> jsstring" where
  "url_cleaned s =
     filter (\<lambda>u. u \<notin> {0x9, 0xA, 0xD})
       (rev (dropWhile (\<lambda>u. u \<le> 0x20) (rev (dropWhile (\<lambda>u. u \<le> 0x20) s))))"

definition is_slash :: "code_unit \<Rightarrow> bool" where
  "is_slash u \<longleftrightarrow> u = 0x2F \<or> u = 0x5C"

definition has_scheme :: "jsstring \<Rightarrow> bool" where
  "has_scheme s =
     (let name = takeWhile (\<lambda>u. is_alnum (unat u) \<or> u \<in> {0x2B, 0x2D, 0x2E}) s
      in name \<noteq> [] \<and> \<not> (48 \<le> hd name \<and> hd name \<le> 57) \<and> prefix [0x3A] (drop (length name) s))"

definition leaves_origin :: "jsstring \<Rightarrow> bool" where
  "leaves_origin s =
     (let t = url_cleaned s
      in has_scheme t \<or> (case t of a # b # _ \<Rightarrow> is_slash a \<and> is_slash b | _ \<Rightarrow> False))"

lemmas [js_defs] = url_cleaned_def is_slash_def has_scheme_def leaves_origin_def

lemma sanitize_cases [case_names fallback accepted]:
  assumes "sanitizeRedirectPath c fb = fb \<Longrightarrow> P"
    and "\<And>s. c = Some (0x2F # s) \<Longrightarrow> \<not> prefix [0x2F] s \<Longrightarrow> \<not> prefix [0x5C] s \<Longrightarrow>
           \<forall>u \<in> set s. \<not> u \<le> 0x1F \<Longrightarrow> \<not> sublist (js ''://'') (0x2F # s) \<Longrightarrow>
           sanitizeRedirectPath c fb = 0x2F # s \<Longrightarrow> P"
  shows P
proof (cases "sanitizeRedirectPath c fb = fb")
  case False
  then obtain t where c: "c = Some t" and t: "t \<noteq> []" "prefix (js ''/'') t"
    and safe: "\<not> prefix (js ''//'') t" "\<not> prefix (js ''/'' @ [0x5C]) t"
      "\<forall>u \<in> set t. \<not> u \<le> 0x1F" "\<not> sublist (js ''://'') t"
    and eq: "sanitizeRedirectPath c fb = t"
    by (auto simp: sanitizeRedirectPath_def split: option.splits if_splits)
  from t obtain s where s: "t = 0x2F # s"
    by (auto simp: prefix_def js_def)
  with c safe eq show ?thesis
    by (intro assms(2) [of s]) (auto simp: js_def)
qed (rule assms(1))

lemma path_stays:
  assumes "\<not> prefix [0x2F] s" "\<not> prefix [0x5C] s" "\<forall>u \<in> set s. \<not> u \<le> 0x1F"
  shows "\<not> leaves_origin (0x2F # s)"
proof -
  let ?r = "rev (dropWhile (\<lambda>u. u \<le> 0x20) (rev s))"
  have clean: "url_cleaned (0x2F # s) = 0x2F # ?r"
  proof -
    have ctrl: "\<not> u \<le> 0x1F" if "u \<in> set ?r" for u
      using that assms(3) set_dropWhileD by fastforce
    have "filter (\<lambda>u. u \<notin> {0x9, 0xA, 0xD}) ?r = ?r"
      unfolding filter_id_conv using ctrl by fastforce
    moreover have "rev (dropWhile (\<lambda>u. u \<le> 0x20) (rev (0x2F # s))) = 0x2F # ?r"
      by (simp add: dropWhile_append)
    ultimately show ?thesis
      by (simp add: url_cleaned_def)
  qed
  moreover have "\<not> is_slash b" if "?r = b # t" for b t
  proof -
    have "prefix ?r s"
      by (metis dropWhile_eq_drop rev_rev_ident suffix_drop suffix_to_prefix)
    then have "prefix [b] s"
      unfolding that by (auto simp: prefix_def)
    with assms(1,2) show ?thesis
      by (auto simp: is_slash_def)
  qed
  ultimately show ?thesis
    by (auto simp: leaves_origin_def has_scheme_def is_alnum_def split: list.splits)
qed

lemma sanitize_stays: "\<not> leaves_origin fb \<Longrightarrow> \<not> leaves_origin (sanitizeRedirectPath c fb)"
  by (cases c fb rule: sanitize_cases) (auto dest: path_stays)

text \<open>Cookie jars: every entry is stored under its cookie's name, once.\<close>

definition jar_ok :: "cookie_jar \<Rightarrow> bool" where
  "jar_ok jar \<longleftrightarrow> distinct (keys_of jar) \<and> (\<forall>(k, c) \<in> set jar. k = ck_name c)"

lemma dict_set_new: "k \<notin> set (keys_of d) \<Longrightarrow> dict_set k v d = d @ [(k, v)]"
  by (induction k v d rule: dict_set.induct) (auto simp: keys_of_def)

lemma set_dict_set: "set (dict_set k v d) \<subseteq> insert (k, v) (set d)"
  by (induction k v d rule: dict_set.induct) auto

lemma jar_ok_set [inv_intros]: "jar_ok jar \<Longrightarrow> jar_ok (jar_set c jar)"
  using set_dict_set [of "ck_name c" c jar] by (fastforce simp: jar_ok_def jar_set_def distinct_dict_set)

lemma jar_ok_fold [inv_intros]: "jar_ok jar \<Longrightarrow> jar_ok (fold jar_set cs jar)"
  by (induction cs arbitrary: jar) (auto intro: inv_intros)

lemma jar_ok_Nil [inv_intros]: "jar_ok []"
  by (simp add: jar_ok_def keys_of_def)

lemma jar_copy_append:
  "jar_ok (pre @ jar) \<Longrightarrow> fold jar_set (jar_all jar) pre = pre @ jar"
proof (induction jar arbitrary: pre)
  case (Cons e jar)
  obtain k c where e: "e = (k, c)" by (cases e)
  with Cons.prems have "k = ck_name c" and "k \<notin> set (keys_of pre)"
    by (auto simp: jar_ok_def keys_of_def)
  then have "jar_set c pre = pre @ [e]"
    by (simp add: jar_set_def dict_set_new e)
  with Cons e show ?case
    by (simp add: jar_all_def)
qed (simp add: jar_all_def)

lemma jar_copy: "jar_ok jar \<Longrightarrow> fold jar_set (jar_all jar) [] = jar"
  using jar_copy_append [of "[]" jar] by simp

lemma fold_set_all_jar_ok: "jar_ok (snd st) \<Longrightarrow> jar_ok (snd (fold set_all css st))"
proof (induction css arbitrary: st)
  case (Cons cs css)
  have "jar_ok (snd (set_all cs st))"
    by (auto simp: set_all_def Let_def intro: inv_intros)
  then show ?case
    using Cons.IH by simp
qed simp

lemma refreshSession_jar_ok: "jar_ok (fst (refreshSession auth request))"
  using fold_set_all_jar_ok [of "(request, [])" "ans_set_all (auth (jar_all (req_cookies request)))"]
  by (simp add: refreshSession_def Let_def jar_ok_Nil split_beta)

lemma proxy_redirect_cases:
  assumes "proxy auth request = Redirect path jar"
  shows "jar = fst (refreshSession auth request) \<and>
    (snd (refreshSession auth request) = None \<and> isProtectedPath (req_pathname request) \<and>
       path = buildSignInUrl (req_pathname request @ req_search request) None \<or>
     snd (refreshSession auth request) \<noteq> None \<and> isAuthEntryPath (req_pathname request) \<and>
       path = sanitizeRedirectPath (params_get (req_params request) (js ''next'')) DEFAULT_DESTINATION)"
  using assms jar_copy [OF refreshSession_jar_ok, of auth request]
  by (auto simp: proxy_def redirectPreservingCookies_def split_beta split: if_splits)

lemma default_not_entry [simp]: "\<not> isAuthEntryPath DEFAULT_DESTINATION"
  by (simp add: isAuthEntryPath_def AUTH_ENTRY_PATHS_def DEFAULT_DESTINATION_def)

lemma sign_in_url_form: "\<exists>q. buildSignInUrl p r = js ''/sign-in'' @ q \<and> (q = [] \<or> hd q = 0x3F)"
proof -
  have "js ''?'' = [0x3F]" by (simp add: js_def)
  moreover have "js ''/sign-in?'' = js ''/sign-in'' @ js ''?''"
    by (simp flip: js_append)
  ultimately show ?thesis
    by (auto simp: buildSignInUrl_def Let_def)
qed

lemma leaves_origin_default: "\<not> leaves_origin DEFAULT_DESTINATION"
  by code_simp

lemma visible_path_stays:
  assumes "\<not> a \<le> 0x20" and "\<not> is_slash a"
  shows "\<not> leaves_origin (0x2F # a # s)"
proof -
  have "rev (dropWhile (\<lambda>u. u \<le> 0x20) (rev (0x2F # a # s))) =
      0x2F # a # rev (dropWhile (\<lambda>u. u \<le> 0x20) (rev s))"
    using assms(1) by (simp add: dropWhile_append)
  moreover have "a \<notin> {0x9, 0xA, 0xD}"
    using assms(1) by auto
  ultimately show ?thesis
    using assms by (simp add: leaves_origin_def url_cleaned_def has_scheme_def is_alnum_def Let_def is_slash_def)
qed

lemma sign_in_url_stays: "\<not> leaves_origin (buildSignInUrl p r)"
proof -
  obtain q where "buildSignInUrl p r = js ''/sign-in'' @ q"
    using sign_in_url_form by blast
  moreover have "js ''/sign-in'' = 0x2F # 0x73 # js ''ign-in''"
    by (simp add: js_def)
  ultimately show ?thesis
    by (simp add: visible_path_stays is_slash_def)
qed

section \<open>Redirect chains\<close>

text \<open>
  A browser that follows the proxy's redirects parses each destination again.  The parser is
  the platform's; what the proxy relies on is that a parameter's value is shorter than the
  URL it was read from, and that the destination without a query or fragment is its path.
\<close>

locale url_parser =
  fixes parse :: "jsstring \<Rightarrow> next_request"
  assumes parameter_shorter: "params_get (req_params (parse p)) k = Some v \<Longrightarrow> length v < length p"
    and sign_in_path: "buildSignInUrl q r = p \<Longrightarrow> req_pathname (parse p) = js ''/sign-in''"
    and default_path: "req_pathname (parse DEFAULT_DESTINATION) = DEFAULT_DESTINATION"
begin

lemma bounce_shrinks:
  assumes "q = sanitizeRedirectPath (params_get (req_params (parse p)) (js ''next'')) DEFAULT_DESTINATION"
  shows "q = DEFAULT_DESTINATION \<or> length q < length p"
proof (cases "params_get (req_params (parse p)) (js ''next'')" DEFAULT_DESTINATION rule: sanitize_cases)
  case fallback
  with assms show ?thesis by simp
next
  case (accepted s)
  with assms show ?thesis
    using parameter_shorter [of p "js ''next''"] by simp
qed

end

text \<open>
  Where a visitor ends up, following at most \<open>fuel\<close> redirects of the proxy.  \<open>auth\<close> is what
  Supabase answers on each of the requests.
\<close>

fun follow ::
  "nat \<Rightarrow> (cookie list \<Rightarrow> 'u auth_answer) \<Rightarrow> (jsstring \<Rightarrow> next_request) \<Rightarrow> jsstring \<Rightarrow> jsstring option" where
  "follow 0 auth parse p = None"
| "follow (Suc fuel) auth parse p =
     (if \<not> matched (req_pathname (parse p)) then Some p
      else (case proxy auth (parse p) of Redirect q _ \<Rightarrow> follow fuel auth parse q | Pass _ \<Rightarrow> Some p))"

definition signed_in :: "'u auth_answer \<Rightarrow> bool" where
  "signed_in answer \<longleftrightarrow> (\<exists>u. ans_user answer = Resolved (Some u))"

lemma refreshSession_user:
  "snd (refreshSession auth request) \<noteq> None \<longleftrightarrow> signed_in (auth (jar_all (req_cookies request)))"
  by (auto simp: refreshSession_def signed_in_def Let_def split_beta split: user_result.splits)

lemma proxy_pass_iff:
  "(\<exists>jar. proxy auth request = Pass jar) \<longleftrightarrow>
     (if signed_in (auth (jar_all (req_cookies request)))
      then \<not> isAuthEntryPath (req_pathname request) else \<not> isProtectedPath (req_pathname request))"
  using refreshSession_user [of auth request]
  by (auto simp: proxy_def redirectPreservingCookies_def split_beta Let_def)

lemma entry_matched: "isAuthEntryPath p \<Longrightarrow> matched p"
proof -
  have "list_all matched AUTH_ENTRY_PATHS"
    by code_simp
  then show "isAuthEntryPath p \<Longrightarrow> matched p"
    by (auto simp: isAuthEntryPath_def list_all_iff list_ex_iff)
qed

lemma default_matched: "matched DEFAULT_DESTINATION" "matched (js ''/sign-in'')"
  by code_simp+

context url_parser begin

lemma signed_in_chain:
  assumes "\<And>cs. signed_in (auth cs)"
  shows "length p + 1 < fuel \<Longrightarrow>
    \<exists>q. follow fuel auth parse p = Some q \<and> \<not> isAuthEntryPath (req_pathname (parse q))"
proof (induction fuel arbitrary: p)
  case (Suc fuel)
  show ?case
  proof (cases "proxy auth (parse p)")
    case (Pass jar)
    then show ?thesis
      using proxy_pass_iff [of auth "parse p"] assms entry_matched by auto
  next
    case (Redirect q jar)
    then have "q = DEFAULT_DESTINATION \<or> length q < length p"
      using proxy_redirect_cases [OF Redirect] refreshSession_user [of auth "parse p"] assms
        bounce_shrinks by blast
    then consider "q = DEFAULT_DESTINATION" | "length q + 1 < fuel"
      using Suc.prems by auto
    then show ?thesis
    proof cases
      case 1
      moreover obtain jar' where "proxy auth (parse DEFAULT_DESTINATION) = Pass jar'"
        using proxy_pass_iff [of auth "parse DEFAULT_DESTINATION"] assms by (auto simp: default_path)
      moreover from Suc.prems obtain f where "fuel = Suc f" by (cases fuel) auto
      ultimately show ?thesis
        using Redirect entry_matched by (auto simp: default_path)
    next
      case 2
      with Suc.IH Redirect entry_matched show ?thesis by auto
    qed
  qed
qed simp

lemma signed_out_chain:
  assumes "\<And>cs. \<not> signed_in (auth cs)"
  shows "\<exists>q. follow (Suc (Suc fuel)) auth parse p = Some q \<and>
    \<not> (matched (req_pathname (parse q)) \<and> isProtectedPath (req_pathname (parse q)))"
proof (cases "proxy auth (parse p)")
  case (Pass jar)
  then show ?thesis
    using proxy_pass_iff [of auth "parse p"] assms by auto
next
  case (Redirect q jar)
  then have "q = buildSignInUrl (req_pathname (parse p) @ req_search (parse p)) None"
    using proxy_redirect_cases [OF Redirect] refreshSession_user [of auth "parse p"] assms by blast
  then have path: "req_pathname (parse q) = js ''/sign-in''"
    using sign_in_path by blast
  moreover have "\<not> isProtectedPath (js ''/sign-in'')"
    by code_simp
  ultimately have open_page: "\<not> isProtectedPath (req_pathname (parse q))"
    by simp
  then obtain jar' where "proxy auth (parse q) = Pass jar'"
    using proxy_pass_iff [of auth "parse q"] assms by auto
  with Redirect open_page show ?thesis by auto
qed

end

subsection \<open>A concrete parser\<close>

text \<open>The pathname ends at a question mark or hash, the search at a hash.\<close>

definition split_url :: "jsstring \<Rightarrow> next_request" where
  "split_url p =
     (let path = takeWhile (\<lambda>u. u \<notin> {0x3F, 0x23}) p;
          search = takeWhile (\<lambda>u. u \<noteq> 0x23) (drop (length path) p)
      in \<lparr>req_pathname = path, req_search = search, req_params = parse_params (drop 1 search),
          req_cookies = []\<rparr>)"

lemma split_url_sign_in: "req_pathname (split_url (buildSignInUrl q r)) = js ''/sign-in''"
proof -
  obtain t where t: "buildSignInUrl q r = js ''/sign-in'' @ t" "t = [] \<or> hd t = 0x3F"
    using sign_in_url_form by blast
  have "\<forall>u \<in> set (js ''/sign-in''). u \<notin> {0x3F, 0x23}"
    by code_simp
  with t show ?thesis
    by (cases t) (auto simp: split_url_def Let_def takeWhile_append2)
qed

interpretation split: url_parser split_url
proof unfold_locales
  fix p k v
  assume get: "params_get (req_params (split_url p)) k = Some v"
  define search where
    "search = takeWhile (\<lambda>u. u \<noteq> 0x23) (drop (length (takeWhile (\<lambda>u. u \<notin> {0x3F, 0x23}) p)) p)"
  from get have params: "params_get (parse_params (drop 1 search)) k = Some v"
    by (simp add: split_url_def search_def Let_def)
  then have "search \<noteq> []"
    by (auto simp: parse_params_def map_filter_def params_get_def)
  moreover have "length search \<le> length p"
    unfolding search_def by (rule le_trans [OF length_takeWhile_le]) simp
  ultimately show "length v < length p"
    using length_params_get [OF params] by (cases search) auto
next
  show "\<And>q r p. buildSignInUrl q r = p \<Longrightarrow> req_pathname (split_url p) = js ''/sign-in''"
    using split_url_sign_in by blast
  show "req_pathname (split_url DEFAULT_DESTINATION) = DEFAULT_DESTINATION"
    by code_simp
qed

subsection \<open>Reading a sign-in URL back\<close>

lemma split_url_query:
  assumes "0x23 \<notin> set q"
  shows "req_params (split_url (js ''/sign-in'' @ 0x3F # q)) = parse_params q"
proof -
  have "\<forall>u \<in> set (js ''/sign-in''). u \<notin> {0x3F, 0x23}"
    by code_simp
  then have "takeWhile (\<lambda>u. u \<notin> {0x3F, 0x23}) (js ''/sign-in'' @ 0x3F # q) = js ''/sign-in''"
    by (subst takeWhile_append2) auto
  moreover have "takeWhile (\<lambda>u. u \<noteq> 0x23) q = q"
    unfolding takeWhile_eq_all_conv using assms by auto
  ultimately show ?thesis
    by (simp add: split_url_def Let_def del: takeWhile_eq_all_conv)
qed

lemma params_string_nonempty: "ps \<noteq> [] \<Longrightarrow> params_string ps \<noteq> []"
  by (induction ps rule: params_string.induct) auto

definition sign_in_params :: "jsstring \<Rightarrow> jsstring option \<Rightarrow> params" where
  "sign_in_params p reason =
     (let next = sanitizeRedirectPath (Some p) DEFAULT_DESTINATION;
          params0 = (if next \<noteq> DEFAULT_DESTINATION then [(js ''next'', next)] else [])
      in case reason of Some r \<Rightarrow> params0 @ [(js ''reason'', r)] | None \<Rightarrow> params0)"

lemma buildSignInUrl_params:
  "buildSignInUrl p reason = js ''/sign-in'' @
     (if sign_in_params p reason = [] then [] else 0x3F # params_string (sign_in_params p reason))"
proof -
  have q: "js ''/sign-in?'' = js ''/sign-in'' @ [0x3F]"
    by (simp add: js_def)
  show ?thesis
    by (auto simp: buildSignInUrl_def sign_in_params_def Let_def params_string_nonempty q
        split: option.split)
qed

lemma sanitize_sanitize:
  "sanitizeRedirectPath (Some (sanitizeRedirectPath c fb)) fb = sanitizeRedirectPath c fb"
proof (cases c fb rule: sanitize_cases)
  case fallback
  then show ?thesis
    unfolding fallback by (cases "Some fb" fb rule: sanitize_cases) auto
next
  case (accepted s)
  then show ?thesis by simp
qed

lemma split_url_plain:
  assumes "\<forall>u \<in> set p. u \<notin> {0x3F, 0x23}"
  shows "req_params (split_url p) = []"
proof -
  have "takeWhile (\<lambda>u. u \<notin> {0x3F, 0x23}) p = p"
    by (subst takeWhile_eq_all_conv) (rule assms)
  then show ?thesis
    by (simp add: split_url_def Let_def parse_params_def map_filter_def del: takeWhile_eq_all_conv)
qed

lemma sign_in_params_read:
  assumes "\<forall>(k, v) \<in> set (sign_in_params p reason). well_formed k \<and> well_formed v"
  shows "req_params (split_url (buildSignInUrl p reason)) = sign_in_params p reason"
proof (cases "sign_in_params p reason = []")
  case True
  have "\<forall>u \<in> set (js ''/sign-in''). u \<notin> {0x3F, 0x23}"
    by code_simp
  then have "req_params (split_url (js ''/sign-in'')) = []"
    by (rule split_url_plain)
  moreover have "buildSignInUrl p reason = js ''/sign-in''"
    by (simp only: buildSignInUrl_params True if_True append_Nil2 simp_thms)
  ultimately show ?thesis
    by (simp only: True)
next
  case False
  then have "buildSignInUrl p reason = js ''/sign-in'' @ 0x3F # params_string (sign_in_params p reason)"
    by (simp only: buildSignInUrl_params if_False)
  then have "req_params (split_url (buildSignInUrl p reason)) = parse_params (params_string (sign_in_params p reason))"
    by (simp only: split_url_query params_string_no_hash not_False_eq_True)
  then show ?thesis
    by (simp only: parse_params_string [OF assms])
qed

section \<open>Properties\<close>

text \<open>
  C?: Wherever the proxy redirects a request, the target stays on the site: no \<open>next\<close>
  parameter, however it is spelled, makes the browser leave the origin.
\<close>

theorem proxy_redirect_stays:
  assumes "proxy auth request = Redirect path jar"
  shows "\<not> leaves_origin path"
  using proxy_redirect_cases [OF assms] sign_in_url_stays sanitize_stays [OF leaves_origin_default]
  by auto

theorem proxy_redirect_stays_witness:
  "proxy (\<lambda>_. \<lparr>ans_set_all = [], ans_user = Resolved (Some ())\<rparr>)
     \<lparr>req_pathname = js ''/sign-in'', req_search = js ''?next=//evil.example'',
       req_params = [(js ''next'', js ''//evil.example'')], req_cookies = []\<rparr>
   = Redirect (js ''/dashboard'') [] \<and> \<not> leaves_origin (js ''/dashboard'')"
proof -
  let ?auth = "\<lambda>_. \<lparr>ans_set_all = [], ans_user = Resolved (Some ())\<rparr>"
  have "proxy ?auth
     \<lparr>req_pathname = js ''/sign-in'', req_search = js ''?next=//evil.example'',
       req_params = [(js ''next'', js ''//evil.example'')], req_cookies = []\<rparr>
   = Redirect (js ''/dashboard'') []"
    by code_simp
  then show ?thesis
    using proxy_redirect_stays by blast
qed

text \<open>
  A redirect of the proxy carries every cookie the session refresh put on its response,
  so a rotated token is never lost to a redirect.
\<close>

theorem proxy_redirect_keeps_cookies:
  assumes "proxy auth request = Redirect path jar"
  shows "jar_all jar = jar_all (fst (refreshSession auth request))"
  using proxy_redirect_cases [OF assms] by simp

theorem proxy_redirect_keeps_cookies_witness:
  "\<exists>jar path. proxy (\<lambda>_. \<lparr>ans_set_all = [[\<lparr>ck_name = js ''sb'', ck_value = js ''new'', ck_options = []\<rparr>]],
        ans_user = Resolved (None :: unit option)\<rparr>) (split_url (js ''/matches'')) = Redirect path jar \<and>
     jar_all jar = [\<lparr>ck_name = js ''sb'', ck_value = js ''new'', ck_options = []\<rparr>]"
proof -
  let ?auth = "\<lambda>_. \<lparr>ans_set_all = [[\<lparr>ck_name = js ''sb'', ck_value = js ''new'', ck_options = []\<rparr>]],
        ans_user = Resolved (None :: unit option)\<rparr>"
  have "isProtectedPath (req_pathname (split_url (js ''/matches'')))"
    by code_simp
  moreover have none: "snd (refreshSession ?auth r) = None" for r
    by (simp add: refreshSession_def Let_def split_beta)
  ultimately obtain path jar where p: "proxy ?auth (split_url (js ''/matches'')) = Redirect path jar"
    by (auto simp: proxy_def redirectPreservingCookies_def split_beta Let_def)
  have "jar_all (fst (refreshSession ?auth r)) = [\<lparr>ck_name = js ''sb'', ck_value = js ''new'', ck_options = []\<rparr>]" for r
    by (simp add: refreshSession_def set_all_def jar_set_def jar_all_def Let_def split_beta)
  with proxy_redirect_keeps_cookies [OF p] p show ?thesis
    by auto
qed

text \<open>
  C?: The destination survives the sign-in page: what the page reads back from the URL that
  \<open>buildSignInUrl\<close> made is the sanitised path the visitor was heading to.
\<close>

theorem sign_in_url_roundtrip:
  assumes "well_formed p" and "\<forall>r. reason = Some r \<longrightarrow> well_formed r"
  shows "sanitizeRedirectPath
      (params_get (req_params (split_url (buildSignInUrl p reason))) (js ''next'')) DEFAULT_DESTINATION =
    sanitizeRedirectPath (Some p) DEFAULT_DESTINATION"
proof -
  let ?next = "sanitizeRedirectPath (Some p) DEFAULT_DESTINATION"
  have "?next = p \<or> ?next = DEFAULT_DESTINATION"
    by (auto simp: sanitizeRedirectPath_def)
  then have "well_formed ?next"
    using assms(1) by (auto simp: DEFAULT_DESTINATION_def)
  then have "req_params (split_url (buildSignInUrl p reason)) = sign_in_params p reason"
    using assms(2) by (intro sign_in_params_read) (auto simp: sign_in_params_def Let_def split: option.splits)
  moreover have "params_get (sign_in_params p reason) (js ''next'') =
      (if ?next = DEFAULT_DESTINATION then None else Some ?next)"
    by (auto simp: params_get_def sign_in_params_def Let_def split: option.splits)
  ultimately show ?thesis
    by (simp add: sanitize_sanitize) (simp add: sanitizeRedirectPath_def)
qed

theorem sign_in_url_roundtrip_witness:
  "sanitizeRedirectPath (params_get (req_params (split_url
      (buildSignInUrl (js ''/matches?sort=new&page=2'') (Some (js ''session-expired''))))) (js ''next''))
      DEFAULT_DESTINATION = js ''/matches?sort=new&page=2''"
proof -
  have "sanitizeRedirectPath (Some (js ''/matches?sort=new&page=2'')) DEFAULT_DESTINATION =
      js ''/matches?sort=new&page=2''"
    by code_simp
  then show ?thesis
    using sign_in_url_roundtrip [of "js ''/matches?sort=new&page=2''" "Some (js ''session-expired'')"]
    by simp
qed



text \<open>
  A visitor without a session is redirected at most once, and no page the proxy runs for and
  that needs a session is where she lands.
\<close>

theorem signed_out_redirected_once:
  fixes auth :: "cookie list \<Rightarrow> 'u auth_answer"
  assumes "\<And>cs. \<not> signed_in (auth cs)"
  shows "\<exists>q. follow 2 auth split_url p = Some q \<and>
    \<not> (matched (req_pathname (split_url q)) \<and> isProtectedPath (req_pathname (split_url q)))"
  using split.signed_out_chain [of auth 0 p] assms by (simp add: numeral_2_eq_2)

theorem signed_out_redirected_once_witness:
  "\<exists>q. follow 2 (\<lambda>_. \<lparr>ans_set_all = [], ans_user = Threw :: unit user_result\<rparr>) split_url (js ''/admin'') = Some q \<and>
    \<not> (matched (req_pathname (split_url q)) \<and> isProtectedPath (req_pathname (split_url q)))"
  by (rule signed_out_redirected_once) (simp add: signed_in_def)

text \<open>
  An emailed link leads to its destination only when its code or its token was accepted;
  otherwise the visitor is sent to the sign-in page with the reason, and in no case off the
  site.
\<close>

theorem confirm_destination:
  "confirm_GET exchange verify search =
     (if (\<exists>c. params_get search (js ''code'') = Some c \<and> c \<noteq> [] \<and> exchange c) \<or>
         (params_get search (js ''code'') \<in> {None, Some []} \<and>
          (\<exists>h t. params_get search (js ''token_hash'') = Some h \<and> params_get search (js ''type'') = Some t \<and>
             h \<noteq> [] \<and> t \<noteq> [] \<and> verify t h))
      then sanitizeRedirectPath (params_get search (js ''next'')) DEFAULT_DESTINATION
      else js ''/sign-in?reason=link-invalid'') \<and>
   \<not> leaves_origin (confirm_GET exchange verify search)"
proof -
  have inv: "\<not> leaves_origin (js ''/sign-in?reason=link-invalid'')"
    by code_simp
  have nxt: "\<not> leaves_origin (sanitizeRedirectPath c DEFAULT_DESTINATION)" for c
    by (rule sanitize_stays [OF leaves_origin_default])
  show ?thesis
    using inv nxt by (auto simp: confirm_GET_def Let_def split: option.splits)
qed

end
