(* ===== verification/Api_Types.thy ===== *)
theory Api_Types
  imports Prelude
begin

text \<open>
  The data of the HTTP contract, \<^verbatim>\<open>app/lib/api/schema.ts\<close>: one record per schema object and
  one datatype per enumeration, with the name the schema gives it.  The fields carry a
  short prefix of the record, since HOL selectors are global.  A field that may be null or
  absent is an option (no caller tells the two apart, but for the PATCH body of an
  application); an enumeration comes with the string the wire carries for each value.
\<close>

section \<open>Errors and pages\<close>

record ErrorDetail = 
  ed_code :: "jsstring"
  ed_field :: "jsstring option"
  ed_message :: "jsstring option"

record ErrorEnvelope = 
  env_code :: "jsstring"
  env_message :: "jsstring"
  env_details :: "ErrorDetail list"
  env_request_id :: "jsstring"

record Pagination = 
  pg_next_cursor :: "jsstring option"
  pg_has_more :: "bool"
  pg_limit :: "nat"

record 'a page =
  page_data :: "'a list"
  page_pagination :: Pagination

section \<open>Student profile\<close>

datatype ScholarshipStudyLevel = LevelUndergraduate | LevelPostgraduate | LevelDoctoral | LevelOther

fun study_level_name :: "ScholarshipStudyLevel \<Rightarrow> jsstring" where
  "study_level_name LevelUndergraduate = js ''undergraduate''"
| "study_level_name LevelPostgraduate = js ''postgraduate''"
| "study_level_name LevelDoctoral = js ''doctoral''"
| "study_level_name LevelOther = js ''other''"

record ProfileWrite = 
  pw_full_name :: "jsstring"
  pw_country :: "jsstring"
  pw_study_level :: "ScholarshipStudyLevel"
  pw_field_of_study :: "jsstring option"
  pw_gpa :: "number option"
  pw_interests :: "jsstring list"
  pw_goals :: "jsstring option"

record ProfileResponse = 
  pr_id :: "jsstring"
  pr_full_name :: "jsstring"
  pr_country :: "jsstring"
  pr_study_level :: "ScholarshipStudyLevel"
  pr_field_of_study :: "jsstring option"
  pr_gpa :: "number option"
  pr_interests :: "jsstring list"
  pr_goals :: "jsstring option"
  pr_created_at :: "jsstring"
  pr_updated_at :: "jsstring"

section \<open>Documents\<close>

datatype DocumentType = DocTranscript | DocCv | DocRecommendationLetter | DocPersonalStatement | DocIdentityDocument | DocFinancialDocument | DocOther

fun document_type_name :: "DocumentType \<Rightarrow> jsstring" where
  "document_type_name DocTranscript = js ''transcript''"
| "document_type_name DocCv = js ''cv''"
| "document_type_name DocRecommendationLetter = js ''recommendation_letter''"
| "document_type_name DocPersonalStatement = js ''personal_statement''"
| "document_type_name DocIdentityDocument = js ''identity_document''"
| "document_type_name DocFinancialDocument = js ''financial_document''"
| "document_type_name DocOther = js ''other''"

datatype DocumentStatus = DocumentPending | DocumentScanning | DocumentProcessing | DocumentReady | DocumentRejected | DocumentFailed

fun document_status_name :: "DocumentStatus \<Rightarrow> jsstring" where
  "document_status_name DocumentPending = js ''pending''"
| "document_status_name DocumentScanning = js ''scanning''"
| "document_status_name DocumentProcessing = js ''processing''"
| "document_status_name DocumentReady = js ''ready''"
| "document_status_name DocumentRejected = js ''rejected''"
| "document_status_name DocumentFailed = js ''failed''"

datatype DocumentScanStatus = ScanPending | ScanClean | ScanInfected | ScanFailed

fun scan_status_name :: "DocumentScanStatus \<Rightarrow> jsstring" where
  "scan_status_name ScanPending = js ''pending''"
| "scan_status_name ScanClean = js ''clean''"
| "scan_status_name ScanInfected = js ''infected''"
| "scan_status_name ScanFailed = js ''failed''"

record DocumentResponse = 
  doc_id :: "jsstring"
  doc_document_type :: "DocumentType"
  doc_display_name :: "jsstring"
  doc_original_filename :: "jsstring"
  doc_mime_type :: "jsstring"
  doc_size_bytes :: "nat"
  doc_status :: "DocumentStatus"
  doc_scan_status :: "DocumentScanStatus"
  doc_replaced_at :: "jsstring option"
  doc_created_at :: "jsstring"
  doc_updated_at :: "jsstring"

type_synonym DocumentPage = "DocumentResponse page"

record DocumentUploadPolicy = 
  policy_max_size_bytes :: "nat"
  policy_allowed_mime_types :: "jsstring list"
  policy_allowed_document_types :: "DocumentType list"
  policy_accepted_extensions :: "jsstring list"

record SignedDocumentUrlResponse = 
  signed_url :: "jsstring"
  signed_expires_at :: "jsstring"

record DocumentReadinessItem = 
  readiness_required_document :: "jsstring"
  readiness_ready :: "bool"
  readiness_matched_document_ids :: "jsstring list"
  readiness_shared_externally :: "bool"

record ApplicationDocumentReadiness = 
  appready_application_id :: "jsstring"
  appready_scholarship_title :: "jsstring"
  appready_items :: "DocumentReadinessItem list"

record DocumentReadinessResponse = 
  drr_applications :: "ApplicationDocumentReadiness list"
  drr_updated_at :: "jsstring"

section \<open>Scholarships\<close>

datatype FundingType = FundingFull | FundingPartial | FundingTuition | FundingStipend | FundingResearch | FundingOther

fun funding_type_name :: "FundingType \<Rightarrow> jsstring" where
  "funding_type_name FundingFull = js ''full''"
| "funding_type_name FundingPartial = js ''partial''"
| "funding_type_name FundingTuition = js ''tuition''"
| "funding_type_name FundingStipend = js ''stipend''"
| "funding_type_name FundingResearch = js ''research''"
| "funding_type_name FundingOther = js ''other''"

datatype EligibilityStatus = Eligible | PotentiallyEligible | Ineligible | EligibilityUnknown

fun eligibility_name :: "EligibilityStatus \<Rightarrow> jsstring" where
  "eligibility_name Eligible = js ''eligible''"
| "eligibility_name PotentiallyEligible = js ''potentially_eligible''"
| "eligibility_name Ineligible = js ''ineligible''"
| "eligibility_name EligibilityUnknown = js ''unknown''"

record EligibilityAssessment = 
  elig_status :: "EligibilityStatus"
  elig_summary :: "jsstring"
  elig_reasons :: "jsstring list"
  elig_missing_facts :: "jsstring list"

record ScholarshipProvenance = 
  prov_source_name :: "jsstring"
  prov_source_url :: "jsstring"
  prov_ingested_at :: "jsstring"
  prov_last_checked_at :: "jsstring"

datatype ScholarshipStatus = Published | Closed

record ScholarshipResponse = 
  sch_id :: "jsstring"
  sch_title :: "jsstring"
  sch_provider :: "jsstring"
  sch_description :: "jsstring option"
  sch_amount :: "number option"
  sch_currency :: "jsstring option"
  sch_funding_type :: "FundingType"
  sch_funding_summary :: "jsstring option"
  sch_study_levels :: "ScholarshipStudyLevel list"
  sch_fields_of_study :: "jsstring list"
  sch_destination_countries :: "jsstring list"
  sch_nationality_requirements :: "jsstring list"
  sch_residency_requirements :: "jsstring list"
  sch_deadline :: "jsstring option"
  sch_eligibility_summary :: "jsstring option"
  sch_eligibility :: "EligibilityAssessment"
  sch_requirements :: "jsstring list"
  sch_required_documents :: "jsstring list"
  sch_source_url :: "jsstring"
  sch_application_url :: "jsstring option"
  sch_provenance :: "ScholarshipProvenance"
  sch_verified_at :: "jsstring option"
  sch_saved :: "bool"
  sch_status :: "ScholarshipStatus"
  sch_created_at :: "jsstring"
  sch_updated_at :: "jsstring"

type_synonym ScholarshipPage = "ScholarshipResponse page"

datatype ReportReason = ReportExpired | ReportIncorrectDeadline | ReportIncorrectEligibility | ReportBrokenSource | ReportOther

fun report_reason_name :: "ReportReason \<Rightarrow> jsstring" where
  "report_reason_name ReportExpired = js ''expired''"
| "report_reason_name ReportIncorrectDeadline = js ''incorrect_deadline''"
| "report_reason_name ReportIncorrectEligibility = js ''incorrect_eligibility''"
| "report_reason_name ReportBrokenSource = js ''broken_source''"
| "report_reason_name ReportOther = js ''other''"

record ScholarshipReportCreate = 
  report_reason :: "ReportReason"
  report_details :: "jsstring option"

section \<open>Matches\<close>

datatype ScoreDimension = ScoreAcademics | ScoreEligibilityFit | ScoreInterestsGoals | ScoreExperience | ScoreReadinessTiming

fun score_dimension_name :: "ScoreDimension \<Rightarrow> jsstring" where
  "score_dimension_name ScoreAcademics = js ''academics''"
| "score_dimension_name ScoreEligibilityFit = js ''eligibility_fit''"
| "score_dimension_name ScoreInterestsGoals = js ''interests_goals''"
| "score_dimension_name ScoreExperience = js ''experience''"
| "score_dimension_name ScoreReadinessTiming = js ''readiness_timing''"

record ScoreComponent = 
  sc_name :: "ScoreDimension"
  sc_score :: "number"
  sc_weight :: "number"

record MissingProfileFact = 
  mpf_field :: "jsstring"
  mpf_question :: "jsstring"

record MatchExplanation = 
  expl_why_this_matches :: "jsstring list"
  expl_what_may_block_you :: "jsstring list"
  expl_missing_information :: "MissingProfileFact list"
  expl_next_actions :: "jsstring list"

datatype EvidenceBasis = VerifiedRequirement | InferredRelevance | ProfileUnknown | RequirementNotMet

record RequirementEvidence = 
  ev_label :: "jsstring"
  ev_detail :: "jsstring"
  ev_basis :: "EvidenceBasis"
  ev_source_url :: "jsstring option"

datatype ExplanationStatus = ExplanationPending | ExplanationReady | ExplanationUnavailable

datatype CalculationStatus = CalcCurrent | CalcStale

record MatchResponse = 
  match_id :: "jsstring"
  match_rank :: "nat"
  match_scholarship :: "ScholarshipResponse"
  match_score :: "number"
  match_confidence :: "number"
  match_score_components :: "ScoreComponent list"
  match_requirement_evidence :: "RequirementEvidence list"
  match_deterministic_explanation :: "MatchExplanation"
  match_ai_explanation :: "MatchExplanation option"
  match_reasons :: "jsstring list option"
  match_gaps :: "jsstring list option"
  match_explanation_status :: "ExplanationStatus"
  match_algorithm_version :: "jsstring"
  match_calculation_status :: "CalculationStatus"
  match_stale_reasons :: "jsstring list"
  match_calculated_at :: "jsstring"

type_synonym MatchPage = "MatchResponse page"

datatype JobStatus = JobQueued | JobRunning | JobCompleted | JobFailed

record JobResponse = 
  job_id :: "jsstring"
  job_status :: "JobStatus"
  job_created_at :: "jsstring"
  job_updated_at :: "jsstring"
  job_completed_at :: "jsstring option"
  job_matches_updated_at :: "jsstring option"
  job_error_code :: "jsstring option"

datatype FeedbackReason = FeedbackAccurate | FeedbackUnclear | FeedbackMissingContext | FeedbackIncorrect | FeedbackNotRelevant | FeedbackOther

fun feedback_reason_name :: "FeedbackReason \<Rightarrow> jsstring" where
  "feedback_reason_name FeedbackAccurate = js ''accurate''"
| "feedback_reason_name FeedbackUnclear = js ''unclear''"
| "feedback_reason_name FeedbackMissingContext = js ''missing_context''"
| "feedback_reason_name FeedbackIncorrect = js ''incorrect''"
| "feedback_reason_name FeedbackNotRelevant = js ''not_relevant''"
| "feedback_reason_name FeedbackOther = js ''other''"

record MatchFeedbackCreate = 
  fb_useful :: "bool"
  fb_reason :: "FeedbackReason"
  fb_details :: "jsstring option"

section \<open>Applications\<close>

datatype ApplicationStatus = AppSaved | AppPreparing | AppReady | AppSubmitted | AppInterview | AppAwarded | AppUnsuccessful | AppWithdrawn

fun application_status_name :: "ApplicationStatus \<Rightarrow> jsstring" where
  "application_status_name AppSaved = js ''saved''"
| "application_status_name AppPreparing = js ''preparing''"
| "application_status_name AppReady = js ''ready''"
| "application_status_name AppSubmitted = js ''submitted''"
| "application_status_name AppInterview = js ''interview''"
| "application_status_name AppAwarded = js ''awarded''"
| "application_status_name AppUnsuccessful = js ''unsuccessful''"
| "application_status_name AppWithdrawn = js ''withdrawn''"

record ApplicationCreate = 
  acreate_scholarship_id :: "jsstring"
  acreate_status :: "ApplicationStatus option"
  acreate_notes :: "jsstring option"

text \<open>A PATCH body distinguishes an absent field from one set to null.\<close>

record ApplicationUpdate = 
  aupd_status :: "ApplicationStatus option"
  aupd_notes :: "jsstring option option"

record ChecklistItemUpdate = 
  ciu_completed :: "bool"

record ApplicationChecklistItem = 
  check_id :: "jsstring"
  check_label :: "jsstring"
  check_required :: "bool"
  check_completed :: "bool"
  check_updated_at :: "jsstring"

record ApplicationReminderWrite = 
  rem_remind_at :: "jsstring"
  rem_timezone :: "jsstring"

record ApplicationReminder = ApplicationReminderWrite +
  rem_created_at :: "jsstring"
  rem_updated_at :: "jsstring"

record ApplicationStatusHistoryItem = 
  hist_id :: "jsstring"
  hist_from_status :: "ApplicationStatus option"
  hist_to_status :: "ApplicationStatus"
  hist_changed_at :: "jsstring"

record ApplicationResponse = 
  app_id :: "jsstring"
  app_scholarship_id :: "jsstring"
  app_scholarship :: "ScholarshipResponse"
  app_status :: "ApplicationStatus"
  app_allowed_transitions :: "ApplicationStatus list"
  app_checklist :: "ApplicationChecklistItem list"
  app_document_readiness :: "DocumentReadinessItem list"
  app_status_history :: "ApplicationStatusHistoryItem list"
  app_reminder :: "ApplicationReminder option"
  app_notes :: "jsstring option"
  app_deadline_at :: "jsstring option"
  app_deadline_timezone :: "jsstring option"
  app_submitted_at :: "jsstring option"
  app_created_at :: "jsstring"
  app_updated_at :: "jsstring"

type_synonym ApplicationPage = "ApplicationResponse page"

record ApplicationDeadline = 
  dl_application_id :: "jsstring"
  dl_scholarship_id :: "jsstring"
  dl_title :: "jsstring"
  dl_provider :: "jsstring"
  dl_status :: "ApplicationStatus"
  dl_deadline_date :: "jsstring option"
  dl_deadline_at :: "jsstring option"
  dl_source_timezone :: "jsstring option"
  dl_source_url :: "jsstring"

type_synonym ApplicationDeadlinePage = "ApplicationDeadline page"

section \<open>Administration\<close>

datatype AdminScholarshipStatus = AdminDraft | AdminInReview | AdminPublished | AdminUnpublished | AdminExpired | AdminArchived

fun admin_status_name :: "AdminScholarshipStatus \<Rightarrow> jsstring" where
  "admin_status_name AdminDraft = js ''draft''"
| "admin_status_name AdminInReview = js ''in_review''"
| "admin_status_name AdminPublished = js ''published''"
| "admin_status_name AdminUnpublished = js ''unpublished''"
| "admin_status_name AdminExpired = js ''expired''"
| "admin_status_name AdminArchived = js ''archived''"

datatype LifecycleAction = ActSubmitForReview | ActPublish | ActUnpublish | ActExpire | ActArchive

fun lifecycle_action_name :: "LifecycleAction \<Rightarrow> jsstring" where
  "lifecycle_action_name ActSubmitForReview = js ''submit_for_review''"
| "lifecycle_action_name ActPublish = js ''publish''"
| "lifecycle_action_name ActUnpublish = js ''unpublish''"
| "lifecycle_action_name ActExpire = js ''expire''"
| "lifecycle_action_name ActArchive = js ''archive''"

record AdminScholarshipWrite = 
  asw_title :: "jsstring"
  asw_provider :: "jsstring"
  asw_description :: "jsstring option"
  asw_funding_type :: "FundingType"
  asw_funding_summary :: "jsstring option"
  asw_deadline :: "jsstring option"
  asw_source_url :: "jsstring"
  asw_reviewer_notes :: "jsstring option"

record AdminSourceHistoryItem = 
  ash_id :: "jsstring"
  ash_source :: "jsstring"
  ash_source_url :: "jsstring"
  ash_first_seen_at :: "jsstring"
  ash_last_seen_at :: "jsstring"
  ash_active :: "bool"

datatype RequirementConstraint = Hard | Soft

datatype RequirementField = ReqFieldStudyLevel | ReqFieldFieldOfStudy | ReqFieldDestination | ReqFieldNationality | ReqFieldResidency | ReqFieldGpa | ReqFieldExperience | ReqFieldDocument | ReqFieldOther

fun requirement_field_name :: "RequirementField \<Rightarrow> jsstring" where
  "requirement_field_name ReqFieldStudyLevel = js ''study_level''"
| "requirement_field_name ReqFieldFieldOfStudy = js ''field_of_study''"
| "requirement_field_name ReqFieldDestination = js ''destination''"
| "requirement_field_name ReqFieldNationality = js ''nationality''"
| "requirement_field_name ReqFieldResidency = js ''residency''"
| "requirement_field_name ReqFieldGpa = js ''gpa''"
| "requirement_field_name ReqFieldExperience = js ''experience''"
| "requirement_field_name ReqFieldDocument = js ''document''"
| "requirement_field_name ReqFieldOther = js ''other''"

datatype RequirementOperator = OpEquals | OpNotEquals | OpIn | OpNotIn | OpGte | OpLte | OpContains | OpExists

fun requirement_operator_name :: "RequirementOperator \<Rightarrow> jsstring" where
  "requirement_operator_name OpEquals = js ''equals''"
| "requirement_operator_name OpNotEquals = js ''not_equals''"
| "requirement_operator_name OpIn = js ''in''"
| "requirement_operator_name OpNotIn = js ''not_in''"
| "requirement_operator_name OpGte = js ''gte''"
| "requirement_operator_name OpLte = js ''lte''"
| "requirement_operator_name OpContains = js ''contains''"
| "requirement_operator_name OpExists = js ''exists''"

datatype RequirementValue = ValueText jsstring | ValueNumber number | ValueBool bool | ValueList "jsstring list"

record SourceEvidence = 
  se_label :: "jsstring"
  se_source_url :: "jsstring"
  se_summary :: "jsstring"

record AdminRequirementWrite = 
  req_constraint :: "RequirementConstraint"
  req_field :: "RequirementField"
  req_operator :: "RequirementOperator"
  req_value :: "RequirementValue"
  req_source_evidence :: "SourceEvidence"
  req_reviewer_notes :: "jsstring option"

record AdminRequirement = AdminRequirementWrite +
  req_id :: "jsstring"

type_synonym AdminRequirementSetWrite = "AdminRequirementWrite list"

record AdminScholarshipResponse = AdminScholarshipWrite +
  asr_id :: "jsstring"
  asr_status :: "AdminScholarshipStatus"
  asr_allowed_transitions :: "LifecycleAction list"
  asr_requirements :: "AdminRequirement list"
  asr_source_history :: "AdminSourceHistoryItem list"
  asr_created_at :: "jsstring"
  asr_updated_at :: "jsstring"
  asr_published_at :: "jsstring option"
  asr_verified_at :: "jsstring option"

type_synonym AdminScholarshipPage = "AdminScholarshipResponse page"

datatype BulkAction = BulkPublish | BulkUnpublish | BulkExpire | BulkArchive

record AdminBulkActionPreviewRequest = 
  bpr_scholarship_ids :: "jsstring list"
  bpr_action :: "BulkAction"

record BulkBlocked = 
  blocked_scholarship_id :: "jsstring"
  blocked_title :: "jsstring"
  blocked_reason :: "jsstring"

record AdminBulkActionPreviewResponse = 
  preview_preview_token :: "jsstring"
  preview_expires_at :: "jsstring"
  preview_action :: "BulkAction"
  preview_affected :: "AdminScholarshipResponse list"
  preview_blocked :: "BulkBlocked list"

record AdminBulkActionResponse = 
  bulk_operation_id :: "jsstring"
  bulk_accepted_count :: "nat"
  bulk_recoverable_until :: "jsstring option"
  bulk_created_at :: "jsstring"

record AdminDuplicateCandidate = 
  cand_scholarship_id :: "jsstring"
  cand_title :: "jsstring"
  cand_provider :: "jsstring"
  cand_status :: "AdminScholarshipStatus"
  cand_source_history :: "AdminSourceHistoryItem list"

record AdminDuplicateGroup = 
  group_id :: "jsstring"
  group_reason :: "jsstring"
  group_candidates :: "AdminDuplicateCandidate list"
  group_created_at :: "jsstring"

record AdminDuplicateMergeRequest = 
  merge_canonical_scholarship_id :: "jsstring"
  merge_duplicate_scholarship_ids :: "jsstring list"
  merge_reviewer_notes :: "jsstring"

datatype Freshness = FreshCurrent | FreshDue | FreshStale | FreshChanged

record AdminSourceFieldChange = 
  change_field :: "jsstring"
  change_before_summary :: "jsstring option"
  change_after_summary :: "jsstring option"
  change_source_url :: "jsstring"

record AdminVerificationItem = 
  verif_scholarship_id :: "jsstring"
  verif_title :: "jsstring"
  verif_provider :: "jsstring"
  verif_freshness :: "Freshness"
  verif_last_verified_at :: "jsstring option"
  verif_changed_fields :: "AdminSourceFieldChange list"
  verif_source_url :: "jsstring"

record AdminVerificationWrite = 
  vw_reviewer_notes :: "jsstring"
  vw_accept_source_changes :: "bool"

record IngestionRunCreate = 
  irc_source :: "jsstring"
  irc_source_url :: "jsstring option"
  irc_dry_run :: "bool"

datatype IngestionStatus = RunQueued | RunRunning | RunCompleted | RunFailed | RunCancelled

record IngestionCounters = 
  cnt_fetched :: "nat"
  cnt_created :: "nat"
  cnt_updated :: "nat"
  cnt_duplicates :: "nat"
  cnt_rejected :: "nat"

record SafeError = 
  safe_code :: "jsstring"
  safe_summary :: "jsstring"
  safe_count :: "nat"

record IngestionRunResponse = 
  run_id :: "jsstring"
  run_source :: "jsstring"
  run_source_url :: "jsstring option"
  run_status :: "IngestionStatus"
  run_counters :: "IngestionCounters"
  run_safe_errors :: "SafeError list"
  run_original_run_id :: "jsstring option"
  run_created_at :: "jsstring"
  run_updated_at :: "jsstring"
  run_completed_at :: "jsstring option"

end
