(* ===== verification/Onboarding_Model.thy ===== *)
theory Onboarding_Model
  imports Api_Types
begin

text \<open>
  The onboarding questionnaire as data: \<^verbatim>\<open>app/lib/onboarding/types.ts\<close>, \<^verbatim>\<open>countries.ts\<close>,
  \<^verbatim>\<open>validation.ts\<close>, \<^verbatim>\<open>steps.ts\<close> and \<^verbatim>\<open>serialize.ts\<close>.  A draft is a record of optional answers; a
  sensitive answer is a \<open>Disclosure\<close>.  The field that asks for one starts a shared answer with
  \<open>provided(undefined)\<close>, so a provided value may be missing; where the code then calls a method
  of the value it throws, and the definition returns \<open>None\<close>.
\<close>

section \<open>The draft\<close>

datatype 'a Disclosure = Provided "'a option" | Unknown_Yet | Prefer_Not_To_Say

definition isProvided :: "'a Disclosure option \<Rightarrow> bool" where
  "isProvided disclosure = (case disclosure of Some (Provided _) \<Rightarrow> True | _ \<Rightarrow> False)"

datatype ExperienceStatus = Has_Experience | No_Experience | Experience_Unknown | Experience_Private

datatype ContactPreference = Contact_Email | Contact_None | Contact_Private

record OnboardingDraft =
  consentAccepted :: "bool option"
  consentAcceptedAt :: "jsstring option"
  fullName :: "jsstring option"
  preferredName :: "jsstring option"
  pronouns :: "jsstring Disclosure option"
  countryOfResidence :: "jsstring option"
  nationality :: "jsstring Disclosure option"
  studyLevel :: "ScholarshipStudyLevel option"
  fieldOfStudy :: "jsstring option"
  fieldOfStudyUndecided :: "bool option"
  gpa :: "number Disclosure option"
  gradingScaleNote :: "jsstring option"
  goals :: "jsstring option"
  interests :: "jsstring list option"
  experienceStatus :: "ExperienceStatus option"
  experienceSummary :: "jsstring option"
  accommodations :: "jsstring Disclosure option"
  contactPreference :: "ContactPreference option"

definition empty_draft :: OnboardingDraft where
  "empty_draft =
     \<lparr>consentAccepted = None, consentAcceptedAt = None, fullName = None, preferredName = None,
      pronouns = None, countryOfResidence = None, nationality = None, studyLevel = None,
      fieldOfStudy = None, fieldOfStudyUndecided = None, gpa = None, gradingScaleNote = None,
      goals = None, interests = None, experienceStatus = None, experienceSummary = None,
      accommodations = None, contactPreference = None\<rparr>"

text \<open>
  The field for a sensitive answer (\<^verbatim>\<open>app/components/forms/disclosure-field.tsx\<close>): picking one
  of the three choices, and typing a value once sharing is picked.
\<close>

datatype DisclosureStatus = Status_Provided | Status_Unknown | Status_Prefer_Not

definition choose_disclosure :: "DisclosureStatus \<Rightarrow> 'a Disclosure option \<Rightarrow> 'a Disclosure" where
  "choose_disclosure nextStatus current =
     (case nextStatus of
        Status_Provided \<Rightarrow> (case current of Some (Provided v) \<Rightarrow> Provided v | _ \<Rightarrow> Provided None)
      | Status_Unknown \<Rightarrow> Unknown_Yet
      | Status_Prefer_Not \<Rightarrow> Prefer_Not_To_Say)"

definition set_disclosed :: "'a \<Rightarrow> 'a Disclosure" where
  "set_disclosed v = Provided (Some v)"

section \<open>Countries\<close>

record Country =
  country_code :: string
  country_name :: jsstring

text \<open>Each entry of the list: the ISO code and the name.\<close>

definition COUNTRIES :: "Country list" where
  "COUNTRIES = map (\<lambda>(c, n). \<lparr>country_code = c, country_name = n\<rparr>)
    [(''AF'', js ''Afghanistan''),
     (''AL'', js ''Albania''),
     (''DZ'', js ''Algeria''),
     (''AD'', js ''Andorra''),
     (''AO'', js ''Angola''),
     (''AG'', js ''Antigua and Barbuda''),
     (''AR'', js ''Argentina''),
     (''AM'', js ''Armenia''),
     (''AU'', js ''Australia''),
     (''AT'', js ''Austria''),
     (''AZ'', js ''Azerbaijan''),
     (''BS'', js ''Bahamas''),
     (''BH'', js ''Bahrain''),
     (''BD'', js ''Bangladesh''),
     (''BB'', js ''Barbados''),
     (''BY'', js ''Belarus''),
     (''BE'', js ''Belgium''),
     (''BZ'', js ''Belize''),
     (''BJ'', js ''Benin''),
     (''BT'', js ''Bhutan''),
     (''BO'', js ''Bolivia''),
     (''BA'', js ''Bosnia and Herzegovina''),
     (''BW'', js ''Botswana''),
     (''BR'', js ''Brazil''),
     (''BN'', js ''Brunei Darussalam''),
     (''BG'', js ''Bulgaria''),
     (''BF'', js ''Burkina Faso''),
     (''BI'', js ''Burundi''),
     (''CV'', js ''Cabo Verde''),
     (''KH'', js ''Cambodia''),
     (''CM'', js ''Cameroon''),
     (''CA'', js ''Canada''),
     (''CF'', js ''Central African Republic''),
     (''TD'', js ''Chad''),
     (''CL'', js ''Chile''),
     (''CN'', js ''China''),
     (''CO'', js ''Colombia''),
     (''KM'', js ''Comoros''),
     (''CG'', js ''Congo''),
     (''CD'', js ''Congo (Democratic Republic)''),
     (''CR'', js ''Costa Rica''),
     (''CI'', js ''C'' @ [0x00F4] @ js ''te d'Ivoire''),
     (''HR'', js ''Croatia''),
     (''CU'', js ''Cuba''),
     (''CY'', js ''Cyprus''),
     (''CZ'', js ''Czechia''),
     (''DK'', js ''Denmark''),
     (''DJ'', js ''Djibouti''),
     (''DM'', js ''Dominica''),
     (''DO'', js ''Dominican Republic''),
     (''EC'', js ''Ecuador''),
     (''EG'', js ''Egypt''),
     (''SV'', js ''El Salvador''),
     (''GQ'', js ''Equatorial Guinea''),
     (''ER'', js ''Eritrea''),
     (''EE'', js ''Estonia''),
     (''SZ'', js ''Eswatini''),
     (''ET'', js ''Ethiopia''),
     (''FJ'', js ''Fiji''),
     (''FI'', js ''Finland''),
     (''FR'', js ''France''),
     (''GA'', js ''Gabon''),
     (''GM'', js ''Gambia''),
     (''GE'', js ''Georgia''),
     (''DE'', js ''Germany''),
     (''GH'', js ''Ghana''),
     (''GR'', js ''Greece''),
     (''GD'', js ''Grenada''),
     (''GT'', js ''Guatemala''),
     (''GN'', js ''Guinea''),
     (''GW'', js ''Guinea-Bissau''),
     (''GY'', js ''Guyana''),
     (''HT'', js ''Haiti''),
     (''HN'', js ''Honduras''),
     (''HU'', js ''Hungary''),
     (''IS'', js ''Iceland''),
     (''IN'', js ''India''),
     (''ID'', js ''Indonesia''),
     (''IR'', js ''Iran''),
     (''IQ'', js ''Iraq''),
     (''IE'', js ''Ireland''),
     (''IL'', js ''Israel''),
     (''IT'', js ''Italy''),
     (''JM'', js ''Jamaica''),
     (''JP'', js ''Japan''),
     (''JO'', js ''Jordan''),
     (''KZ'', js ''Kazakhstan''),
     (''KE'', js ''Kenya''),
     (''KI'', js ''Kiribati''),
     (''KW'', js ''Kuwait''),
     (''KG'', js ''Kyrgyzstan''),
     (''LA'', js ''Laos''),
     (''LV'', js ''Latvia''),
     (''LB'', js ''Lebanon''),
     (''LS'', js ''Lesotho''),
     (''LR'', js ''Liberia''),
     (''LY'', js ''Libya''),
     (''LI'', js ''Liechtenstein''),
     (''LT'', js ''Lithuania''),
     (''LU'', js ''Luxembourg''),
     (''MG'', js ''Madagascar''),
     (''MW'', js ''Malawi''),
     (''MY'', js ''Malaysia''),
     (''MV'', js ''Maldives''),
     (''ML'', js ''Mali''),
     (''MT'', js ''Malta''),
     (''MH'', js ''Marshall Islands''),
     (''MR'', js ''Mauritania''),
     (''MU'', js ''Mauritius''),
     (''MX'', js ''Mexico''),
     (''FM'', js ''Micronesia''),
     (''MD'', js ''Moldova''),
     (''MC'', js ''Monaco''),
     (''MN'', js ''Mongolia''),
     (''ME'', js ''Montenegro''),
     (''MA'', js ''Morocco''),
     (''MZ'', js ''Mozambique''),
     (''MM'', js ''Myanmar''),
     (''NA'', js ''Namibia''),
     (''NR'', js ''Nauru''),
     (''NP'', js ''Nepal''),
     (''NL'', js ''Netherlands''),
     (''NZ'', js ''New Zealand''),
     (''NI'', js ''Nicaragua''),
     (''NE'', js ''Niger''),
     (''NG'', js ''Nigeria''),
     (''KP'', js ''North Korea''),
     (''MK'', js ''North Macedonia''),
     (''NO'', js ''Norway''),
     (''OM'', js ''Oman''),
     (''PK'', js ''Pakistan''),
     (''PW'', js ''Palau''),
     (''PS'', js ''Palestine''),
     (''PA'', js ''Panama''),
     (''PG'', js ''Papua New Guinea''),
     (''PY'', js ''Paraguay''),
     (''PE'', js ''Peru''),
     (''PH'', js ''Philippines''),
     (''PL'', js ''Poland''),
     (''PT'', js ''Portugal''),
     (''QA'', js ''Qatar''),
     (''RO'', js ''Romania''),
     (''RU'', js ''Russia''),
     (''RW'', js ''Rwanda''),
     (''KN'', js ''Saint Kitts and Nevis''),
     (''LC'', js ''Saint Lucia''),
     (''VC'', js ''Saint Vincent and the Grenadines''),
     (''WS'', js ''Samoa''),
     (''SM'', js ''San Marino''),
     (''ST'', js ''Sao Tome and Principe''),
     (''SA'', js ''Saudi Arabia''),
     (''SN'', js ''Senegal''),
     (''RS'', js ''Serbia''),
     (''SC'', js ''Seychelles''),
     (''SL'', js ''Sierra Leone''),
     (''SG'', js ''Singapore''),
     (''SK'', js ''Slovakia''),
     (''SI'', js ''Slovenia''),
     (''SB'', js ''Solomon Islands''),
     (''SO'', js ''Somalia''),
     (''ZA'', js ''South Africa''),
     (''KR'', js ''South Korea''),
     (''SS'', js ''South Sudan''),
     (''ES'', js ''Spain''),
     (''LK'', js ''Sri Lanka''),
     (''SD'', js ''Sudan''),
     (''SR'', js ''Suriname''),
     (''SE'', js ''Sweden''),
     (''CH'', js ''Switzerland''),
     (''SY'', js ''Syria''),
     (''TW'', js ''Taiwan''),
     (''TJ'', js ''Tajikistan''),
     (''TZ'', js ''Tanzania''),
     (''TH'', js ''Thailand''),
     (''TL'', js ''Timor-Leste''),
     (''TG'', js ''Togo''),
     (''TO'', js ''Tonga''),
     (''TT'', js ''Trinidad and Tobago''),
     (''TN'', js ''Tunisia''),
     (''TR'', js ''T'' @ [0x00FC] @ js ''rkiye''),
     (''TM'', js ''Turkmenistan''),
     (''TV'', js ''Tuvalu''),
     (''UG'', js ''Uganda''),
     (''UA'', js ''Ukraine''),
     (''AE'', js ''United Arab Emirates''),
     (''GB'', js ''United Kingdom''),
     (''US'', js ''United States''),
     (''UY'', js ''Uruguay''),
     (''UZ'', js ''Uzbekistan''),
     (''VU'', js ''Vanuatu''),
     (''VE'', js ''Venezuela''),
     (''VN'', js ''Vietnam''),
     (''YE'', js ''Yemen''),
     (''ZM'', js ''Zambia''),
     (''ZW'', js ''Zimbabwe'')]"

definition CODES :: "jsstring list" where
  "CODES = map (\<lambda>c. js (country_code c)) COUNTRIES"

definition isValidCountryCode :: "jsstring \<Rightarrow> bool" where
  "isValidCountryCode code \<longleftrightarrow> to_upper code \<in> set CODES"

definition countryName :: "jsstring \<Rightarrow> jsstring option" where
  "countryName code =
     map_option country_name (find (\<lambda>c. js (country_code c) = to_upper code) COUNTRIES)"

section \<open>Validation\<close>

text \<open>Field names with their messages, in the order the validator sets them.\<close>

type_synonym FieldErrors = "(jsstring, jsstring) dict"

definition text_length :: "jsstring option \<Rightarrow> nat" where
  "text_length v = (case v of Some s \<Rightarrow> length s | None \<Rightarrow> 0)"

definition validate_consent :: "OnboardingDraft \<Rightarrow> FieldErrors" where
  "validate_consent draft =
     (if consentAccepted draft \<noteq> Some True
      then [(js ''consentAccepted'',
             js ''Please confirm you understand how your information is used to continue.'')]
      else [])"

definition validate_identity :: "OnboardingDraft \<Rightarrow> FieldErrors option" where
  "validate_identity draft =
     (let name = (case fullName draft of Some n \<Rightarrow> trim n | None \<Rightarrow> []);
          errors =
            (if name = []
             then [(js ''fullName'', js ''Enter your full name so providers can identify your application.'')]
             else if 200 < length name
             then [(js ''fullName'', js ''Name must be 200 characters or fewer.'')] else []) @
            (if 200 < text_length (preferredName draft)
             then [(js ''preferredName'', js ''Preferred name must be 200 characters or fewer.'')] else [])
      in case pronouns draft of
           Some (Provided v) \<Rightarrow>
             map_option (\<lambda>v. errors @
               (let value = trim v
                in if value = []
                   then [(js ''pronouns'', js ''Enter your pronouns, or choose to skip this question.'')]
                   else if 100 < length value
                   then [(js ''pronouns'', js ''Pronouns must be 100 characters or fewer.'')] else [])) v
         | _ \<Rightarrow> Some errors)"

definition validate_location :: "OnboardingDraft \<Rightarrow> FieldErrors option" where
  "validate_location draft =
     (let country = (case countryOfResidence draft of Some c \<Rightarrow> c | None \<Rightarrow> []);
          errors =
            (if country = [] then [(js ''countryOfResidence'', js ''Select your country of residence.'')]
             else if \<not> isValidCountryCode country
             then [(js ''countryOfResidence'', js ''Choose a country from the list.'')] else [])
      in case nationality draft of
           Some (Provided v) \<Rightarrow>
             map_option (\<lambda>v. errors @
               (if \<not> isValidCountryCode v
                then [(js ''nationality'', js ''Choose a nationality from the list.'')] else [])) v
         | _ \<Rightarrow> Some errors)"

definition validate_education :: "OnboardingDraft \<Rightarrow> FieldErrors" where
  "validate_education draft =
     (if studyLevel draft = None
      then [(js ''studyLevel'', js ''Select the level you are studying at or applying for.'')] else [])"

definition validate_field :: "OnboardingDraft \<Rightarrow> FieldErrors" where
  "validate_field draft =
     (if fieldOfStudyUndecided draft = Some True then []
      else if 200 < text_length (fieldOfStudy draft)
      then [(js ''fieldOfStudy'', js ''Field of study must be 200 characters or fewer.'')] else [])"

definition validate_results :: "OnboardingDraft \<Rightarrow> FieldErrors" where
  "validate_results draft =
     (case gpa draft of
        None \<Rightarrow>
          [(js ''gpa'', js ''Choose one option '' @ [0x2014] @
              js '' enter your GPA, or tell us it's unknown or private.'')]
      | Some g \<Rightarrow>
          (case g of
             Provided v \<Rightarrow>
               if (case v of
                     None \<Rightarrow> True
                   | Some value \<Rightarrow> \<not> is_finite value \<or> num_less value (Fin 0) \<or> num_less (Fin 4) value)
               then [(js ''gpa'', js ''Enter a GPA between 0.0 and 4.0.'')] else []
           | _ \<Rightarrow> []) @
          (if 200 < text_length (gradingScaleNote draft)
           then [(js ''gradingScaleNote'', js ''Note must be 200 characters or fewer.'')] else []))"

definition validate_goals :: "OnboardingDraft \<Rightarrow> FieldErrors" where
  "validate_goals draft =
     (let items = (case interests draft of Some is \<Rightarrow> is | None \<Rightarrow> [])
      in (if items = [] then [(js ''interests'', js ''Add at least one interest so we can match your goals.'')]
          else if 50 < length items then [(js ''interests'', js ''Add up to 50 interests.'')]
          else if list_ex (\<lambda>i. 100 < length i) items
          then [(js ''interests'', js ''Each interest must be 100 characters or fewer.'')] else []) @
         (if 4000 < text_length (goals draft)
          then [(js ''goals'', js ''Goals must be 4000 characters or fewer.'')] else []))"

definition validate_experience :: "OnboardingDraft \<Rightarrow> FieldErrors" where
  "validate_experience draft =
     (if experienceStatus draft = None
      then [(js ''experienceStatus'', js ''Choose the option that best describes your experience.'')] else []) @
     (if 2000 < text_length (experienceSummary draft)
      then [(js ''experienceSummary'', js ''Summary must be 2000 characters or fewer.'')] else [])"

text \<open>The second message replaces the first, under the same field.\<close>

definition validate_preferences :: "OnboardingDraft \<Rightarrow> FieldErrors option" where
  "validate_preferences draft =
     (case accommodations draft of
        Some (Provided v) \<Rightarrow>
          map_option (\<lambda>v.
            let errors = (if trim v = []
                  then [(js ''accommodations'',
                         js ''Describe the support you'd like, or choose to skip this question.'')] else [])
            in if 2000 < length v
               then dict_set (js ''accommodations'') (js ''Please keep this under 2000 characters.'') errors
               else errors) v
      | _ \<Rightarrow> Some [])"

section \<open>Steps\<close>

datatype StepId = Consent | Identity | Location | Education | Field | Results | Goals | Experience
  | Preferences | Review

fun STEP_VALIDATORS :: "StepId \<Rightarrow> (OnboardingDraft \<Rightarrow> FieldErrors option) option" where
  "STEP_VALIDATORS Consent = Some (Some \<circ> validate_consent)"
| "STEP_VALIDATORS Identity = Some validate_identity"
| "STEP_VALIDATORS Location = Some validate_location"
| "STEP_VALIDATORS Education = Some (Some \<circ> validate_education)"
| "STEP_VALIDATORS Field = Some (Some \<circ> validate_field)"
| "STEP_VALIDATORS Results = Some (Some \<circ> validate_results)"
| "STEP_VALIDATORS Goals = Some (Some \<circ> validate_goals)"
| "STEP_VALIDATORS Experience = Some (Some \<circ> validate_experience)"
| "STEP_VALIDATORS Preferences = Some validate_preferences"
| "STEP_VALIDATORS Review = None"

definition validateStep :: "StepId \<Rightarrow> OnboardingDraft \<Rightarrow> FieldErrors option" where
  "validateStep stepId draft =
     (case STEP_VALIDATORS stepId of Some validator \<Rightarrow> validator draft | None \<Rightarrow> Some [])"

definition isStepValid :: "StepId \<Rightarrow> OnboardingDraft \<Rightarrow> bool option" where
  "isStepValid stepId draft = map_option (\<lambda>errors. keys_of errors = []) (validateStep stepId draft)"

record StepMeta =
  step_id :: StepId
  step_name :: jsstring
  step_label :: jsstring
  step_title :: jsstring
  step_help :: jsstring
  step_sensitive :: bool
  step_optional :: bool

definition STEPS :: "StepMeta list" where
  "STEPS = map (\<lambda>(i, n, l, t, h, s, op). \<lparr>step_id = i, step_name = n, step_label = l, step_title = t, step_help = h,
      step_sensitive = s, step_optional = op\<rparr>)
    [(Consent, js ''consent'', js ''Privacy'', js ''Before we begin'',
       js ''We use your answers only to check scholarship eligibility and explain your matches. You control what you share, and you can edit or delete it later.'', False, False),
     (Identity, js ''identity'', js ''You'', js ''What should we call you?'',
       js ''Your name appears on applications you choose to start. Pronouns are optional and never affect matching.'', False, False),
     (Location, js ''location'', js ''Location'', js ''Where are you based?'',
       js ''Many scholarships are limited to residents or nationals of certain countries. Nationality is optional and helps widen the checks we can run for you.'', True, False),
     (Education, js ''education'', js ''Level'', js ''What level are you studying at?'',
       js ''Eligibility usually depends on your current or intended study level.'', False, False),
     (Field, js ''field'', js ''Field'', js ''What do you want to study?'',
       js ''Field-specific awards match on subject area. It's fine to be undecided.'', False, True),
     (Results, js ''results'', js ''Results'', js ''Your academic results'',
       js ''Some awards set a minimum GPA. Sharing yours is optional '' @ [0x2014] @ js '' an unknown or private result never counts against you.'', True, False),
     (Goals, js ''goals'', js ''Goals'', js ''Your goals and interests'',
       js ''Interests power semantic matching beyond hard eligibility rules.'', False, False),
     (Experience, js ''experience'', js ''Experience'', js ''Relevant experience'',
       js ''Work, research, volunteering, or leadership can unlock specific awards. Telling us you have none is a valid answer.'', True, False),
     (Preferences, js ''preferences'', js ''Support'', js ''Accessibility & preferences'',
       js ''Optional. If you'd like accommodations or have a contact preference, share it here. This is sensitive information and is never used for matching.'', True, True),
     (Review, js ''review'', js ''Review'', js ''Review and submit'',
       js ''Check everything looks right. You can go back to any step to change an answer.'', False, False)]"

definition STEP_ORDER :: "StepId list" where
  "STEP_ORDER = map step_id STEPS"

definition PROGRESS_STEPS :: "StepMeta list" where
  "PROGRESS_STEPS = filter (\<lambda>s. step_id s \<noteq> Review) STEPS"

text \<open>\<open>Array.prototype.indexOf\<close>: the first position, or minus one.\<close>

fun index_of :: "'a \<Rightarrow> 'a list \<Rightarrow> int" where
  "index_of x [] = -1"
| "index_of x (y # ys) = (if y = x then 0 else (let i = index_of x ys in if i = -1 then -1 else i + 1))"

definition stepIndex :: "StepId \<Rightarrow> int" where
  "stepIndex i = index_of i STEP_ORDER"

definition stepMeta :: "StepId \<Rightarrow> StepMeta option" where
  "stepMeta i = find (\<lambda>s. step_id s = i) STEPS"

definition isStepId :: "jsstring \<Rightarrow> bool" where
  "isStepId value \<longleftrightarrow> value \<in> set (map step_name STEPS)"

fun first_incomplete_in :: "StepMeta list \<Rightarrow> OnboardingDraft \<Rightarrow> StepId option" where
  "first_incomplete_in [] draft = Some Review"
| "first_incomplete_in (s # steps) draft =
     (if step_id s = Review then Some Review
      else if step_optional s then first_incomplete_in steps draft
      else (case validateStep (step_id s) draft of
              None \<Rightarrow> None
            | Some errors \<Rightarrow>
                if keys_of errors \<noteq> [] then Some (step_id s) else first_incomplete_in steps draft))"

definition firstIncompleteStep :: "OnboardingDraft \<Rightarrow> StepId option" where
  "firstIncompleteStep draft = first_incomplete_in STEPS draft"

section \<open>Serialisation\<close>

definition nonblank :: "jsstring option \<Rightarrow> jsstring option" where
  "nonblank v = (case v of Some s \<Rightarrow> if trim s \<noteq> [] then Some (trim s) else None | None \<Rightarrow> None)"

text \<open>The function throws, here \<open>None\<close>, when a mandatory answer is missing.\<close>

definition draftToProfileWrite :: "OnboardingDraft \<Rightarrow> ProfileWrite option" where
  "draftToProfileWrite draft =
     (case (nonblank (fullName draft), map_option to_upper (countryOfResidence draft), studyLevel draft) of
        (Some name, Some country, Some level) \<Rightarrow>
          if country = [] then None
          else Some
            \<lparr>pw_full_name = name, pw_country = country, pw_study_level = level,
             pw_field_of_study =
               (if fieldOfStudyUndecided draft = Some True then None else nonblank (fieldOfStudy draft)),
             pw_gpa = (case gpa draft of Some (Provided v) \<Rightarrow> v | _ \<Rightarrow> None),
             pw_interests = filter (\<lambda>i. i \<noteq> []) (map trim (case interests draft of Some is \<Rightarrow> is | None \<Rightarrow> [])),
             pw_goals = nonblank (goals draft)\<rparr>
      | _ \<Rightarrow> None)"

section \<open>Lemmas\<close>

lemma STEP_ORDER_eq:
  "STEP_ORDER = [Consent, Identity, Location, Education, Field, Results, Goals, Experience, Preferences, Review]"
  by (simp add: STEP_ORDER_def STEPS_def)

lemma stepIndex_simps [simp]:
  "stepIndex Consent = 0" "stepIndex Identity = 1" "stepIndex Location = 2" "stepIndex Education = 3"
  "stepIndex Field = 4" "stepIndex Results = 5" "stepIndex Goals = 6" "stepIndex Experience = 7"
  "stepIndex Preferences = 8" "stepIndex Review = 9"
  by (simp_all add: stepIndex_def STEP_ORDER_eq)

lemma stepIndex_inject [simp]: "stepIndex a = stepIndex b \<longleftrightarrow> a = b"
  by (cases a; cases b; simp)

text \<open>The steps are ordered as the wizard shows them.\<close>

instantiation StepId :: linorder
begin

definition less_eq_StepId :: "StepId \<Rightarrow> StepId \<Rightarrow> bool" where
  "less_eq_StepId a b \<longleftrightarrow> stepIndex a \<le> stepIndex b"

definition less_StepId :: "StepId \<Rightarrow> StepId \<Rightarrow> bool" where
  "less_StepId a b \<longleftrightarrow> stepIndex a < stepIndex b"

instance
  by standard (auto simp: less_eq_StepId_def less_StepId_def)

end

lemma Review_greatest [simp]: "(s :: StepId) \<le> Review"
  by (cases s) (simp_all add: less_eq_StepId_def)

lemma Consent_least [simp]: "Consent \<le> (s :: StepId)"
  by (cases s) (simp_all add: less_eq_StepId_def)

definition optional_step :: "StepId \<Rightarrow> bool" where
  "optional_step i \<longleftrightarrow> i = Field \<or> i = Preferences"

lemma STEPS_optional: "s \<in> set STEPS \<Longrightarrow> step_optional s \<longleftrightarrow> optional_step (step_id s)"
  by (auto simp: STEPS_def optional_step_def)

definition step_valid :: "StepId \<Rightarrow> OnboardingDraft \<Rightarrow> bool" where
  "step_valid i draft \<longleftrightarrow> isStepValid i draft = Some True"

lemma step_valid_Review [simp]: "step_valid Review draft"
  by (simp add: step_valid_def isStepValid_def validateStep_def keys_of_def)

lemma step_valid_errors: "step_valid i draft \<longleftrightarrow> validateStep i draft = Some []"
  by (auto simp: step_valid_def isStepValid_def keys_of_def)

lemma step_valid_iff:
  "step_valid Consent draft \<longleftrightarrow> validate_consent draft = []"
  "step_valid Identity draft \<longleftrightarrow> validate_identity draft = Some []"
  "step_valid Location draft \<longleftrightarrow> validate_location draft = Some []"
  "step_valid Education draft \<longleftrightarrow> validate_education draft = []"
  "step_valid Field draft \<longleftrightarrow> validate_field draft = []"
  "step_valid Results draft \<longleftrightarrow> validate_results draft = []"
  "step_valid Goals draft \<longleftrightarrow> validate_goals draft = []"
  "step_valid Experience draft \<longleftrightarrow> validate_experience draft = []"
  "step_valid Preferences draft \<longleftrightarrow> validate_preferences draft = Some []"
  by (simp_all add: step_valid_errors validateStep_def)

lemma firstIncompleteStep_unfold:
  "firstIncompleteStep draft =
     (if \<not> step_valid Consent draft then Some Consent
      else if validate_identity draft = None then None
      else if \<not> step_valid Identity draft then Some Identity
      else if validate_location draft = None then None
      else if \<not> step_valid Location draft then Some Location
      else if \<not> step_valid Education draft then Some Education
      else if \<not> step_valid Results draft then Some Results
      else if \<not> step_valid Goals draft then Some Goals
      else if \<not> step_valid Experience draft then Some Experience
      else Some Review)"
  by (auto simp: firstIncompleteStep_def STEPS_def step_valid_errors validateStep_def keys_of_def
      split: option.split)

lemma first_incomplete_mandatory: "firstIncompleteStep draft = Some s \<Longrightarrow> \<not> optional_step s"
  by (auto simp: firstIncompleteStep_unfold optional_step_def split: if_splits)

lemma before_first_incomplete:
  "firstIncompleteStep draft = Some s \<Longrightarrow> t < s \<Longrightarrow> \<not> optional_step t \<Longrightarrow> step_valid t draft"
  by (cases t) (auto simp: firstIncompleteStep_unfold less_StepId_def optional_step_def split: if_splits)

lemma first_incomplete_invalid:
  "firstIncompleteStep draft = Some s \<Longrightarrow> s \<noteq> Review \<Longrightarrow> \<not> step_valid s draft"
  by (auto simp: firstIncompleteStep_unfold split: if_splits)

lemma Review_reached:
  "firstIncompleteStep draft = Some Review \<Longrightarrow> \<not> optional_step s \<Longrightarrow> step_valid s draft"
  using before_first_incomplete [of draft Review s] by (cases "s = Review") (auto simp: order.strict_iff_order)

lemma Review_complete:
  "(\<And>s. \<not> optional_step s \<Longrightarrow> step_valid s draft) \<Longrightarrow> firstIncompleteStep draft = Some Review"
  using step_valid_iff(2,3) [of draft] by (simp add: firstIncompleteStep_unfold optional_step_def)

text \<open>A draft in which every shared answer has a value: the validators then never throw.\<close>

definition answers_present :: "OnboardingDraft \<Rightarrow> bool" where
  "answers_present draft \<longleftrightarrow>
     pronouns draft \<noteq> Some (Provided None) \<and> nationality draft \<noteq> Some (Provided None) \<and>
     accommodations draft \<noteq> Some (Provided None)"

lemma validate_throws:
  "validate_identity draft = None \<longleftrightarrow> pronouns draft = Some (Provided None)"
  "validate_location draft = None \<longleftrightarrow> nationality draft = Some (Provided None)"
  "validate_preferences draft = None \<longleftrightarrow> accommodations draft = Some (Provided None)"
  by (auto simp: validate_identity_def validate_location_def validate_preferences_def Let_def
      split: option.splits Disclosure.splits)

lemma validateStep_throws:
  "validateStep i draft = None \<longleftrightarrow>
     i = Identity \<and> pronouns draft = Some (Provided None) \<or>
     i = Location \<and> nationality draft = Some (Provided None) \<or>
     i = Preferences \<and> accommodations draft = Some (Provided None)"
  by (cases i) (simp_all add: validateStep_def validate_throws)

lemma first_incomplete_defined: "answers_present draft \<Longrightarrow> \<exists>s. firstIncompleteStep draft = Some s"
  by (simp add: firstIncompleteStep_unfold validate_throws answers_present_def)

text \<open>What valid steps say about the answers that are submitted.\<close>

lemma valid_identity:
  "step_valid Identity draft \<Longrightarrow> \<exists>n. nonblank (fullName draft) = Some n \<and> n \<noteq> [] \<and> trim n = n \<and> length n \<le> 200"
  by (auto simp: step_valid_iff validate_identity_def nonblank_def Let_def
      split: option.splits if_splits Disclosure.splits)

lemma CODES_shape: "list_all (\<lambda>c. length c = 2 \<and> list_all (\<lambda>x. x \<in> set ''ABCDEFGHIJKLMNOPQRSTUVWXYZ'') c)
    (map country_code COUNTRIES)"
  by (simp add: COUNTRIES_def)

lemma codes_distinct: "distinct (map country_code COUNTRIES)"
  by code_simp

lemma letters: "list_all (\<lambda>x. 0x41 \<le> (of_char x :: code_unit) \<and> (of_char x :: code_unit) \<le> 0x5A)
    ''ABCDEFGHIJKLMNOPQRSTUVWXYZ''"
  by simp

lemma valid_country:
  assumes "isValidCountryCode c"
  shows "c \<noteq> []" and "length (to_upper c) = 2"
    and "\<forall>u \<in> set (to_upper c). 0x41 \<le> u \<and> u \<le> 0x5A" and "countryName c \<noteq> None"
proof -
  obtain k where k: "k \<in> set COUNTRIES" "to_upper c = js (country_code k)"
    using assms by (auto simp: isValidCountryCode_def CODES_def)
  then have shape: "length (country_code k) = 2"
    "\<forall>x \<in> set (country_code k). x \<in> set ''ABCDEFGHIJKLMNOPQRSTUVWXYZ''"
    using CODES_shape k(1) unfolding list_all_iff set_map by blast+
  then have two: "length (to_upper c) = 2"
    by (simp only: k(2) length_js)
  then show "length (to_upper c) = 2" and "c \<noteq> []"
    by fastforce+
  have "\<forall>x \<in> set (country_code k). 0x41 \<le> (of_char x :: code_unit) \<and> (of_char x :: code_unit) \<le> 0x5A"
    using shape(2) letters unfolding list_all_iff by blast
  then show "\<forall>u \<in> set (to_upper c). 0x41 \<le> u \<and> u \<le> 0x5A"
    unfolding k(2) js_def by simp
  show "countryName c \<noteq> None"
    unfolding countryName_def k(2) using k(1) by (auto simp: find_None_iff)
qed

lemma valid_location:
  "step_valid Location draft \<Longrightarrow> \<exists>c. countryOfResidence draft = Some c \<and> isValidCountryCode c"
  by (auto simp: step_valid_iff validate_location_def Let_def split: option.splits if_splits Disclosure.splits)

lemma valid_education: "step_valid Education draft \<Longrightarrow> \<exists>l. studyLevel draft = Some l"
  by (auto simp: step_valid_iff validate_education_def split: if_splits)

lemma valid_results:
  "step_valid Results draft \<Longrightarrow> gpa draft = Some (Provided v) \<Longrightarrow> \<exists>x. v = Some (Fin x) \<and> 0 \<le> x \<and> x \<le> 4"
  by (cases v; cases "the v") (auto simp: step_valid_iff validate_results_def split: if_splits)

lemma valid_goals:
  "step_valid Goals draft \<Longrightarrow>
     text_length (goals draft) \<le> 4000 \<and>
     (\<exists>is. interests draft = Some is \<and> is \<noteq> [] \<and> length is \<le> 50 \<and> (\<forall>i \<in> set is. length i \<le> 100))"
  by (auto simp: step_valid_iff validate_goals_def Let_def list_ex_iff not_less split: option.splits if_splits)

lemma nonblank_length: "nonblank v = Some s \<Longrightarrow> s \<noteq> [] \<and> trim s = s \<and> length s \<le> text_length v"
  by (auto simp: nonblank_def text_length_def length_trim_le split: option.splits if_splits)

text \<open>
  The bounds of the contract (\<^verbatim>\<open>docs/openapi.yaml\<close>, ProfileWrite) on everything but the field
  of study.
\<close>

definition meets_contract :: "ProfileWrite \<Rightarrow> bool" where
  "meets_contract w \<longleftrightarrow>
     pw_full_name w \<noteq> [] \<and> length (pw_full_name w) \<le> 200 \<and>
     length (pw_country w) = 2 \<and> (\<forall>u \<in> set (pw_country w). 0x41 \<le> u \<and> u \<le> 0x5A) \<and>
     (case pw_gpa w of None \<Rightarrow> True | Some v \<Rightarrow> \<exists>x \<in> {0..4}. v = Fin x) \<and>
     length (pw_interests w) \<le> 50 \<and> (\<forall>i \<in> set (pw_interests w). i \<noteq> [] \<and> length i \<le> 100) \<and>
     (case pw_goals w of None \<Rightarrow> True | Some g \<Rightarrow> g \<noteq> [] \<and> length g \<le> 4000)"

lemma complete_draft_serialises:
  assumes valid: "step_valid Identity draft" "step_valid Location draft" "step_valid Education draft"
    "step_valid Results draft" "step_valid Goals draft"
  shows "\<exists>w. draftToProfileWrite draft = Some w \<and> meets_contract w"
proof -
  obtain n c l where n: "nonblank (fullName draft) = Some n" "n \<noteq> []" "length n \<le> 200"
    and c: "countryOfResidence draft = Some c" "isValidCountryCode c" and l: "studyLevel draft = Some l"
    using valid_identity [OF valid(1)] valid_location [OF valid(2)] valid_education [OF valid(3)] by blast
  obtain items where i: "interests draft = Some items" "length items \<le> 50" "\<forall>i \<in> set items. length i \<le> 100"
    using valid_goals [OF valid(5)] by blast
  have trimmed: "length (trim i) \<le> 100" if "i \<in> set items" for i
    using i(3) that length_trim_le [of i] by fastforce
  have wishes: "length g \<le> 4000 \<and> g \<noteq> []" if "nonblank (goals draft) = Some g" for g
    using nonblank_length [OF that] valid_goals [OF valid(5)] by linarith
  have few: "length (filter (\<lambda>i. i \<noteq> []) (map trim items)) \<le> 50"
    using i(2) length_filter_le [of _ "map trim items"] by (metis le_trans length_map)
  show ?thesis
    using n c l i(1) few trimmed wishes valid_country [OF c(2)] valid_results [OF valid(4)]
    by (auto simp: draftToProfileWrite_def meets_contract_def split: option.split Disclosure.split)
qed

section \<open>Properties\<close>

text \<open>
  The step a draft resumes at is the first mandatory step that is not valid, or the review
  when there is none: everything mandatory before it is complete, and it is never an optional
  step.  It exists for every draft in which the shared answers have values.
\<close>

theorem first_incomplete_step:
  "(firstIncompleteStep draft = Some Review \<longleftrightarrow> (\<forall>s. \<not> optional_step s \<longrightarrow> step_valid s draft)) \<and>
   (\<forall>s. firstIncompleteStep draft = Some s \<longrightarrow>
      (s \<noteq> Review \<longrightarrow> \<not> step_valid s draft) \<and> \<not> optional_step s \<and>
      (\<forall>t < s. optional_step t \<or> step_valid t draft)) \<and>
   (answers_present draft \<longrightarrow> firstIncompleteStep draft \<noteq> None)"
  using Review_reached [of draft] Review_complete [of draft] first_incomplete_invalid [of draft]
    first_incomplete_mandatory [of draft] before_first_incomplete [of draft] first_incomplete_defined [of draft]
  by blast

theorem first_incomplete_step_witness:
  "\<exists>s. firstIncompleteStep empty_draft = Some s \<and> \<not> optional_step s"
proof -
  have "answers_present empty_draft"
    by (simp add: answers_present_def empty_draft_def)
  then show ?thesis
    using first_incomplete_step [of empty_draft] by blast
qed


definition example_draft :: OnboardingDraft where
  "example_draft = empty_draft
     \<lparr>consentAccepted := Some True, fullName := Some (js '' Ada ''), countryOfResidence := Some (js ''gb''),
      studyLevel := Some LevelDoctoral, gpa := Some (Provided (Some (Fin 0))), interests := Some [js ''logic''],
      experienceStatus := Some No_Experience\<rparr>"

lemma example_reviewed: "firstIncompleteStep example_draft = Some Review"
  by code_simp


definition long_field_draft :: OnboardingDraft where
  "long_field_draft = example_draft\<lparr>fieldOfStudy := Some (replicate 201 0x61)\<rparr>"

lemma long_field_reviewed: "firstIncompleteStep long_field_draft = Some Review"
  by code_simp

lemma long_field_length:
  "map_option (\<lambda>w. map_option length (pw_field_of_study w)) (draftToProfileWrite long_field_draft) = Some (Some 201)"
  by code_simp

lemma long_field_invalid: "isStepValid Field long_field_draft = Some False"
  by code_simp

text \<open>
  The wizard's own limit on the field of study is not one of the checks a draft must pass
  to reach the review: a draft that is ready to submit can send more than the 200 characters
  the contract allows there.
\<close>

theorem long_field_of_study_submits:
  "\<exists>draft w f. firstIncompleteStep draft = Some Review \<and> isStepValid Field draft = Some False \<and>
     draftToProfileWrite draft = Some w \<and> pw_field_of_study w = Some f \<and> length f = 201"
  using long_field_reviewed long_field_invalid long_field_length by fastforce

text \<open>
  Not knowing a result and declining to share it both leave the profile without a GPA, a GPA
  of zero stays a GPA, and no answer outside the contract (pronouns, nationality, experience,
  accommodations, contact preference, preferred name, consent) has any influence on what is sent.
\<close>

theorem disclosure_respected:
  "(draftToProfileWrite draft = Some w \<longrightarrow>
      (\<forall>v. pw_gpa w = Some v \<longleftrightarrow> gpa draft = Some (Provided (Some v)))) \<and>
   draftToProfileWrite (draft\<lparr>pronouns := p, nationality := n, experienceStatus := e, experienceSummary := s,
     accommodations := a, contactPreference := c, preferredName := m, consentAccepted := y\<rparr>) =
   draftToProfileWrite draft"
proof
  show "draftToProfileWrite draft = Some w \<longrightarrow> (\<forall>v. pw_gpa w = Some v \<longleftrightarrow> gpa draft = Some (Provided (Some v)))"
    by (auto simp: draftToProfileWrite_def split: option.splits Disclosure.splits if_splits)
qed (simp add: draftToProfileWrite_def split: option.split)

theorem disclosure_respected_witness:
  "\<exists>w. draftToProfileWrite example_draft = Some w \<and> pw_gpa w = Some (Fin 0)"
proof -
  have "draftToProfileWrite example_draft \<noteq> None"
    by code_simp
  then obtain w where w: "draftToProfileWrite example_draft = Some w"
    by blast
  then show ?thesis
    using disclosure_respected [of example_draft w] by (auto simp: example_draft_def)
qed

text \<open>
  The country a code names is found whatever the case of its letters, every valid code has
  exactly one name, and the codes that are accepted are exactly those that have one.
\<close>

theorem country_lookup:
  "(countryName code = Some n \<longleftrightarrow>
      (\<exists>c \<in> set COUNTRIES. js (country_code c) = to_upper code \<and> country_name c = n)) \<and>
   (isValidCountryCode code \<longleftrightarrow> countryName code \<noteq> None)"
proof -
  have same: "c = d" if "c \<in> set COUNTRIES" "d \<in> set COUNTRIES" "country_code c = country_code d" for c d
    using codes_distinct that unfolding distinct_map inj_on_def by blast
  have "countryName code \<noteq> None \<longleftrightarrow> (\<exists>c \<in> set COUNTRIES. js (country_code c) = to_upper code)"
    by (auto simp: countryName_def find_None_iff)
  moreover have "isValidCountryCode code \<longleftrightarrow> (\<exists>c \<in> set COUNTRIES. js (country_code c) = to_upper code)"
    unfolding isValidCountryCode_def CODES_def set_map image_iff by metis
  moreover have "countryName code = Some n \<longleftrightarrow>
      (\<exists>c \<in> set COUNTRIES. js (country_code c) = to_upper code \<and> country_name c = n)" (is "?l \<longleftrightarrow> ?r")
  proof
    assume ?l
    then show ?r
      by (auto simp: countryName_def find_Some_iff)
  next
    assume ?r
    then obtain c where c: "c \<in> set COUNTRIES" "js (country_code c) = to_upper code" "country_name c = n"
      by blast
    then obtain d where d: "find (\<lambda>c. js (country_code c) = to_upper code) COUNTRIES = Some d"
      by (cases "find (\<lambda>c. js (country_code c) = to_upper code) COUNTRIES") (auto simp: find_None_iff)
    then have "d \<in> set COUNTRIES" "js (country_code d) = to_upper code"
      by (auto simp: find_Some_iff)
    with c same have "d = c"
      by (metis js_inject)
    with c d show ?l
      by (simp add: countryName_def)
  qed
  ultimately show ?thesis by blast
qed

end
