(* ===== verification/Api_Errors.thy ===== *)
theory Api_Errors
  imports Api_Types
begin

text \<open>
  \<^verbatim>\<open>app/lib/api/errors.ts\<close>: how every failed request becomes an \<open>ApiError\<close> the interface
  can react to.  A response body is what the platform's JSON parser makes of it; an error
  envelope that passes the check is read the way the contract types it.
\<close>

section \<open>JSON values\<close>

datatype json = JNull | JBool bool | JNum number | JStr jsstring | JArr "json list"
  | JObj "(jsstring, json) dict"

definition member_of :: "json \<Rightarrow> jsstring \<Rightarrow> json option" where
  "member_of v k = (case v of JObj d \<Rightarrow> map_of d k | _ \<Rightarrow> None)"

text \<open>\<open>typeof v === "object" && v !== null\<close>\<close>

definition is_object :: "json \<Rightarrow> bool" where
  "is_object v = (case v of JArr _ \<Rightarrow> True | JObj _ \<Rightarrow> True | _ \<Rightarrow> False)"

definition as_string :: "json option \<Rightarrow> jsstring option" where
  "as_string v = (case v of Some (JStr s) \<Rightarrow> Some s | _ \<Rightarrow> None)"

definition non_empty :: "jsstring option \<Rightarrow> jsstring option" where
  "non_empty v = (case v of Some (u # s) \<Rightarrow> Some (u # s) | _ \<Rightarrow> None)"

text \<open>\<open>a || b\<close> on strings that may be missing: the first that is not empty.\<close>

definition or_else :: "'a option \<Rightarrow> 'a \<Rightarrow> 'a" where
  "or_else v d = (case v of Some x \<Rightarrow> x | None \<Rightarrow> d)"

lemmas [js_defs] = member_of_def is_object_def as_string_def non_empty_def or_else_def

section \<open>ApiError\<close>

datatype ApiErrorKind = Offline | Unauthorized | Forbidden | Not_Found | Conflict | Validation
  | Rate_Limited | Server | Unknown

record ApiError =
  err_kind :: ApiErrorKind
  err_status :: nat
  err_message :: jsstring
  err_code :: jsstring
  err_details :: "ErrorDetail list"
  err_requestId :: "jsstring option"
  err_retryAfterSeconds :: "number option"

definition new_ApiError ::
  "ApiErrorKind \<Rightarrow> nat \<Rightarrow> jsstring \<Rightarrow> jsstring option \<Rightarrow> ErrorDetail list option \<Rightarrow>
   jsstring option \<Rightarrow> number option \<Rightarrow> ApiError" where
  "new_ApiError kind status message code details requestId retryAfterSeconds =
     \<lparr>err_kind = kind, err_status = status, err_message = message,
      err_code = or_else code (js ''UNKNOWN''), err_details = or_else details [],
      err_requestId = requestId, err_retryAfterSeconds = retryAfterSeconds\<rparr>"

definition isRecoverable :: "ApiError \<Rightarrow> bool" where
  "isRecoverable e \<longleftrightarrow> err_kind e = Offline \<or> err_kind e = Rate_Limited \<or> err_kind e = Server"

text \<open>
  The names every object inherits: \<open>map[field]\<close> finds something under them in an empty
  object, so the loop never stores a message there.
\<close>

definition inherited_names :: "jsstring list" where
  "inherited_names = map js
     [''constructor'', ''__proto__'', ''hasOwnProperty'', ''isPrototypeOf'', ''propertyIsEnumerable'',
      ''toLocaleString'', ''toString'', ''valueOf'', ''__defineGetter__'', ''__defineSetter__'',
      ''__lookupGetter__'', ''__lookupSetter__'']"

definition add_field_error :: "ErrorDetail \<Rightarrow> (jsstring, jsstring) dict \<Rightarrow> (jsstring, jsstring) dict" where
  "add_field_error detail shown =
     (case (non_empty (ed_field detail), non_empty (ed_message detail)) of
        (Some field, Some message) \<Rightarrow>
          if map_of shown field = None \<and> field \<notin> set inherited_names
          then dict_set field message shown else shown
      | _ \<Rightarrow> shown)"

definition fieldErrors :: "ApiError \<Rightarrow> (jsstring, jsstring) dict" where
  "fieldErrors e = fold add_field_error (err_details e) []"

lemmas [js_defs] = new_ApiError_def isRecoverable_def inherited_names_def add_field_error_def fieldErrors_def

section \<open>From a response\<close>

definition kindForStatus :: "nat \<Rightarrow> ApiErrorKind" where
  "kindForStatus status =
     (if status = 400 \<or> status = 422 then Validation
      else if status = 401 then Unauthorized
      else if status = 403 then Forbidden
      else if status = 404 then Not_Found
      else if status = 409 then Conflict
      else if status = 429 then Rate_Limited
      else if 500 \<le> status then Server else Unknown)"

definition isErrorEnvelope :: "json \<Rightarrow> bool" where
  "isErrorEnvelope value =
     (is_object value \<and>
      (case member_of value (js ''error'') of
         Some error \<Rightarrow> is_object error \<and> as_string (member_of error (js ''code'')) \<noteq> None
       | None \<Rightarrow> False))"

fun FRIENDLY_MESSAGES :: "ApiErrorKind \<Rightarrow> jsstring option" where
  "FRIENDLY_MESSAGES Offline =
     Some (js ''You appear to be offline. Check your connection '' @ [0x2014] @ js '' your answers are saved.'')"
| "FRIENDLY_MESSAGES Unauthorized = Some (js ''Your session has expired. Please sign in again to continue.'')"
| "FRIENDLY_MESSAGES Forbidden = Some (js ''You do not have permission to do that.'')"
| "FRIENDLY_MESSAGES Rate_Limited = Some (js ''Too many attempts. Please wait a moment and try again.'')"
| "FRIENDLY_MESSAGES Server = Some (js ''Something went wrong on our side. Please try again.'')"
| "FRIENDLY_MESSAGES Unknown = Some (js ''Something went wrong. Please try again.'')"
| "FRIENDLY_MESSAGES _ = None"

text \<open>
  \<open>Number.parseInt(text, 10)\<close>: white space, a sign, then as many digits as there are; no
  digit is NaN, and a value that a double cannot hold is infinite.
\<close>

definition is_digit :: "code_unit \<Rightarrow> bool" where
  "is_digit u \<longleftrightarrow> 0x30 \<le> u \<and> u \<le> 0x39"

definition digits_value :: "jsstring \<Rightarrow> nat" where
  "digits_value ds = fold (\<lambda>u n. 10 * n + (unat u - 0x30)) ds 0"

definition parseInt :: "jsstring \<Rightarrow> number" where
  "parseInt text =
     (let s = dropWhile is_space text;
          negative = prefix [0x2D] s;
          body = (if negative \<or> prefix [0x2B] s then drop 1 s else s);
          ds = takeWhile is_digit body;
          n = digits_value ds
      in if ds = [] then NaN
         else if 2 ^ 1024 - 2 ^ 970 \<le> n then (if negative then NegInfinity else Infinity)
         else Fin (if negative then - of_nat n else of_nat n))"

definition retry_seconds :: "jsstring option \<Rightarrow> number option" where
  "retry_seconds header =
     (case header of
        None \<Rightarrow> None
      | Some h \<Rightarrow>
          if h = [] then None
          else (let n = parseInt h in if is_finite n \<and> n \<noteq> Fin 0 then Some n else None))"

lemmas [js_defs] = kindForStatus_def isErrorEnvelope_def is_digit_def digits_value_def parseInt_def retry_seconds_def

text \<open>The envelope's parts, as the contract types them.\<close>

definition read_detail :: "json \<Rightarrow> ErrorDetail" where
  "read_detail v =
     \<lparr>ed_code = or_else (as_string (member_of v (js ''code''))) [],
      ed_field = as_string (member_of v (js ''field'')),
      ed_message = as_string (member_of v (js ''message''))\<rparr>"

definition read_details :: "json option \<Rightarrow> ErrorDetail list" where
  "read_details v = (case v of Some (JArr ds) \<Rightarrow> map read_detail ds | _ \<Rightarrow> [])"

record http_response =
  res_status :: nat
  res_retry_after :: "jsstring option"
  res_json :: "json option"
  res_text :: "jsstring option"

definition apiErrorFromResponse :: "http_response \<Rightarrow> ApiError" where
  "apiErrorFromResponse response =
     (let kind = kindForStatus (res_status response);
          retryAfterSeconds = retry_seconds (res_retry_after response);
          payload = or_else (res_json response) JNull
      in if isErrorEnvelope payload
         then (let error = or_else (member_of payload (js ''error'')) JNull
               in new_ApiError kind (res_status response)
                    (case non_empty (as_string (member_of error (js ''message''))) of
                       Some m \<Rightarrow> m
                     | None \<Rightarrow> or_else (FRIENDLY_MESSAGES kind) (js ''Request failed.''))
                    (as_string (member_of error (js ''code'')))
                    (Some (read_details (member_of error (js ''details''))))
                    (as_string (member_of error (js ''request_id'')))
                    retryAfterSeconds)
         else new_ApiError kind (res_status response)
                (or_else (FRIENDLY_MESSAGES kind)
                   (js ''Request failed ('' @ js_of_nat (res_status response) @ js '').''))
                None None None retryAfterSeconds)"

text \<open>\<open>aborted\<close>: the cause was a \<open>DOMException\<close> named AbortError.\<close>

definition apiErrorFromNetwork :: "bool \<Rightarrow> ApiError" where
  "apiErrorFromNetwork aborted =
     new_ApiError (if aborted then Unknown else Offline) 0
       (if aborted then js ''The request was cancelled.'' else or_else (FRIENDLY_MESSAGES Offline) [])
       None None None None"

lemmas [js_defs] = read_detail_def read_details_def apiErrorFromResponse_def apiErrorFromNetwork_def

section \<open>Lemmas\<close>

lemma new_ApiError_simps [simp]:
  "err_kind (new_ApiError k s m c d r t) = k"
  "err_status (new_ApiError k s m c d r t) = s"
  "err_message (new_ApiError k s m c d r t) = m"
  "err_retryAfterSeconds (new_ApiError k s m c d r t) = t"
  by (simp_all add: new_ApiError_def)

lemma apiErrorFromResponse_simps [simp]:
  "err_kind (apiErrorFromResponse response) = kindForStatus (res_status response)"
  "err_status (apiErrorFromResponse response) = res_status response"
  "err_retryAfterSeconds (apiErrorFromResponse response) = retry_seconds (res_retry_after response)"
  by (simp_all add: apiErrorFromResponse_def Let_def)

lemma non_empty_Some: "non_empty v = Some s \<longleftrightarrow> v = Some s \<and> s \<noteq> []"
  by (auto simp: non_empty_def split: option.splits list.splits)

lemma friendly_nonempty: "FRIENDLY_MESSAGES k = Some m \<Longrightarrow> m \<noteq> []"
  by (cases k) auto

lemma message_nonempty: "err_message (apiErrorFromResponse response) \<noteq> []"
  using friendly_nonempty
  by (auto simp: apiErrorFromResponse_def Let_def or_else_def non_empty_Some split: option.split)

lemma network_message_nonempty: "err_message (apiErrorFromNetwork aborted) \<noteq> []"
  by (simp add: apiErrorFromNetwork_def or_else_def)

definition reports :: "ErrorDetail \<Rightarrow> jsstring \<Rightarrow> bool" where
  "reports d f \<longleftrightarrow> non_empty (ed_field d) = Some f \<and> non_empty (ed_message d) \<noteq> None"

lemma map_of_add_field_error:
  "map_of (add_field_error d shown) f =
     (if map_of shown f = None \<and> f \<notin> set inherited_names \<and> reports d f
      then non_empty (ed_message d) else map_of shown f)"
  by (auto simp: add_field_error_def reports_def split: option.splits)

lemma map_of_field_errors:
  "map_of (fold add_field_error ds shown) f =
     (case map_of shown f of
        Some m \<Rightarrow> Some m
      | None \<Rightarrow> if f \<in> set inherited_names then None
                else Option.bind (find (\<lambda>d. reports d f) ds) (\<lambda>d. non_empty (ed_message d)))"
proof (induction ds arbitrary: shown)
  case (Cons d ds)
  then show ?case
    by (auto simp: map_of_add_field_error reports_def split: option.split)
qed (simp split: option.split)

section \<open>Properties\<close>

text \<open>
  A failed response is classified by its status alone, offers a retry exactly when the
  failure may pass (too many requests, or a server error), always has something to show the
  reader, and carries a waiting time only if it is a finite number other than zero.
\<close>

theorem response_error_classified:
  "err_kind (apiErrorFromResponse response) = kindForStatus (res_status response) \<and>
   (isRecoverable (apiErrorFromResponse response) \<longleftrightarrow>
      res_status response = 429 \<or> 500 \<le> res_status response) \<and>
   err_message (apiErrorFromResponse response) \<noteq> [] \<and>
   err_retryAfterSeconds (apiErrorFromResponse response) \<notin>
     {Some NaN, Some Infinity, Some NegInfinity, Some (Fin 0)}"
proof -
  have "isRecoverable (apiErrorFromResponse response) \<longleftrightarrow>
      res_status response = 429 \<or> 500 \<le> res_status response"
    by (auto simp: isRecoverable_def kindForStatus_def)
  moreover have "retry_seconds h \<notin> {Some NaN, Some Infinity, Some NegInfinity, Some (Fin 0)}" for h
    by (auto simp: retry_seconds_def Let_def split: option.splits if_splits)
  ultimately show ?thesis
    by (simp add: message_nonempty)
qed

text \<open>
  The inline error of a form field is the first non-empty message the server reported for
  that field; a field that is not reported, or that has the name of an inherited property,
  gets none.
\<close>

theorem fieldErrors_first_message:
  "map_of (fieldErrors e) f =
     (if f \<in> set inherited_names then None
      else Option.bind
        (find (\<lambda>d. ed_field d = Some f \<and> f \<noteq> [] \<and> ed_message d \<notin> {None, Some []}) (err_details e))
        ed_message)"
proof -
  have same: "reports d f \<longleftrightarrow> ed_field d = Some f \<and> f \<noteq> [] \<and> ed_message d \<notin> {None, Some []}" for d
    by (cases "ed_message d") (auto simp: reports_def non_empty_Some)
  have "Option.bind (find (\<lambda>d. reports d f) ds) (\<lambda>d. non_empty (ed_message d)) =
      Option.bind (find (\<lambda>d. reports d f) ds) ed_message" for ds
  proof (cases "find (\<lambda>d. reports d f) ds")
    case (Some d)
    then have "reports d f"
      by (auto simp: find_Some_iff)
    with Some show ?thesis
      by (auto simp: reports_def non_empty_Some)
  qed simp
  then show ?thesis
    by (simp add: fieldErrors_def map_of_field_errors same)
qed

end
