(* ===== verification/Api_Client.thy ===== *)
theory Api_Client
  imports Api_Errors Url_Text
begin

text \<open>
  The HTTP client, \<^verbatim>\<open>app/lib/api/client.ts\<close>, with the environment it reads
  (\<^verbatim>\<open>app/lib/env.ts\<close>) and its two constructors (\<^verbatim>\<open>browser-client.ts\<close>, \<^verbatim>\<open>server-client.ts\<close>).
  Each method of the class is the definition with its name: the options it passes to
  \<open>request\<close>, or nothing where \<open>encodeURIComponent\<close> throws.  \<open>fetch\<close>, the token provider and
  the JSON parser are the platform's and come in as a record.
\<close>

section \<open>Configuration\<close>

record PublicEnv =
  siteUrl :: jsstring
  apiBaseUrl :: jsstring
  supabaseUrl :: jsstring
  supabaseAnonKey :: jsstring

text \<open>\<open>read\<close> throws, here with the name of the missing variable.\<close>

definition read_variable :: "jsstring \<Rightarrow> jsstring option \<Rightarrow> jsstring + jsstring" where
  "read_variable name value = (case non_empty value of None \<Rightarrow> Inl name | Some v \<Rightarrow> Inr v)"

definition getPublicEnv :: "(jsstring \<Rightarrow> jsstring option) \<Rightarrow> jsstring + PublicEnv" where
  "getPublicEnv env =
     (case read_variable (js ''NEXT_PUBLIC_API_BASE_URL'') (env (js ''NEXT_PUBLIC_API_BASE_URL'')) of
        Inl e \<Rightarrow> Inl e
      | Inr api \<Rightarrow>
     (case read_variable (js ''NEXT_PUBLIC_SUPABASE_URL'') (env (js ''NEXT_PUBLIC_SUPABASE_URL'')) of
        Inl e \<Rightarrow> Inl e
      | Inr supabase \<Rightarrow>
     (case read_variable (js ''NEXT_PUBLIC_SUPABASE_ANON_KEY'') (env (js ''NEXT_PUBLIC_SUPABASE_ANON_KEY'')) of
        Inl e \<Rightarrow> Inl e
      | Inr key \<Rightarrow>
          Inr \<lparr>siteUrl = or_else (env (js ''NEXT_PUBLIC_SITE_URL'')) (js ''http://localhost:3000''),
               apiBaseUrl = api, supabaseUrl = supabase, supabaseAnonKey = key\<rparr>)))"

section \<open>Requests\<close>

datatype http_method = GET | PUT | POST | PATCH | DELETE

text \<open>The value a method hands to \<open>JSON.stringify\<close>.\<close>

datatype request_body =
    BodyProfile ProfileWrite
  | BodyFeedback MatchFeedbackCreate
  | BodyApplicationUpdate ApplicationUpdate
  | BodyChecklistItem ChecklistItemUpdate
  | BodyReminder ApplicationReminderWrite
  | BodyRename jsstring
  | BodyApplicationCreate ApplicationCreate
  | BodyReport ScholarshipReportCreate
  | BodyAdminWrite AdminScholarshipWrite
  | BodyAdminPatch "jsstring \<rightharpoonup> json"
  | BodyLifecycle LifecycleAction "jsstring option"
  | BodyRequirements AdminRequirementSetWrite
  | BodyBulkPreview AdminBulkActionPreviewRequest
  | BodyPreviewToken jsstring
  | BodyMerge AdminDuplicateMergeRequest
  | BodyVerification AdminVerificationWrite
  | BodyIngestionRun IngestionRunCreate

record RequestOptions =
  ro_method :: http_method
  ro_path :: jsstring
  ro_body :: "request_body option"
  ro_idempotencyKey :: "jsstring option"
  ro_requireAuth :: bool

record wire_request =
  wire_url :: jsstring
  wire_method :: http_method
  wire_headers :: "(jsstring, jsstring) dict"
  wire_body :: "request_body option"

datatype fetch_answer = Fetch_Throws bool | Fetched http_response

datatype token_answer = Token_Throws | Token "jsstring option"

datatype thrown = Api_Error ApiError | Syntax_Error | Body_Error | Provider_Error | Uri_Error

record 'a platform =
  getAccessToken :: token_answer
  fetch :: "wire_request \<Rightarrow> fetch_answer"
  json_parse :: "jsstring \<Rightarrow> 'a option"

definition sessionExpiredError :: ApiError where
  "sessionExpiredError =
     new_ApiError Unauthorized 401 (js ''Your session has expired. Please sign in again to continue.'')
       (Some (js ''UNAUTHORIZED'')) None None None"

definition strip_slash :: "jsstring \<Rightarrow> jsstring" where
  "strip_slash base = (if base \<noteq> [] \<and> last base = 0x2F then butlast base else base)"

definition response_ok :: "nat \<Rightarrow> bool" where
  "response_ok status \<longleftrightarrow> 200 \<le> status \<and> status \<le> 299"

definition request_headers :: "jsstring option \<Rightarrow> RequestOptions \<Rightarrow> (jsstring, jsstring) dict" where
  "request_headers token options =
     (let headers0 = [(js ''Accept'', js ''application/json'')];
          headers1 = (case non_empty token of
                        Some t \<Rightarrow> dict_set (js ''Authorization'') (js ''Bearer '' @ t) headers0
                      | None \<Rightarrow> headers0);
          headers2 = (case non_empty (ro_idempotencyKey options) of
                        Some k \<Rightarrow> dict_set (js ''Idempotency-Key'') k headers1
                      | None \<Rightarrow> headers1)
      in case ro_body options of
           Some _ \<Rightarrow> dict_set (js ''Content-Type'') (js ''application/json'') headers2
         | None \<Rightarrow> headers2)"

definition request_wire :: "jsstring \<Rightarrow> jsstring option \<Rightarrow> RequestOptions \<Rightarrow> wire_request" where
  "request_wire baseUrl token options =
     \<lparr>wire_url = strip_slash baseUrl @ ro_path options, wire_method = ro_method options,
      wire_headers = request_headers token options, wire_body = ro_body options\<rparr>"

definition request_result :: "'a platform \<Rightarrow> fetch_answer \<Rightarrow> thrown + 'a option" where
  "request_result pl answer =
     (case answer of
        Fetch_Throws aborted \<Rightarrow> Inl (Api_Error (apiErrorFromNetwork aborted))
      | Fetched response \<Rightarrow>
          if \<not> response_ok (res_status response)
          then Inl (Api_Error (apiErrorFromResponse response))
          else if res_status response = 204 then Inr None
          else (case res_text response of
                  None \<Rightarrow> Inl Body_Error
                | Some text \<Rightarrow>
                    if text = [] then Inr None
                    else (case json_parse pl text of
                            Some v \<Rightarrow> Inr (Some v)
                          | None \<Rightarrow> Inl Syntax_Error)))"

text \<open>
  \<open>request\<close>: the requests that went out (none or one), and what the caller gets: a thrown
  value, null (\<open>None\<close>) or the parsed body.
\<close>

definition request ::
  "'a platform \<Rightarrow> jsstring \<Rightarrow> RequestOptions \<Rightarrow> wire_request list \<times> (thrown + 'a option)" where
  "request pl baseUrl options =
     (case getAccessToken pl of
        Token_Throws \<Rightarrow> ([], Inl Provider_Error)
      | Token token \<Rightarrow>
          if non_empty token = None \<and> ro_requireAuth options
          then ([], Inl (Api_Error sessionExpiredError))
          else (let wire = request_wire baseUrl token options
                in ([wire], request_result pl (fetch pl wire))))"

definition isNotFound :: "thrown \<Rightarrow> bool" where
  "isNotFound e = (case e of Api_Error a \<Rightarrow> err_kind a = Not_Found | _ \<Rightarrow> False)"

section \<open>Paths\<close>

record page_options =
  po_limit :: "nat option"
  po_cursor :: "jsstring option"

definition with_query :: "jsstring \<Rightarrow> jsstring \<Rightarrow> jsstring" where
  "with_query path query = (if query \<noteq> [] then path @ js ''?'' @ query else path)"

definition pagePath :: "jsstring \<Rightarrow> page_options \<Rightarrow> jsstring" where
  "pagePath path options =
     (let params0 = (case po_limit options of
                       Some n \<Rightarrow> params_set (js ''limit'') (js_of_nat n) [] | None \<Rightarrow> []);
          params = (case non_empty (po_cursor options) of
                      Some c \<Rightarrow> params_set (js ''cursor'') c params0 | None \<Rightarrow> params0)
      in with_query path (params_string params))"

datatype query_value = QText jsstring | QNumber nat | QBool bool | QUndefined

type_synonym query = "(jsstring, query_value) dict"

fun query_text :: "query_value \<Rightarrow> jsstring" where
  "query_text (QText s) = s"
| "query_text (QNumber n) = js_of_nat n"
| "query_text (QBool b) = (if b then js ''true'' else js ''false'')"
| "query_text QUndefined = js ''undefined''"

definition query_params :: "query \<Rightarrow> params" where
  "query_params options =
     fold (\<lambda>(k, v) ps. if v \<noteq> QUndefined \<and> v \<noteq> QText [] then params_set k (query_text v) ps else ps) options []"

definition queryPath :: "jsstring \<Rightarrow> query \<Rightarrow> jsstring" where
  "queryPath path options = with_query path (params_string (query_params options))"

text \<open>The paths with identifiers in them, as template strings around \<open>encodeURIComponent\<close>.\<close>

definition id_path :: "string \<Rightarrow> jsstring \<Rightarrow> string \<Rightarrow> jsstring option" where
  "id_path before i after = map_option (\<lambda>e. js before @ e @ js after) (encodeURIComponent i)"

definition options_of ::
  "http_method \<Rightarrow> jsstring \<Rightarrow> request_body option \<Rightarrow> jsstring option \<Rightarrow> RequestOptions" where
  "options_of m path body key =
     \<lparr>ro_method = m, ro_path = path, ro_body = body, ro_idempotencyKey = key, ro_requireAuth = True\<rparr>"

lemmas [js_defs] = strip_slash_def response_ok_def with_query_def pagePath_def query_params_def queryPath_def
  id_path_def options_of_def sessionExpiredError_def isNotFound_def
  request_headers_def request_wire_def request_result_def request_def

section \<open>The methods\<close>

text \<open>\<open>getProfile\<close> also turns a 404 into null.\<close>

definition getProfile_options :: RequestOptions where
  "getProfile_options = options_of GET (js ''/profile'') None None"

definition getProfile ::
  "'a platform \<Rightarrow> jsstring \<Rightarrow> wire_request list \<times> (thrown + 'a option)" where
  "getProfile pl baseUrl =
     (let (sent, result) = request pl baseUrl getProfile_options
      in (sent, case result of Inl e \<Rightarrow> if isNotFound e then Inr None else Inl e | Inr v \<Rightarrow> Inr v))"

definition replaceProfile :: "ProfileWrite \<Rightarrow> RequestOptions" where
  "replaceProfile body =
     options_of PUT (js ''/profile'') (Some (BodyProfile body)) None"

definition listMatches :: "page_options \<Rightarrow> RequestOptions" where
  "listMatches options =
     options_of GET (pagePath (js ''/matches'') options) None None"

definition getMatch :: "jsstring \<Rightarrow> RequestOptions option" where
  "getMatch scholarshipId =
     map_option (\<lambda>p. options_of GET p None None)
       (id_path ''/matches/'' scholarshipId '''')"

definition recalculateMatches :: "jsstring \<Rightarrow> RequestOptions" where
  "recalculateMatches idempotencyKey =
     options_of POST (js ''/matches/recalculate'') None (Some idempotencyKey)"

definition getMatchRecalculationJob :: "jsstring \<Rightarrow> RequestOptions option" where
  "getMatchRecalculationJob jobId =
     map_option (\<lambda>p. options_of GET p None None)
       (id_path ''/matches/recalculation-jobs/'' jobId '''')"

definition createMatchFeedback ::
  "jsstring \<Rightarrow> MatchFeedbackCreate \<Rightarrow> jsstring \<Rightarrow> RequestOptions option" where
  "createMatchFeedback scholarshipId body idempotencyKey =
     map_option (\<lambda>p. options_of POST p (Some (BodyFeedback body)) (Some idempotencyKey))
       (id_path ''/matches/'' scholarshipId ''/feedback'')"

definition listApplications :: "page_options \<Rightarrow> RequestOptions" where
  "listApplications options =
     options_of GET (pagePath (js ''/applications'') options) None None"

definition listApplicationDeadlines :: "page_options \<Rightarrow> RequestOptions" where
  "listApplicationDeadlines options =
     options_of GET (pagePath (js ''/applications/deadlines'') options) None None"

definition updateApplication ::
  "jsstring \<Rightarrow> ApplicationUpdate \<Rightarrow> jsstring \<Rightarrow> RequestOptions option" where
  "updateApplication applicationId body idempotencyKey =
     map_option (\<lambda>p. options_of PATCH p (Some (BodyApplicationUpdate body)) (Some idempotencyKey))
       (id_path ''/applications/'' applicationId '''')"

definition updateApplicationChecklistItem ::
  "jsstring \<Rightarrow> jsstring \<Rightarrow> ChecklistItemUpdate \<Rightarrow> jsstring \<Rightarrow> RequestOptions option" where
  "updateApplicationChecklistItem applicationId checklistItemId body idempotencyKey =
     (case (encodeURIComponent applicationId, encodeURIComponent checklistItemId) of
        (Some a, Some c) \<Rightarrow>
          Some (options_of PUT (js ''/applications/'' @ a @ js ''/checklist/'' @ c)
            (Some (BodyChecklistItem body)) (Some idempotencyKey))
      | _ \<Rightarrow> None)"

definition setApplicationReminder ::
  "jsstring \<Rightarrow> ApplicationReminderWrite \<Rightarrow> jsstring \<Rightarrow> RequestOptions option" where
  "setApplicationReminder applicationId body idempotencyKey =
     map_option (\<lambda>p. options_of PUT p (Some (BodyReminder body)) (Some idempotencyKey))
       (id_path ''/applications/'' applicationId ''/reminder'')"

definition deleteApplicationReminder ::
  "jsstring \<Rightarrow> jsstring \<Rightarrow> RequestOptions option" where
  "deleteApplicationReminder applicationId idempotencyKey =
     map_option (\<lambda>p. options_of DELETE p None (Some idempotencyKey))
       (id_path ''/applications/'' applicationId ''/reminder'')"

definition listDocuments :: "page_options \<Rightarrow> RequestOptions" where
  "listDocuments options =
     options_of GET (pagePath (js ''/profile/documents'') options) None None"

definition getDocumentUploadPolicy :: "RequestOptions" where
  "getDocumentUploadPolicy =
     options_of GET (js ''/profile/documents/policy'') None None"

definition getDocumentReadiness :: "RequestOptions" where
  "getDocumentReadiness =
     options_of GET (js ''/profile/documents/readiness'') None None"

definition renameDocument ::
  "jsstring \<Rightarrow> jsstring \<Rightarrow> jsstring \<Rightarrow> RequestOptions option" where
  "renameDocument documentId display_name idempotencyKey =
     map_option (\<lambda>p. options_of PATCH p (Some (BodyRename display_name)) (Some idempotencyKey))
       (id_path ''/profile/documents/'' documentId '''')"

definition createDocumentDownloadUrl ::
  "jsstring \<Rightarrow> jsstring \<Rightarrow> RequestOptions option" where
  "createDocumentDownloadUrl documentId idempotencyKey =
     map_option (\<lambda>p. options_of POST p None (Some idempotencyKey))
       (id_path ''/profile/documents/'' documentId ''/download-url'')"

definition deleteDocument :: "jsstring \<Rightarrow> jsstring \<Rightarrow> RequestOptions option" where
  "deleteDocument documentId idempotencyKey =
     map_option (\<lambda>p. options_of DELETE p None (Some idempotencyKey))
       (id_path ''/profile/documents/'' documentId '''')"

definition listScholarships :: "query \<Rightarrow> RequestOptions" where
  "listScholarships query =
     options_of GET (queryPath (js ''/scholarships'') query) None None"

definition getScholarship :: "jsstring \<Rightarrow> RequestOptions option" where
  "getScholarship scholarshipId =
     map_option (\<lambda>p. options_of GET p None None)
       (id_path ''/scholarships/'' scholarshipId '''')"

definition listRelatedScholarships :: "jsstring \<Rightarrow> page_options \<Rightarrow> RequestOptions option" where
  "listRelatedScholarships scholarshipId options =
     map_option (\<lambda>p. options_of GET (pagePath p options) None None)
       (id_path ''/scholarships/'' scholarshipId ''/related'')"

definition setScholarshipSaved :: "jsstring \<Rightarrow> bool \<Rightarrow> RequestOptions option" where
  "setScholarshipSaved scholarshipId saved =
     map_option (\<lambda>p. options_of (if saved then PUT else DELETE) p None None)
       (id_path ''/scholarships/'' scholarshipId ''/saved'')"

definition createApplication ::
  "ApplicationCreate \<Rightarrow> jsstring \<Rightarrow> RequestOptions" where
  "createApplication body idempotencyKey =
     options_of POST (js ''/applications'') (Some (BodyApplicationCreate body)) (Some idempotencyKey)"

definition reportScholarship ::
  "jsstring \<Rightarrow> ScholarshipReportCreate \<Rightarrow> jsstring \<Rightarrow> RequestOptions option" where
  "reportScholarship scholarshipId body idempotencyKey =
     map_option (\<lambda>p. options_of POST p (Some (BodyReport body)) (Some idempotencyKey))
       (id_path ''/scholarships/'' scholarshipId ''/reports'')"

definition listAdminScholarships :: "page_options \<Rightarrow> RequestOptions" where
  "listAdminScholarships options =
     options_of GET (pagePath (js ''/admin/scholarships'') options) None None"

definition getAdminScholarship :: "jsstring \<Rightarrow> RequestOptions option" where
  "getAdminScholarship scholarshipId =
     map_option (\<lambda>p. options_of GET p None None)
       (id_path ''/admin/scholarships/'' scholarshipId '''')"

definition createAdminScholarship ::
  "AdminScholarshipWrite \<Rightarrow> jsstring \<Rightarrow> RequestOptions" where
  "createAdminScholarship body idempotencyKey =
     options_of POST (js ''/admin/scholarships'') (Some (BodyAdminWrite body)) (Some idempotencyKey)"

definition updateAdminScholarship ::
  "jsstring \<Rightarrow> (jsstring \<rightharpoonup> json) \<Rightarrow> jsstring \<Rightarrow> RequestOptions option" where
  "updateAdminScholarship scholarshipId patch idempotencyKey =
     map_option (\<lambda>p. options_of PATCH p (Some (BodyAdminPatch patch)) (Some idempotencyKey))
       (id_path ''/admin/scholarships/'' scholarshipId '''')"

definition transitionAdminScholarship ::
  "jsstring \<Rightarrow> LifecycleAction \<Rightarrow> jsstring option \<Rightarrow> jsstring \<Rightarrow> RequestOptions option" where
  "transitionAdminScholarship scholarshipId action reviewer_notes idempotencyKey =
     map_option (\<lambda>p. options_of POST p (Some (BodyLifecycle action reviewer_notes)) (Some idempotencyKey))
       (id_path ''/admin/scholarships/'' scholarshipId ''/lifecycle'')"

definition replaceAdminScholarshipRequirements ::
  "jsstring \<Rightarrow> AdminRequirementSetWrite \<Rightarrow> jsstring \<Rightarrow> RequestOptions option" where
  "replaceAdminScholarshipRequirements scholarshipId body idempotencyKey =
     map_option (\<lambda>p. options_of PUT p (Some (BodyRequirements body)) (Some idempotencyKey))
       (id_path ''/admin/scholarships/'' scholarshipId ''/requirements'')"

definition previewAdminBulkAction :: "AdminBulkActionPreviewRequest \<Rightarrow> RequestOptions" where
  "previewAdminBulkAction body =
     options_of POST (js ''/admin/scholarships/bulk-preview'') (Some (BodyBulkPreview body)) None"

definition applyAdminBulkAction :: "jsstring \<Rightarrow> jsstring \<Rightarrow> RequestOptions" where
  "applyAdminBulkAction previewToken idempotencyKey =
     options_of POST (js ''/admin/scholarships/bulk-action'') (Some (BodyPreviewToken previewToken)) (Some idempotencyKey)"

definition undoAdminBulkAction ::
  "jsstring \<Rightarrow> jsstring \<Rightarrow> RequestOptions option" where
  "undoAdminBulkAction operationId idempotencyKey =
     map_option (\<lambda>p. options_of POST p None (Some idempotencyKey))
       (id_path ''/admin/scholarships/bulk-actions/'' operationId ''/undo'')"

definition listAdminDuplicateGroups :: "page_options \<Rightarrow> RequestOptions" where
  "listAdminDuplicateGroups options =
     options_of GET (pagePath (js ''/admin/duplicates'') options) None None"

definition mergeAdminDuplicateGroup ::
  "jsstring \<Rightarrow> AdminDuplicateMergeRequest \<Rightarrow> jsstring \<Rightarrow> RequestOptions option" where
  "mergeAdminDuplicateGroup duplicateId body idempotencyKey =
     map_option (\<lambda>p. options_of POST p (Some (BodyMerge body)) (Some idempotencyKey))
       (id_path ''/admin/duplicates/'' duplicateId ''/merge'')"

definition listAdminVerificationQueue :: "page_options \<Rightarrow> RequestOptions" where
  "listAdminVerificationQueue options =
     options_of GET (pagePath (js ''/admin/verification-queue'') options) None None"

definition verifyAdminScholarship ::
  "jsstring \<Rightarrow> AdminVerificationWrite \<Rightarrow> jsstring \<Rightarrow> RequestOptions option" where
  "verifyAdminScholarship scholarshipId body idempotencyKey =
     map_option (\<lambda>p. options_of POST p (Some (BodyVerification body)) (Some idempotencyKey))
       (id_path ''/admin/verification-queue/'' scholarshipId ''/verify'')"

definition listAdminAuditEvents :: "page_options \<Rightarrow> RequestOptions" where
  "listAdminAuditEvents options =
     options_of GET (pagePath (js ''/admin/audit-events'') options) None None"

definition listIngestionRuns :: "page_options \<Rightarrow> RequestOptions" where
  "listIngestionRuns options =
     options_of GET (pagePath (js ''/admin/ingestion-runs'') options) None None"

definition getIngestionRun :: "jsstring \<Rightarrow> RequestOptions option" where
  "getIngestionRun runId =
     map_option (\<lambda>p. options_of GET p None None)
       (id_path ''/admin/ingestion-runs/'' runId '''')"

definition createIngestionRun ::
  "IngestionRunCreate \<Rightarrow> jsstring \<Rightarrow> RequestOptions" where
  "createIngestionRun body idempotencyKey =
     options_of POST (js ''/admin/ingestion-runs'') (Some (BodyIngestionRun body)) (Some idempotencyKey)"

definition retryIngestionRun ::
  "jsstring \<Rightarrow> jsstring \<Rightarrow> RequestOptions option" where
  "retryIngestionRun runId idempotencyKey =
     map_option (\<lambda>p. options_of POST p None (Some idempotencyKey))
       (id_path ''/admin/ingestion-runs/'' runId ''/retry'')"

section \<open>The two constructors\<close>

text \<open>The browser reads the token from the live session; the server has it in hand.\<close>

record auth_session =
  access_token :: jsstring

definition createBrowserApiClient :: "auth_session option \<Rightarrow> token_answer" where
  "createBrowserApiClient session = Token (map_option access_token session)"

definition createServerApiClient :: "jsstring \<Rightarrow> token_answer" where
  "createServerApiClient accessToken = Token (Some accessToken)"

section \<open>Lemmas\<close>

lemma header_names [simp]:
  "js ''Accept'' \<noteq> js ''Idempotency-Key''" "js ''Accept'' \<noteq> js ''Authorization''"
  "js ''Authorization'' \<noteq> js ''Idempotency-Key''" "js ''Content-Type'' \<noteq> js ''Idempotency-Key''"
  "js ''Content-Type'' \<noteq> js ''Authorization''"
  by simp_all

lemma request_headers_key:
  "map_of (request_headers token options) (js ''Idempotency-Key'') = non_empty (ro_idempotencyKey options)"
  by (auto simp: request_headers_def Let_def split: option.split)

lemma request_headers_token:
  "map_of (request_headers token options) (js ''Authorization'') =
     map_option ((@) (js ''Bearer '')) (non_empty token)"
  by (auto simp: request_headers_def Let_def split: option.split)

lemma request_sent:
  assumes "wire \<in> set (fst (request pl baseUrl options))"
  obtains token where "getAccessToken pl = Token token" and "wire = request_wire baseUrl token options"
    and "fst (request pl baseUrl options) = [wire]"
    and "ro_requireAuth options \<Longrightarrow> non_empty token \<noteq> None"
  using assms by (auto simp: request_def Let_def split: token_answer.splits if_splits)

lemma request_result_failures:
  "request_result pl answer = Inl e \<Longrightarrow>
     (\<exists>a. e = Api_Error a \<and>
        (answer = Fetch_Throws False \<and> err_kind a = Offline \<or> answer = Fetch_Throws True \<and> err_kind a = Unknown \<or>
         (\<exists>r. answer = Fetched r \<and> \<not> response_ok (res_status r) \<and> err_kind a = kindForStatus (res_status r)))) \<or>
     (\<exists>r. answer = Fetched r \<and> response_ok (res_status r) \<and> res_status r \<noteq> 204 \<and>
        (e = Body_Error \<and> res_text r = None \<or>
         e = Syntax_Error \<and> (\<exists>t. res_text r = Some t \<and> t \<noteq> [] \<and> json_parse pl t = None)))"
  by (auto simp: request_result_def apiErrorFromNetwork_def split: fetch_answer.splits if_splits option.splits)

text \<open>A path that is a template around one identifier reads back as its segments.\<close>

definition segments :: "jsstring \<Rightarrow> jsstring option list" where
  "segments path = map form_decode (split_on 0x2F (takeWhile (\<lambda>u. u \<noteq> 0x3F) path))"

lemma split_on_nonempty [simp]: "split_on d s \<noteq> []"
  by (cases s) (auto split: list.split)

lemma split_on_join: "split_on d (s @ d # t) = split_on d s @ split_on d t"
proof (induction s)
  case (Cons u s)
  then show ?case
    using split_on_nonempty [of d s] by (auto split: list.split simp: Cons_eq_append_conv)
qed simp

lemma segments_join:
  assumes "0x3F \<notin> set s"
  shows "segments (s @ 0x2F # t) = segments s @ segments t"
proof -
  have "takeWhile (\<lambda>u. u \<noteq> 0x3F) s = s"
    unfolding takeWhile_eq_all_conv using assms by auto
  moreover have "takeWhile (\<lambda>u. u \<noteq> 0x3F) (s @ 0x2F # t) = s @ 0x2F # takeWhile (\<lambda>u. u \<noteq> 0x3F) t"
    using assms by (subst takeWhile_append2) auto
  ultimately show ?thesis
    by (simp add: segments_def split_on_join del: takeWhile_eq_all_conv)
qed

lemma segments_encoded:
  assumes "encodeURIComponent i = Some e"
  shows "segments e = [Some i]"
proof -
  have "takeWhile (\<lambda>u. u \<noteq> 0x3F) e = e"
    unfolding takeWhile_eq_all_conv using encodeURIComponent_separators [OF assms] by auto
  then show ?thesis
    unfolding segments_def
    by (simp add: split_on_none encodeURIComponent_separators [OF assms] form_decode_component [OF assms]
        del: takeWhile_eq_all_conv)
qed

text \<open>What a request's path says to a server that splits it and decodes each segment.\<close>

definition reads_as :: "RequestOptions option \<Rightarrow> jsstring list \<Rightarrow> bool" where
  "reads_as r parts \<longleftrightarrow> (\<exists>ro. r = Some ro \<and> segments (ro_path ro) = map Some parts)"

definition plain :: "string \<Rightarrow> jsstring list \<Rightarrow> bool" where
  "plain b parts \<longleftrightarrow> list_all (\<lambda>u. u \<noteq> 0x3F) (js b) \<and> segments (js b) = map Some parts"

lemma plainD: "plain b parts \<Longrightarrow> 0x3F \<notin> set (js b) \<and> segments (js b) = map Some parts"
  by (auto simp: plain_def list_all_iff)

lemma reads_as_end:
  assumes "well_formed i" and "plain b parts"
  shows "reads_as (map_option (\<lambda>p. options_of m p body key) (id_path (b @ ''/'') i [])) (parts @ [i])"
proof -
  obtain e where e: "encodeURIComponent i = Some e"
    using assms(1) by (auto simp: encodeURIComponent_def)
  then have "segments (js b @ 0x2F # e) = map Some (parts @ [i])"
    using plainD [OF assms(2)] by (simp add: segments_join segments_encoded)
  moreover have "js (b @ ''/'') @ e @ js [] = js b @ 0x2F # e"
    by (simp add: js_def)
  ultimately show ?thesis
    by (simp add: reads_as_def id_path_def options_of_def e)
qed

lemma reads_as_middle:
  assumes "well_formed i" and "plain b parts" and "plain a rest"
  shows "reads_as (map_option (\<lambda>p. options_of m p body key) (id_path (b @ ''/'') i (''/'' @ a)))
    (parts @ i # rest)"
proof -
  obtain e where e: "encodeURIComponent i = Some e"
    using assms(1) by (auto simp: encodeURIComponent_def)
  have "segments (js b @ 0x2F # e @ 0x2F # js a) = segments (js b) @ segments e @ segments (js a)"
    using plainD [OF assms(2)] encodeURIComponent_separators(2) [OF e] by (simp add: segments_join)
  also have "\<dots> = map Some (parts @ i # rest)"
    using plainD [OF assms(2)] plainD [OF assms(3)] by (simp add: segments_encoded [OF e])
  finally have "segments (js b @ 0x2F # e @ 0x2F # js a) = map Some (parts @ i # rest)" .
  moreover have "js (b @ ''/'') @ e @ js (''/'' @ a) = js b @ 0x2F # e @ 0x2F # js a"
    by (simp add: js_def)
  ultimately show ?thesis
    by (simp add: reads_as_def id_path_def options_of_def e)
qed

text \<open>Fixed parts of a path hold ASCII text without escapes; they split at their slashes.\<close>

fun split_text :: "char \<Rightarrow> string \<Rightarrow> string list" where
  "split_text d [] = [[]]"
| "split_text d (c # s) =
     (if c = d then [] # split_text d s
      else (case split_text d s of p # ps \<Rightarrow> (c # p) # ps | [] \<Rightarrow> [[c]]))"

definition safe_char :: "char \<Rightarrow> bool" where
  "safe_char c \<longleftrightarrow> (of_char c :: nat) < 128 \<and> c \<notin> {CHR ''+'', CHR ''%'', CHR ''?''}"

lemma split_on_js: "split_on (of_char d) (js s) = map js (split_text d s)"
  by (induction s) (auto simp: js_Cons split: list.split)

lemma form_bytes_js:
  "list_all safe_char s \<Longrightarrow> form_bytes (js s) = map of_char s"
proof (induction s)
  case (Cons c s)
  have "(of_char c :: code_unit) \<noteq> of_char CHR ''+''" "(of_char c :: code_unit) \<noteq> of_char CHR ''%''"
    unfolding of_char_unit_inject using Cons.prems by (auto simp: safe_char_def)
  with Cons show ?case
    by (simp add: js_Cons unat_of_char)
qed simp

lemma utf8_decode_ascii: "list_all (\<lambda>b. b < 128) bs \<Longrightarrow> utf8_decode bs = Some bs"
  by (induction bs) (simp_all add: utf8_decode_1 del: utf8_decode.simps(2))

lemma form_decode_js: "list_all safe_char s \<Longrightarrow> form_decode (js s) = Some (js s)"
proof -
  assume s: "list_all safe_char s"
  then have "list_all (\<lambda>b. b < 128) (map of_char s :: nat list)"
    by (auto simp: list_all_iff safe_char_def)
  then have "form_decode (js s) = Some (concat (map (\<lambda>c. units_of (of_char c)) s))"
    by (simp add: form_decode_def form_bytes_js s utf8_decode_ascii comp_def)
  also have "concat (map (\<lambda>c. units_of (of_char c)) s) = js s"
  proof -
    have "units_of (of_char c) = [of_char c]" for c
      using units_of_unat [of "of_char c"] by (simp add: unat_of_char)
    then show ?thesis by (simp add: js_def concat_map_singleton)
  qed
  finally show ?thesis .
qed

lemma split_text_safe: "list_all safe_char s \<Longrightarrow> p \<in> set (split_text d s) \<Longrightarrow> list_all safe_char p"
  by (induction s arbitrary: p) (fastforce split: list.splits if_splits)+

lemma plain_split:
  assumes s: "list_all safe_char s"
  shows "plain s (map js (split_text CHR ''/'' s))"
proof -
  have mark: "of_char CHR ''?'' = (0x3F :: code_unit)" "of_char CHR ''/'' = (0x2F :: code_unit)"
    by simp_all
  have "\<forall>u \<in> set (js s). u \<noteq> of_char CHR ''?''"
    using s by (simp only: js_def list_all_iff set_map ball_simps of_char_unit_inject) (auto simp: safe_char_def)
  then have q: "\<forall>u \<in> set (js s). u \<noteq> 0x3F"
    unfolding mark .
  then have "takeWhile (\<lambda>u. u \<noteq> 0x3F) (js s) = js s"
    by (subst takeWhile_eq_all_conv)
  then have "segments (js s) = map form_decode (split_on 0x2F (js s))"
    by (simp only: segments_def)
  also have "\<dots> = map form_decode (map js (split_text CHR ''/'' s))"
    using split_on_js [of "CHR ''/''" s] unfolding mark by (simp only:)
  also have "\<dots> = map Some (map js (split_text CHR ''/'' s))"
    unfolding map_map comp_def by (rule map_cong [OF refl], rule form_decode_js, rule split_text_safe [OF s])
  finally have "segments (js s) = map Some (map js (split_text CHR ''/'' s))" .
  then show ?thesis
    using q by (simp only: plain_def list_all_iff simp_thms)
qed

lemma plain_paths:
  "plain ''/matches'' [[], js ''matches'']"
  "plain ''/matches/recalculation-jobs'' [[], js ''matches'', js ''recalculation-jobs'']"
  "plain ''/applications'' [[], js ''applications'']"
  "plain ''/profile/documents'' [[], js ''profile'', js ''documents'']"
  "plain ''/scholarships'' [[], js ''scholarships'']"
  "plain ''/admin/scholarships'' [[], js ''admin'', js ''scholarships'']"
  "plain ''/admin/scholarships/bulk-actions'' [[], js ''admin'', js ''scholarships'', js ''bulk-actions'']"
  "plain ''/admin/duplicates'' [[], js ''admin'', js ''duplicates'']"
  "plain ''/admin/verification-queue'' [[], js ''admin'', js ''verification-queue'']"
  "plain ''/admin/ingestion-runs'' [[], js ''admin'', js ''ingestion-runs'']"
  "plain ''feedback'' [js ''feedback'']"
  "plain ''reminder'' [js ''reminder'']"
  "plain ''download-url'' [js ''download-url'']"
  "plain ''saved'' [js ''saved'']"
  "plain ''reports'' [js ''reports'']"
  "plain ''lifecycle'' [js ''lifecycle'']"
  "plain ''requirements'' [js ''requirements'']"
  "plain ''undo'' [js ''undo'']"
  "plain ''merge'' [js ''merge'']"
  "plain ''verify'' [js ''verify'']"
  "plain ''retry'' [js ''retry'']"
proof -
  show "plain ''/matches'' [[], js ''matches'']"
    using plain_split [of "''/matches''"] by (simp add: safe_char_def)
  show "plain ''/matches/recalculation-jobs'' [[], js ''matches'', js ''recalculation-jobs'']"
    using plain_split [of "''/matches/recalculation-jobs''"] by (simp add: safe_char_def)
  show "plain ''/applications'' [[], js ''applications'']"
    using plain_split [of "''/applications''"] by (simp add: safe_char_def)
  show "plain ''/profile/documents'' [[], js ''profile'', js ''documents'']"
    using plain_split [of "''/profile/documents''"] by (simp add: safe_char_def)
  show "plain ''/scholarships'' [[], js ''scholarships'']"
    using plain_split [of "''/scholarships''"] by (simp add: safe_char_def)
  show "plain ''/admin/scholarships'' [[], js ''admin'', js ''scholarships'']"
    using plain_split [of "''/admin/scholarships''"] by (simp add: safe_char_def)
  show "plain ''/admin/scholarships/bulk-actions'' [[], js ''admin'', js ''scholarships'', js ''bulk-actions'']"
    using plain_split [of "''/admin/scholarships/bulk-actions''"] by (simp add: safe_char_def)
  show "plain ''/admin/duplicates'' [[], js ''admin'', js ''duplicates'']"
    using plain_split [of "''/admin/duplicates''"] by (simp add: safe_char_def)
  show "plain ''/admin/verification-queue'' [[], js ''admin'', js ''verification-queue'']"
    using plain_split [of "''/admin/verification-queue''"] by (simp add: safe_char_def)
  show "plain ''/admin/ingestion-runs'' [[], js ''admin'', js ''ingestion-runs'']"
    using plain_split [of "''/admin/ingestion-runs''"] by (simp add: safe_char_def)
  show "plain ''feedback'' [js ''feedback'']"
    using plain_split [of "''feedback''"] by (simp add: safe_char_def)
  show "plain ''reminder'' [js ''reminder'']"
    using plain_split [of "''reminder''"] by (simp add: safe_char_def)
  show "plain ''download-url'' [js ''download-url'']"
    using plain_split [of "''download-url''"] by (simp add: safe_char_def)
  show "plain ''saved'' [js ''saved'']"
    using plain_split [of "''saved''"] by (simp add: safe_char_def)
  show "plain ''reports'' [js ''reports'']"
    using plain_split [of "''reports''"] by (simp add: safe_char_def)
  show "plain ''lifecycle'' [js ''lifecycle'']"
    using plain_split [of "''lifecycle''"] by (simp add: safe_char_def)
  show "plain ''requirements'' [js ''requirements'']"
    using plain_split [of "''requirements''"] by (simp add: safe_char_def)
  show "plain ''undo'' [js ''undo'']"
    using plain_split [of "''undo''"] by (simp add: safe_char_def)
  show "plain ''merge'' [js ''merge'']"
    using plain_split [of "''merge''"] by (simp add: safe_char_def)
  show "plain ''verify'' [js ''verify'']"
    using plain_split [of "''verify''"] by (simp add: safe_char_def)
  show "plain ''retry'' [js ''retry'']"
    using plain_split [of "''retry''"] by (simp add: safe_char_def)
qed

lemma reads_as_ends:
  assumes "well_formed i"
  shows
    "reads_as (getMatch i) [[], js ''matches'', i]"
    "reads_as (getMatchRecalculationJob i) [[], js ''matches'', js ''recalculation-jobs'', i]"
    "reads_as (updateApplication i update key) [[], js ''applications'', i]"
    "reads_as (renameDocument i name key) [[], js ''profile'', js ''documents'', i]"
    "reads_as (deleteDocument i key) [[], js ''profile'', js ''documents'', i]"
    "reads_as (getScholarship i) [[], js ''scholarships'', i]"
    "reads_as (getAdminScholarship i) [[], js ''admin'', js ''scholarships'', i]"
    "reads_as (updateAdminScholarship i patch key) [[], js ''admin'', js ''scholarships'', i]"
    "reads_as (getIngestionRun i) [[], js ''admin'', js ''ingestion-runs'', i]"
proof -
  show "reads_as (getMatch i) [[], js ''matches'', i]"
    unfolding getMatch_def by (rule reads_as_end [OF assms plain_paths(1), unfolded append_Cons append_Nil])
  show "reads_as (getMatchRecalculationJob i) [[], js ''matches'', js ''recalculation-jobs'', i]"
    unfolding getMatchRecalculationJob_def by (rule reads_as_end [OF assms plain_paths(2), unfolded append_Cons append_Nil])
  show "reads_as (updateApplication i update key) [[], js ''applications'', i]"
    unfolding updateApplication_def by (rule reads_as_end [OF assms plain_paths(3), unfolded append_Cons append_Nil])
  show "reads_as (renameDocument i name key) [[], js ''profile'', js ''documents'', i]"
    unfolding renameDocument_def by (rule reads_as_end [OF assms plain_paths(4), unfolded append_Cons append_Nil])
  show "reads_as (deleteDocument i key) [[], js ''profile'', js ''documents'', i]"
    unfolding deleteDocument_def by (rule reads_as_end [OF assms plain_paths(4), unfolded append_Cons append_Nil])
  show "reads_as (getScholarship i) [[], js ''scholarships'', i]"
    unfolding getScholarship_def by (rule reads_as_end [OF assms plain_paths(5), unfolded append_Cons append_Nil])
  show "reads_as (getAdminScholarship i) [[], js ''admin'', js ''scholarships'', i]"
    unfolding getAdminScholarship_def by (rule reads_as_end [OF assms plain_paths(6), unfolded append_Cons append_Nil])
  show "reads_as (updateAdminScholarship i patch key) [[], js ''admin'', js ''scholarships'', i]"
    unfolding updateAdminScholarship_def by (rule reads_as_end [OF assms plain_paths(6), unfolded append_Cons append_Nil])
  show "reads_as (getIngestionRun i) [[], js ''admin'', js ''ingestion-runs'', i]"
    unfolding getIngestionRun_def by (rule reads_as_end [OF assms plain_paths(10), unfolded append_Cons append_Nil])
qed

lemma reads_as_middles:
  assumes "well_formed i"
  shows
    "reads_as (createMatchFeedback i feedback key) [[], js ''matches'', i, js ''feedback'']"
    "reads_as (setApplicationReminder i reminder key) [[], js ''applications'', i, js ''reminder'']"
    "reads_as (deleteApplicationReminder i key) [[], js ''applications'', i, js ''reminder'']"
    "reads_as (createDocumentDownloadUrl i key) [[], js ''profile'', js ''documents'', i, js ''download-url'']"
    "reads_as (setScholarshipSaved i saved) [[], js ''scholarships'', i, js ''saved'']"
    "reads_as (reportScholarship i report key) [[], js ''scholarships'', i, js ''reports'']"
    "reads_as (transitionAdminScholarship i action notes key) [[], js ''admin'', js ''scholarships'', i, js ''lifecycle'']"
    "reads_as (replaceAdminScholarshipRequirements i reqs key) [[], js ''admin'', js ''scholarships'', i, js ''requirements'']"
    "reads_as (undoAdminBulkAction i key) [[], js ''admin'', js ''scholarships'', js ''bulk-actions'', i, js ''undo'']"
    "reads_as (mergeAdminDuplicateGroup i merge key) [[], js ''admin'', js ''duplicates'', i, js ''merge'']"
    "reads_as (verifyAdminScholarship i verification key) [[], js ''admin'', js ''verification-queue'', i, js ''verify'']"
    "reads_as (retryIngestionRun i key) [[], js ''admin'', js ''ingestion-runs'', i, js ''retry'']"
proof -
  show "reads_as (createMatchFeedback i feedback key) [[], js ''matches'', i, js ''feedback'']"
    unfolding createMatchFeedback_def
    by (rule reads_as_middle [OF assms plain_paths(1) plain_paths(11), unfolded append_Cons append_Nil])
  show "reads_as (setApplicationReminder i reminder key) [[], js ''applications'', i, js ''reminder'']"
    unfolding setApplicationReminder_def
    by (rule reads_as_middle [OF assms plain_paths(3) plain_paths(12), unfolded append_Cons append_Nil])
  show "reads_as (deleteApplicationReminder i key) [[], js ''applications'', i, js ''reminder'']"
    unfolding deleteApplicationReminder_def
    by (rule reads_as_middle [OF assms plain_paths(3) plain_paths(12), unfolded append_Cons append_Nil])
  show "reads_as (createDocumentDownloadUrl i key) [[], js ''profile'', js ''documents'', i, js ''download-url'']"
    unfolding createDocumentDownloadUrl_def
    by (rule reads_as_middle [OF assms plain_paths(4) plain_paths(13), unfolded append_Cons append_Nil])
  show "reads_as (setScholarshipSaved i saved) [[], js ''scholarships'', i, js ''saved'']"
    unfolding setScholarshipSaved_def
    by (rule reads_as_middle [OF assms plain_paths(5) plain_paths(14), unfolded append_Cons append_Nil])
  show "reads_as (reportScholarship i report key) [[], js ''scholarships'', i, js ''reports'']"
    unfolding reportScholarship_def
    by (rule reads_as_middle [OF assms plain_paths(5) plain_paths(15), unfolded append_Cons append_Nil])
  show "reads_as (transitionAdminScholarship i action notes key) [[], js ''admin'', js ''scholarships'', i, js ''lifecycle'']"
    unfolding transitionAdminScholarship_def
    by (rule reads_as_middle [OF assms plain_paths(6) plain_paths(16), unfolded append_Cons append_Nil])
  show "reads_as (replaceAdminScholarshipRequirements i reqs key) [[], js ''admin'', js ''scholarships'', i, js ''requirements'']"
    unfolding replaceAdminScholarshipRequirements_def
    by (rule reads_as_middle [OF assms plain_paths(6) plain_paths(17), unfolded append_Cons append_Nil])
  show "reads_as (undoAdminBulkAction i key) [[], js ''admin'', js ''scholarships'', js ''bulk-actions'', i, js ''undo'']"
    unfolding undoAdminBulkAction_def
    by (rule reads_as_middle [OF assms plain_paths(7) plain_paths(18), unfolded append_Cons append_Nil])
  show "reads_as (mergeAdminDuplicateGroup i merge key) [[], js ''admin'', js ''duplicates'', i, js ''merge'']"
    unfolding mergeAdminDuplicateGroup_def
    by (rule reads_as_middle [OF assms plain_paths(8) plain_paths(19), unfolded append_Cons append_Nil])
  show "reads_as (verifyAdminScholarship i verification key) [[], js ''admin'', js ''verification-queue'', i, js ''verify'']"
    unfolding verifyAdminScholarship_def
    by (rule reads_as_middle [OF assms plain_paths(9) plain_paths(20), unfolded append_Cons append_Nil])
  show "reads_as (retryIngestionRun i key) [[], js ''admin'', js ''ingestion-runs'', i, js ''retry'']"
    unfolding retryIngestionRun_def
    by (rule reads_as_middle [OF assms plain_paths(10) plain_paths(21), unfolded append_Cons append_Nil])
qed

lemma reads_as_checklist:
  assumes "well_formed i" and "well_formed c"
  shows "reads_as (updateApplicationChecklistItem i c body key)
    [[], js ''applications'', i, js ''checklist'', c]"
proof -
  obtain a b where a: "encodeURIComponent i = Some a" and b: "encodeURIComponent c = Some b"
    using assms by (auto simp: encodeURIComponent_def)
  note p = plainD [OF plain_paths(3)]
  have k: "0x3F \<notin> set (js ''checklist'') \<and> segments (js ''checklist'') = map Some [js ''checklist'']"
    by (rule plainD) (use plain_split [of "''checklist''"] in \<open>simp add: safe_char_def\<close>)
  have "segments (js ''/applications'' @ 0x2F # a @ 0x2F # js ''checklist'' @ 0x2F # b) =
      segments (js ''/applications'') @ segments a @ segments (js ''checklist'') @ segments b"
    using p k encodeURIComponent_separators(2) [OF a] by (simp add: segments_join)
  also have "\<dots> = map Some [[], js ''applications'', i, js ''checklist'', c]"
    using p k by (simp add: segments_encoded [OF a] segments_encoded [OF b])
  finally have "segments (js ''/applications'' @ 0x2F # a @ 0x2F # js ''checklist'' @ 0x2F # b) = \<dots>" .
  moreover have "js ''/applications/'' @ a @ js ''/checklist/'' @ b =
      js ''/applications'' @ 0x2F # a @ 0x2F # js ''checklist'' @ 0x2F # b"
    by (simp add: js_def)
  ultimately have "segments (js ''/applications/'' @ a @ js ''/checklist/'' @ b) =
      map Some [[], js ''applications'', i, js ''checklist'', c]"
    by (simp only:)
  then show ?thesis
    by (simp add: reads_as_def updateApplicationChecklistItem_def options_of_def a b)
qed

section \<open>Properties\<close>

text \<open>
  C4: Nothing leaves the client without a bearer token, and the requests of a signed-in student
  carry exactly that token and the caller's idempotency key: a request goes out at most once.
\<close>

theorem request_authenticated:
  assumes "ro_requireAuth options" and "wire \<in> set (fst (request pl baseUrl options))"
  shows "fst (request pl baseUrl options) = [wire] \<and>
    (\<exists>token. getAccessToken pl = Token (Some token) \<and> token \<noteq> [] \<and>
       map_of (wire_headers wire) (js ''Authorization'') = Some (js ''Bearer '' @ token)) \<and>
    map_of (wire_headers wire) (js ''Idempotency-Key'') = non_empty (ro_idempotencyKey options) \<and>
    wire_method wire = ro_method options \<and> wire_body wire = ro_body options"
  using assms(2)
proof (rule request_sent)
  fix token
  assume t: "getAccessToken pl = Token token" and w: "wire = request_wire baseUrl token options"
    and one: "fst (request pl baseUrl options) = [wire]"
    and auth: "ro_requireAuth options \<Longrightarrow> non_empty token \<noteq> None"
  from auth [OF assms(1)] obtain s where "token = Some s" "s \<noteq> []"
    by (auto simp: non_empty_Some)
  with t one show ?thesis
    by (simp add: w request_wire_def request_headers_key request_headers_token non_empty_Some
        non_empty_def neq_Nil_conv split: option.split list.split)
qed

theorem request_authenticated_witness:
  "\<exists>wire. wire \<in> set (fst (request
      \<lparr>getAccessToken = Token (Some (js ''tok'')), fetch = (\<lambda>_. Fetch_Throws False), json_parse = (\<lambda>_. None :: unit option)\<rparr>
      (js ''/api'') (recalculateMatches (js ''k1'')))) \<and>
    map_of (wire_headers wire) (js ''Idempotency-Key'') = Some (js ''k1'')"
proof -
  let ?pl = "\<lparr>getAccessToken = Token (Some (js ''tok'')), fetch = (\<lambda>_. Fetch_Throws False), json_parse = (\<lambda>_. None :: unit option)\<rparr>"
  let ?o = "recalculateMatches (js ''k1'')"
  have "non_empty (Some (js ''tok'')) \<noteq> None" "non_empty (Some (js ''k1'')) = Some (js ''k1'')"
    by (simp_all add: js_Cons non_empty_def)
  moreover have "ro_requireAuth ?o" "ro_idempotencyKey ?o = Some (js ''k1'')"
    by (simp_all add: recalculateMatches_def options_of_def)
  moreover from calculation have "request_wire (js ''/api'') (Some (js ''tok'')) ?o \<in> set (fst (request ?pl (js ''/api'') ?o))"
    by (simp add: request_def Let_def)
  ultimately show ?thesis
    using request_authenticated [of ?o _ ?pl "js ''/api''"] by metis
qed





text \<open>
  The cursor and the limit of a page request survive the query string, whatever characters
  the cursor holds, and the path before the question mark is untouched.
\<close>

theorem page_path_reads_back:
  assumes "0x3F \<notin> set path" and "\<forall>c. po_cursor options = Some c \<longrightarrow> well_formed c"
  shows "takeWhile (\<lambda>u. u \<noteq> 0x3F) (pagePath path options) = path \<and>
    params_get (parse_params (drop (Suc (length path)) (pagePath path options))) (js ''cursor'') =
      non_empty (po_cursor options) \<and>
    params_get (parse_params (drop (Suc (length path)) (pagePath path options))) (js ''limit'') =
      map_option js_of_nat (po_limit options)"
proof -
  define ps where "ps = (case po_limit options of Some n \<Rightarrow> [(js ''limit'', js_of_nat n)] | None \<Rightarrow> []) @
    (case non_empty (po_cursor options) of Some c \<Rightarrow> [(js ''cursor'', c)] | None \<Rightarrow> [])"
  have path: "pagePath path options = with_query path (params_string ps)"
    by (auto simp: pagePath_def ps_def split: option.split)
  have "well_formed c" if "non_empty (po_cursor options) = Some c" for c
    using assms(2) that by (simp add: non_empty_Some)
  then have "\<forall>(k, v) \<in> set ps. well_formed k \<and> well_formed v"
    by (auto simp: ps_def js_of_nat_def split: option.split)
  then have read: "parse_params (params_string ps) = ps"
    by (rule parse_params_string)
  have id: "takeWhile (\<lambda>u. u \<noteq> 0x3F) path = path"
    unfolding takeWhile_eq_all_conv using assms(1) by auto
  have q: "js ''?'' = [0x3F]"
    by (simp add: js_def)
  have stop: "takeWhile (\<lambda>u. u \<noteq> 0x3F) (path @ 0x3F # r) = path" for r
    using assms(1) by (subst takeWhile_append2) auto
  have "takeWhile (\<lambda>u. u \<noteq> 0x3F) (pagePath path options) = path"
    by (simp add: path with_query_def q id stop del: takeWhile_eq_all_conv)
  moreover have "parse_params (drop (Suc (length path)) (pagePath path options)) = ps"
  proof (cases "params_string ps = []")
    case True
    with read have "ps = []"
      by (simp add: parse_params_def map_filter_def)
    then show ?thesis
      by (simp add: path with_query_def parse_params_def map_filter_def)
  next
    case False
    then show ?thesis
      by (simp add: path with_query_def q read)
  qed
  moreover have "params_get ps (js ''cursor'') = non_empty (po_cursor options)"
    and "params_get ps (js ''limit'') = map_option js_of_nat (po_limit options)"
    by (auto simp: ps_def params_get_def split: option.split)
  ultimately show ?thesis by simp
qed


theorem page_path_reads_back_witness:
  "params_get (parse_params (drop (Suc (length (js ''/applications'')))
     (pagePath (js ''/applications'') \<lparr>po_limit = Some 20, po_cursor = Some (js ''a&b=c'')\<rparr>))) (js ''cursor'') =
   Some (js ''a&b=c'')"
proof -
  have "0x3F \<notin> set (js ''/applications'')"
    by code_simp
  moreover have "non_empty (Some (js ''a&b=c'')) = Some (js ''a&b=c'')"
    by (simp add: non_empty_Some)
  ultimately show ?thesis
    using page_path_reads_back [of "js ''/applications''" "\<lparr>po_limit = Some 20, po_cursor = Some (js ''a&b=c'')\<rparr>"]
    by simp
qed

end
