(* ===== verification/Onboarding_Wizard.thy ===== *)
theory Onboarding_Wizard
  imports Onboarding_Model Api_Client
begin

text \<open>
  The wizard as a state machine: \<^verbatim>\<open>onboarding-wizard.tsx\<close>, the progress indicator and the
  URL-backed navigation of \<^verbatim>\<open>onboarding-client.tsx\<close>.  A state is what the component keeps
  between renders; an event is one handler call, one settled promise or one change of the
  URL; a transition returns the next state and the effects it has outside the component.
  The answers of the fields are the patches of \<^verbatim>\<open>step-views.tsx\<close>.
\<close>

section \<open>Answers\<close>

datatype draft_patch =
    Patch_Consent bool jsstring
  | Patch_Full_Name jsstring
  | Patch_Preferred_Name jsstring
  | Patch_Pronouns "jsstring Disclosure"
  | Patch_Country jsstring
  | Patch_Nationality "jsstring Disclosure"
  | Patch_Study_Level ScholarshipStudyLevel
  | Patch_Field jsstring
  | Patch_Undecided bool
  | Patch_Gpa "number Disclosure"
  | Patch_Scale_Note jsstring
  | Patch_Interests "jsstring list"
  | Patch_Goals jsstring
  | Patch_Experience ExperienceStatus
  | Patch_Experience_Summary jsstring
  | Patch_Accommodations "jsstring Disclosure"
  | Patch_Contact ContactPreference

fun apply_patch :: "draft_patch \<Rightarrow> OnboardingDraft \<Rightarrow> OnboardingDraft" where
  "apply_patch (Patch_Consent checked now) d =
     d\<lparr>consentAccepted := Some checked, consentAcceptedAt := (if checked then Some now else None)\<rparr>"
| "apply_patch (Patch_Full_Name v) d = d\<lparr>fullName := Some v\<rparr>"
| "apply_patch (Patch_Preferred_Name v) d = d\<lparr>preferredName := Some v\<rparr>"
| "apply_patch (Patch_Pronouns v) d = d\<lparr>pronouns := Some v\<rparr>"
| "apply_patch (Patch_Country v) d = d\<lparr>countryOfResidence := Some v\<rparr>"
| "apply_patch (Patch_Nationality v) d = d\<lparr>nationality := Some v\<rparr>"
| "apply_patch (Patch_Study_Level v) d = d\<lparr>studyLevel := Some v\<rparr>"
| "apply_patch (Patch_Field v) d = d\<lparr>fieldOfStudy := Some v\<rparr>"
| "apply_patch (Patch_Undecided checked) d =
     d\<lparr>fieldOfStudyUndecided := Some checked, fieldOfStudy := (if checked then Some [] else fieldOfStudy d)\<rparr>"
| "apply_patch (Patch_Gpa v) d = d\<lparr>gpa := Some v\<rparr>"
| "apply_patch (Patch_Scale_Note v) d = d\<lparr>gradingScaleNote := Some v\<rparr>"
| "apply_patch (Patch_Interests v) d = d\<lparr>interests := Some v\<rparr>"
| "apply_patch (Patch_Goals v) d = d\<lparr>goals := Some v\<rparr>"
| "apply_patch (Patch_Experience v) d = d\<lparr>experienceStatus := Some v\<rparr>"
| "apply_patch (Patch_Experience_Summary v) d = d\<lparr>experienceSummary := Some v\<rparr>"
| "apply_patch (Patch_Accommodations v) d = d\<lparr>accommodations := Some v\<rparr>"
| "apply_patch (Patch_Contact v) d = d\<lparr>contactPreference := Some v\<rparr>"

fun patch_keys :: "draft_patch \<Rightarrow> jsstring list" where
  "patch_keys (Patch_Consent _ _) = [js ''consentAccepted'', js ''consentAcceptedAt'']"
| "patch_keys (Patch_Full_Name _) = [js ''fullName'']"
| "patch_keys (Patch_Preferred_Name _) = [js ''preferredName'']"
| "patch_keys (Patch_Pronouns _) = [js ''pronouns'']"
| "patch_keys (Patch_Country _) = [js ''countryOfResidence'']"
| "patch_keys (Patch_Nationality _) = [js ''nationality'']"
| "patch_keys (Patch_Study_Level _) = [js ''studyLevel'']"
| "patch_keys (Patch_Field _) = [js ''fieldOfStudy'']"
| "patch_keys (Patch_Undecided _) = [js ''fieldOfStudyUndecided'', js ''fieldOfStudy'']"
| "patch_keys (Patch_Gpa _) = [js ''gpa'']"
| "patch_keys (Patch_Scale_Note _) = [js ''gradingScaleNote'']"
| "patch_keys (Patch_Interests _) = [js ''interests'']"
| "patch_keys (Patch_Goals _) = [js ''goals'']"
| "patch_keys (Patch_Experience _) = [js ''experienceStatus'']"
| "patch_keys (Patch_Experience_Summary _) = [js ''experienceSummary'']"
| "patch_keys (Patch_Accommodations _) = [js ''accommodations'']"
| "patch_keys (Patch_Contact _) = [js ''contactPreference'']"

section \<open>State\<close>

datatype SaveState = Save_Idle | Saving | Save_Done | Save_Local_Only

text \<open>A submission waits for the profile request, then for the store to be cleared.\<close>

datatype submission = Not_Submitting | Posting ProfileWrite | Clearing

text \<open>
  \<open>wz_advancing\<close> is the draft and the step that are being persisted; \<open>advancing\<close> in the code is
  true exactly while it is there.  The handler then goes on to the step it computed when it
  started.
\<close>

record wizard =
  wz_draft :: OnboardingDraft
  wz_errors :: FieldErrors
  wz_saveState :: SaveState
  wz_advancing :: "(OnboardingDraft \<times> StepId) option"
  wz_submission :: submission
  wz_submitError :: "ApiError option"
  wz_requested :: "StepId option"

datatype wizard_event =
    Edit draft_patch
  | Continue
  | Saved bool
  | Go_Back
  | Select StepId
  | Url_Changed "StepId option"
  | Sync_Url
  | Submit
  | Posted
  | Post_Failed thrown
  | Cleared

datatype wizard_effect =
    Save_Progress OnboardingDraft StepId
  | Go_To StepId bool
  | Post_Profile ProfileWrite
  | Clear_Store
  | Complete
  | Session_Expired

definition initial_wizard :: "OnboardingDraft option \<Rightarrow> StepId option \<Rightarrow> wizard" where
  "initial_wizard progress requested =
     \<lparr>wz_draft = (case progress of Some d \<Rightarrow> d | None \<Rightarrow> empty_draft), wz_errors = [],
      wz_saveState = Save_Idle, wz_advancing = None, wz_submission = Not_Submitting,
      wz_submitError = None, wz_requested = requested\<rparr>"

text \<open>What a render computes; it throws (\<open>None\<close>) where \<open>firstIncompleteStep\<close> does.\<close>

definition clampedStep :: "wizard \<Rightarrow> StepId option" where
  "clampedStep w =
     (case firstIncompleteStep (wz_draft w) of
        None \<Rightarrow> None
      | Some resumeStep \<Rightarrow>
          (case wz_requested w of
             Some requested \<Rightarrow>
               Some (if stepIndex requested \<le> stepIndex resumeStep then requested else resumeStep)
           | None \<Rightarrow> Some resumeStep))"

text \<open>\<open>STEP_ORDER[i]\<close>: no step before the first or after the last.\<close>

definition step_at :: "int \<Rightarrow> StepId option" where
  "step_at i = (if 0 \<le> i \<and> nat i < length STEP_ORDER then Some (STEP_ORDER ! nat i) else None)"

section \<open>Transitions\<close>

definition update_draft :: "draft_patch \<Rightarrow> wizard \<Rightarrow> wizard" where
  "update_draft patch w =
     w\<lparr>wz_draft := apply_patch patch (wz_draft w),
       wz_errors := delete_keys (set (patch_keys patch)) (wz_errors w),
       wz_saveState := Save_Idle\<rparr>"

definition go_to :: "StepId \<Rightarrow> bool \<Rightarrow> wizard \<Rightarrow> wizard \<times> wizard_effect list" where
  "go_to s replaced w = (w\<lparr>wz_requested := Some s\<rparr>, [Go_To s replaced])"

text \<open>A validator that throws rejects the handler's promise and leaves the state as it is.\<close>

definition handleContinue :: "StepId \<Rightarrow> wizard \<Rightarrow> wizard \<times> wizard_effect list" where
  "handleContinue clamped w =
     (if wz_advancing w \<noteq> None then (w, [])
      else (case validateStep clamped (wz_draft w) of
              None \<Rightarrow> (w, [])
            | Some stepErrors \<Rightarrow>
                if keys_of stepErrors \<noteq> [] then (w\<lparr>wz_errors := stepErrors\<rparr>, [])
                else (w\<lparr>wz_errors := [], wz_saveState := Saving, wz_advancing := Some (wz_draft w, clamped)\<rparr>,
                      [Save_Progress (wz_draft w) clamped])))"

definition continue_saved :: "bool \<Rightarrow> wizard \<Rightarrow> wizard \<times> wizard_effect list" where
  "continue_saved remote w =
     (case wz_advancing w of
        None \<Rightarrow> (w, [])
      | Some (_, s) \<Rightarrow>
          let w' = w\<lparr>wz_saveState := (if remote then Save_Done else Save_Local_Only), wz_advancing := None\<rparr>
          in (case step_at (stepIndex s + 1) of Some nextStep \<Rightarrow> go_to nextStep False w' | None \<Rightarrow> (w', [])))"

definition handleBack :: "StepId \<Rightarrow> wizard \<Rightarrow> wizard \<times> wizard_effect list" where
  "handleBack clamped w =
     (case step_at (stepIndex clamped - 1) of Some prevStep \<Rightarrow> go_to prevStep False w | None \<Rightarrow> (w, []))"

definition generic_submit_error :: ApiError where
  "generic_submit_error =
     new_ApiError Unknown 0
       (js ''Something went wrong. Your answers are saved '' @ [0x2014] @ js '' try again.'')
       None None None None"

definition handleSubmit :: "wizard \<Rightarrow> wizard \<times> wizard_effect list" where
  "handleSubmit w =
     (if wz_submission w \<noteq> Not_Submitting then (w, [])
      else (case firstIncompleteStep (wz_draft w) of
              None \<Rightarrow> (w, [])
            | Some incomplete \<Rightarrow>
                if incomplete \<noteq> Review then go_to incomplete False w
                else (case draftToProfileWrite (wz_draft w) of
                        None \<Rightarrow> (w\<lparr>wz_submitError := Some generic_submit_error\<rparr>, [])
                      | Some body \<Rightarrow>
                          (w\<lparr>wz_submitError := None, wz_submission := Posting body\<rparr>, [Post_Profile body]))))"

definition submit_failed :: "thrown \<Rightarrow> wizard \<Rightarrow> wizard \<times> wizard_effect list" where
  "submit_failed e w =
     (let w' = w\<lparr>wz_submission := Not_Submitting\<rparr>
      in case e of
           Api_Error a \<Rightarrow>
             if err_kind a = Unauthorized then (w', [Session_Expired])
             else (w'\<lparr>wz_submitError := Some a\<rparr>, [])
         | _ \<Rightarrow> (w'\<lparr>wz_submitError := Some generic_submit_error\<rparr>, []))"

text \<open>The effect that keeps the URL at the step that is shown.\<close>

definition sync_url :: "StepId \<Rightarrow> wizard \<Rightarrow> wizard \<times> wizard_effect list" where
  "sync_url clamped w = (if wz_requested w \<noteq> Some clamped then go_to clamped True w else (w, []))"

fun wizard_step :: "StepId \<Rightarrow> wizard_event \<Rightarrow> wizard \<Rightarrow> wizard \<times> wizard_effect list" where
  "wizard_step clamped (Edit patch) w = (update_draft patch w, [])"
| "wizard_step clamped Continue w = handleContinue clamped w"
| "wizard_step clamped (Saved remote) w = continue_saved remote w"
| "wizard_step clamped Go_Back w = handleBack clamped w"
| "wizard_step clamped (Select s) w = go_to s False w"
| "wizard_step clamped (Url_Changed s) w = (w\<lparr>wz_requested := s\<rparr>, [])"
| "wizard_step clamped Sync_Url w = sync_url clamped w"
| "wizard_step clamped Submit w = handleSubmit w"
| "wizard_step clamped Posted w = (w\<lparr>wz_submission := Clearing\<rparr>, [Clear_Store])"
| "wizard_step clamped (Post_Failed e) w = submit_failed e w"
| "wizard_step clamped Cleared w = (w\<lparr>wz_submission := Not_Submitting\<rparr>, [Complete])"

text \<open>
  When an event can happen.  The form's handler submits on the review and continues on every
  other step; Back is disabled on the first step and while something is in flight; the
  progress indicator offers the steps up to the furthest reachable one, the review its edit
  links.
\<close>

definition progress_index :: "StepId \<Rightarrow> int" where
  "progress_index i = index_of i (map step_id PROGRESS_STEPS)"

definition furthestReachableIndex :: "StepId \<Rightarrow> int" where
  "furthestReachableIndex resumeStep =
     min (if progress_index resumeStep = -1 then int (length PROGRESS_STEPS) - 1 else progress_index resumeStep)
         (int (length PROGRESS_STEPS) - 1)"

definition selectable :: "StepId \<Rightarrow> StepId \<Rightarrow> StepId \<Rightarrow> bool" where
  "selectable clamped resumeStep s \<longleftrightarrow>
     s \<noteq> Review \<and> (progress_index s \<le> furthestReachableIndex resumeStep \<or> clamped = Review \<and> s \<noteq> Consent)"

fun enabled :: "StepId \<Rightarrow> StepId \<Rightarrow> wizard_event \<Rightarrow> wizard \<Rightarrow> bool" where
  "enabled clamped resumeStep (Edit patch) w = (clamped \<noteq> Review)"
| "enabled clamped resumeStep Continue w = (clamped \<noteq> Review)"
| "enabled clamped resumeStep (Saved remote) w = (wz_advancing w \<noteq> None)"
| "enabled clamped resumeStep Go_Back w =
     (stepIndex clamped \<noteq> 0 \<and> wz_advancing w = None \<and> wz_submission w = Not_Submitting)"
| "enabled clamped resumeStep (Select s) w = selectable clamped resumeStep s"
| "enabled clamped resumeStep (Url_Changed s) w = True"
| "enabled clamped resumeStep Sync_Url w = True"
| "enabled clamped resumeStep Submit w = (clamped = Review)"
| "enabled clamped resumeStep Posted w = (\<exists>body. wz_submission w = Posting body)"
| "enabled clamped resumeStep (Post_Failed e) w = (\<exists>body. wz_submission w = Posting body)"
| "enabled clamped resumeStep Cleared w = (wz_submission w = Clearing)"

text \<open>One transition of a mounted wizard: a render that throws takes the component down.\<close>

inductive wizard_runs :: "wizard \<Rightarrow> wizard_event \<Rightarrow> wizard_effect list \<Rightarrow> wizard \<Rightarrow> bool" where
  wizard_run:
    "clampedStep w = Some clamped \<Longrightarrow> firstIncompleteStep (wz_draft w) = Some resumeStep \<Longrightarrow>
     enabled clamped resumeStep e w \<Longrightarrow> wizard_step clamped e w = (w', effects) \<Longrightarrow>
     wizard_runs w e effects w'"

inductive_cases wizard_runsE: "wizard_runs w e effects w'"

inductive wizard_reaches :: "wizard \<Rightarrow> wizard_effect list \<Rightarrow> wizard \<Rightarrow> bool" for w0 where
  reach_start: "wizard_reaches w0 [] w0"
| reach_step: "wizard_reaches w0 past w \<Longrightarrow> wizard_runs w e effects w' \<Longrightarrow> wizard_reaches w0 (past @ effects) w'"

section \<open>The progress indicator and the URL\<close>

text \<open>"Step \<open>humanCurrent\<close> of \<open>total\<close>", as \<^verbatim>\<open>progress-indicator.tsx\<close> counts it.\<close>

definition humanCurrent :: "StepId \<Rightarrow> int" where
  "humanCurrent currentStep = min (progress_index currentStep + 1) (int (length PROGRESS_STEPS))"

datatype dot_state = Dot_Complete | Dot_Current | Dot_Upcoming

definition dot_states :: "StepId \<Rightarrow> (StepId \<times> dot_state) list" where
  "dot_states currentStep =
     map (\<lambda>s. (step_id s,
            if progress_index (step_id s) < progress_index currentStep then Dot_Complete
            else if progress_index (step_id s) = progress_index currentStep then Dot_Current
            else Dot_Upcoming)) PROGRESS_STEPS"

definition step_text :: "StepId \<Rightarrow> jsstring" where
  "step_text s = (case stepMeta s of Some m \<Rightarrow> step_name m | None \<Rightarrow> [])"

definition url_step :: "params \<Rightarrow> StepId option" where
  "url_step searchParams =
     (case params_get searchParams (js ''step'') of
        Some raw \<Rightarrow> map_option step_id (find (\<lambda>m. step_name m = raw) STEPS)
      | None \<Rightarrow> None)"

definition step_url :: "jsstring \<Rightarrow> params \<Rightarrow> StepId \<Rightarrow> jsstring" where
  "step_url pathname searchParams s =
     pathname @ js ''?'' @ params_string (params_set (js ''step'') (step_text s) searchParams)"

section \<open>Lemmas\<close>

lemma step_at_next:
  "c \<noteq> Review \<Longrightarrow> \<exists>n. step_at (stepIndex c + 1) = Some n \<and> stepIndex n = stepIndex c + 1"
  by (cases c) (simp_all add: step_at_def STEP_ORDER_eq)

lemma clampedStep_Some:
  assumes "clampedStep w = Some c"
  obtains r where "firstIncompleteStep (wz_draft w) = Some r" and "stepIndex c \<le> stepIndex r"
    and "wz_requested w = Some c \<or> c = r"
  using assms by (auto simp: clampedStep_def split: option.splits if_splits)

lemma clampedStep_requested:
  "firstIncompleteStep (wz_draft w) = Some r \<Longrightarrow> wz_requested w = Some s \<Longrightarrow> stepIndex s \<le> stepIndex r \<Longrightarrow>
   clampedStep w = Some s"
  by (simp add: clampedStep_def)

lemma valid_before_resume:
  assumes "clampedStep w = Some c" "step_valid c (wz_draft w)" "c \<noteq> Review"
    and "firstIncompleteStep (wz_draft w) = Some r"
  shows "stepIndex c < stepIndex r"
proof -
  have "c \<noteq> r"
    using assms first_incomplete_invalid by blast
  then have "stepIndex c \<noteq> stepIndex r" by simp
  moreover have "stepIndex c \<le> stepIndex r"
    using assms(1,4) by (auto elim!: clampedStep_Some)
  ultimately show ?thesis by linarith
qed

lemma wizard_reaches_trans:
  "wizard_reaches b ys c \<Longrightarrow> wizard_reaches a xs b \<Longrightarrow> wizard_reaches a (xs @ ys) c"
proof (induction rule: wizard_reaches.induct)
  case (reach_step past w e effects w')
  then show ?case
    using wizard_reaches.reach_step [of a "xs @ past" w e effects w'] by simp
qed simp

lemma wizard_reaches_run: "wizard_runs w e effects w' \<Longrightarrow> wizard_reaches w effects w'"
  using reach_step [OF reach_start] by fastforce

lemma continue_round:
  assumes "clampedStep w = Some c" and "c \<noteq> Review" and "wz_advancing w = None"
    and "step_valid c (wz_draft w)"
  obtains n w1 w2 where
    "wizard_runs w Continue [Save_Progress (wz_draft w) c] w1"
    "wizard_runs w1 (Saved remote) [Go_To n False] w2"
    "stepIndex n = stepIndex c + 1" "clampedStep w2 = Some n"
    "wz_draft w2 = wz_draft w" "wz_advancing w2 = None" "wz_submission w2 = wz_submission w"
proof -
  from assms(1) obtain r where r: "firstIncompleteStep (wz_draft w) = Some r"
    by (rule clampedStep_Some)
  obtain n where n: "step_at (stepIndex c + 1) = Some n" "stepIndex n = stepIndex c + 1"
    using step_at_next [OF assms(2)] by blast
  define w1 where "w1 = w\<lparr>wz_errors := [], wz_saveState := Saving, wz_advancing := Some (wz_draft w, c)\<rparr>"
  define w2 where "w2 = w1\<lparr>wz_saveState := (if remote then Save_Done else Save_Local_Only),
    wz_advancing := None, wz_requested := Some n\<rparr>"
  have same: "clampedStep w1 = Some c" "firstIncompleteStep (wz_draft w1) = Some r"
    using assms(1) r by (simp_all add: w1_def clampedStep_def)
  have "validateStep c (wz_draft w) = Some []"
    using assms(4) by (simp add: step_valid_errors)
  then have "handleContinue c w = (w1, [Save_Progress (wz_draft w) c])"
    using assms(3) by (simp add: handleContinue_def w1_def keys_of_def)
  then have one: "wizard_runs w Continue [Save_Progress (wz_draft w) c] w1"
    using assms(1,2) r by (intro wizard_run) simp_all
  have "continue_saved remote w1 = (w2, [Go_To n False])"
    using n(1) by (simp add: continue_saved_def w1_def w2_def go_to_def Let_def)
  then have two: "wizard_runs w1 (Saved remote) [Go_To n False] w2"
    using same by (intro wizard_run) (simp_all add: w1_def)
  have "stepIndex n \<le> stepIndex r"
    using valid_before_resume [OF assms(1,4,2) r] n(2) by simp
  then have "clampedStep w2 = Some n"
    using r by (intro clampedStep_requested) (simp_all add: w2_def w1_def)
  with one two n(2) show ?thesis
    by (intro that [of w1 n w2]) (simp_all add: w1_def w2_def)
qed

text \<open>What every reachable state and every effect so far satisfy.\<close>

definition effect_ok :: "wizard_effect \<Rightarrow> bool" where
  "effect_ok eff =
     (case eff of
        Post_Profile body \<Rightarrow> meets_contract body
      | Save_Progress d s \<Rightarrow> step_valid s d \<and> s \<noteq> Review
      | _ \<Rightarrow> True)"

definition wizard_ok :: "wizard \<Rightarrow> bool" where
  "wizard_ok w \<longleftrightarrow>
     (case wz_advancing w of None \<Rightarrow> True | Some (d, s) \<Rightarrow> step_valid s d \<and> s \<noteq> Review) \<and>
     (case wz_submission w of Posting body \<Rightarrow> meets_contract body | _ \<Rightarrow> True)"

lemma Review_draft_meets_contract:
  "firstIncompleteStep d = Some Review \<Longrightarrow> draftToProfileWrite d = Some body \<Longrightarrow> meets_contract body"
  using complete_draft_serialises [of d] Review_reached [of d] by (fastforce simp: optional_step_def)

lemma wizard_step_ok:
  assumes "enabled c r e w" and "wizard_ok w" and "wizard_step c e w = (w', effects)"
  shows "wizard_ok w' \<and> (\<forall>eff \<in> set effects. effect_ok eff)"
  using assms
proof (cases e)
  case Continue
  with assms show ?thesis
    by (auto simp: handleContinue_def wizard_ok_def effect_ok_def step_valid_errors keys_of_def
        split: option.splits if_splits)
next
  case Submit
  with assms show ?thesis
    using Review_draft_meets_contract [of "wz_draft w"]
    by (auto simp: handleSubmit_def go_to_def wizard_ok_def effect_ok_def split: option.splits if_splits)
next
  case (Post_Failed f)
  with assms show ?thesis
    by (auto simp: submit_failed_def wizard_ok_def effect_ok_def Let_def split: thrown.splits if_splits)
qed (auto simp: update_draft_def continue_saved_def handleBack_def go_to_def sync_url_def wizard_ok_def
    effect_ok_def Let_def split: option.splits if_splits submission.splits)

lemma wizard_reaches_ok:
  "wizard_reaches w0 past w \<Longrightarrow> wizard_ok w0 \<Longrightarrow> wizard_ok w \<and> (\<forall>eff \<in> set past. effect_ok eff)"
proof (induction rule: wizard_reaches.induct)
  case (reach_step past w e effects w')
  from reach_step.hyps(2) reach_step.IH reach_step.prems show ?case
    by (auto elim!: wizard_runsE dest: wizard_step_ok)
qed simp

lemma wizard_ok_initial: "wizard_ok (initial_wizard progress requested)"
  by (simp add: wizard_ok_def initial_wizard_def)

lemma reaches_Review:
  assumes "clampedStep w = Some c" and "wz_advancing w = None" and "\<And>s. step_valid s (wz_draft w)"
  shows "\<exists>past w'. wizard_reaches w past w' \<and> clampedStep w' = Some Review \<and> wz_draft w' = wz_draft w \<and>
    wz_submission w' = wz_submission w"
  using assms
proof (induction "nat (9 - stepIndex c)" arbitrary: w c rule: less_induct)
  case less
  show ?case
  proof (cases "c = Review")
    case True
    with less.prems(1) show ?thesis
      using reach_start by blast
  next
    case False
    obtain n w1 w2 where runs: "wizard_runs w Continue [Save_Progress (wz_draft w) c] w1"
        "wizard_runs w1 (Saved True) [Go_To n False] w2"
      and n: "stepIndex n = stepIndex c + 1" "clampedStep w2 = Some n"
      and same: "wz_draft w2 = wz_draft w" "wz_advancing w2 = None" "wz_submission w2 = wz_submission w"
      using continue_round [OF less.prems(1) False less.prems(2) less.prems(3)] by blast
    have "stepIndex n \<le> 9"
      by (cases n) simp_all
    then have "nat (9 - stepIndex n) < nat (9 - stepIndex c)"
      using n(1) by linarith
    from less.hyps [OF this n(2) same(2)] same less.prems(3)
    obtain past w' where "wizard_reaches w2 past w'" "clampedStep w' = Some Review"
      "wz_draft w' = wz_draft w" "wz_submission w' = wz_submission w"
      by auto
    with wizard_reaches_trans [OF _ wizard_reaches_trans [OF wizard_reaches_run wizard_reaches_run, OF runs(2,1)]]
    show ?thesis by blast
  qed
qed

lemma set_params_set: "set (params_set k v ps) \<subseteq> insert (k, v) (set ps)"
  by (induction k v ps rule: params_set.induct) auto

fun step_literal :: "StepId \<Rightarrow> string" where
  "step_literal Consent = ''consent''"
| "step_literal Identity = ''identity''"
| "step_literal Location = ''location''"
| "step_literal Education = ''education''"
| "step_literal Field = ''field''"
| "step_literal Results = ''results''"
| "step_literal Goals = ''goals''"
| "step_literal Experience = ''experience''"
| "step_literal Preferences = ''preferences''"
| "step_literal Review = ''review''"

lemma reaches_submission:
  assumes "clampedStep w = Some c" and "wz_advancing w = None" and "wz_submission w = Not_Submitting"
    and "\<And>s. step_valid s (wz_draft w)"
  shows "\<exists>past w' body. wizard_reaches w past w' \<and> Post_Profile body \<in> set past \<and>
    wz_submission w' = Posting body \<and> draftToProfileWrite (wz_draft w) = Some body"
proof -
  obtain past w1 where w1: "wizard_reaches w past w1" "clampedStep w1 = Some Review"
    "wz_draft w1 = wz_draft w" "wz_submission w1 = wz_submission w"
    using reaches_Review [OF assms(1,2,4)] by blast
  have ready: "firstIncompleteStep (wz_draft w1) = Some Review"
    using assms(4) w1(3) by (intro Review_complete) simp
  obtain body where body: "draftToProfileWrite (wz_draft w1) = Some body"
    using complete_draft_serialises assms(4) w1(3) by metis
  define w2 where "w2 = w1\<lparr>wz_submitError := None, wz_submission := Posting body\<rparr>"
  have "handleSubmit w1 = (w2, [Post_Profile body])"
    using ready body w1(4) assms(3) by (simp add: handleSubmit_def w2_def)
  then have "wizard_runs w1 Submit [Post_Profile body] w2"
    using w1(2) ready by (intro wizard_run) simp_all
  then have "wizard_reaches w (past @ [Post_Profile body]) w2"
    using w1(1) by (blast intro: reach_step)
  then show ?thesis
    using body w1(3) by (intro exI [of _ "past @ [Post_Profile body]"] exI [of _ w2] exI [of _ body])
      (simp add: w2_def)
qed

lemma example_all_valid: "step_valid s example_draft"
proof (cases "optional_step s")
  case True
  have "isStepValid Field example_draft = Some True" "isStepValid Preferences example_draft = Some True"
    by code_simp+
  with True show ?thesis by (auto simp: optional_step_def step_valid_def)
next
  case False
  then show ?thesis by (rule Review_reached [OF example_reviewed])
qed

section \<open>Properties\<close>

text \<open>
  C12: Whatever step the URL asks for, the wizard shows one whose mandatory predecessors are all
  valid: no navigation, edit or reload skips a mandatory question.
\<close>

theorem wizard_never_skips:
  assumes "clampedStep w = Some c" and "t < c" and "\<not> optional_step t"
  shows "step_valid t (wz_draft w)"
proof -
  obtain r where r: "firstIncompleteStep (wz_draft w) = Some r" "stepIndex c \<le> stepIndex r"
    using assms(1) by (rule clampedStep_Some)
  then have "t < r"
    using assms(2) by (simp add: less_StepId_def)
  then show ?thesis
    using before_first_incomplete [OF r(1)] assms(3) by blast
qed

theorem wizard_never_skips_witness:
  "clampedStep (initial_wizard (Some example_draft) (Some Review)) = Some Review \<and>
   step_valid Goals (wz_draft (initial_wizard (Some example_draft) (Some Review)))"
proof -
  let ?w = "initial_wizard (Some example_draft) (Some Review)"
  have c: "clampedStep ?w = Some Review"
    using example_reviewed by (simp add: clampedStep_def initial_wizard_def)
  moreover have "Goals < Review" "\<not> optional_step Goals"
    by (simp_all add: less_StepId_def optional_step_def)
  ultimately show ?thesis
    using wizard_never_skips [OF c] by blast
qed



text \<open>
  Continuing from a valid step saves the draft with that step and, once the save has
  settled (remotely or only on the device), shows exactly the next step, with the answers as
  they were and nothing left in flight.
\<close>

theorem continue_advances:
  assumes "clampedStep w = Some c" and "c \<noteq> Review" and "wz_advancing w = None"
    and "step_valid c (wz_draft w)"
  shows "\<exists>n w1 w2. wizard_runs w Continue [Save_Progress (wz_draft w) c] w1 \<and>
    wizard_runs w1 (Saved remote) [Go_To n False] w2 \<and>
    stepIndex n = stepIndex c + 1 \<and> clampedStep w2 = Some n \<and>
    wz_draft w2 = wz_draft w \<and> wz_advancing w2 = None"
  using continue_round [OF assms, of remote] by metis

theorem continue_advances_witness:
  "\<exists>w1 w2. wizard_runs (initial_wizard (Some example_draft) (Some Consent)) Continue
      [Save_Progress example_draft Consent] w1 \<and>
    wizard_runs w1 (Saved False) [Go_To Identity False] w2 \<and> clampedStep w2 = Some Identity"
proof -
  let ?w = "initial_wizard (Some example_draft) (Some Consent)"
  have "clampedStep ?w = Some Consent" "wz_advancing ?w = None" "step_valid Consent (wz_draft ?w)"
    using example_reviewed example_all_valid by (simp_all add: clampedStep_def initial_wizard_def)
  from continue_advances [OF this(1) _ this(2,3), of False] obtain n w1 w2 where
    "wizard_runs ?w Continue [Save_Progress (wz_draft ?w) Consent] w1"
    "wizard_runs w1 (Saved False) [Go_To n False] w2" "stepIndex n = 1" "clampedStep w2 = Some n"
    by auto
  moreover from this(3) have "n = Identity"
    by (cases n) simp_all
  ultimately show ?thesis
    by (auto simp: initial_wizard_def)
qed

text \<open>
  C2: A complete draft can always be submitted: from any step at which nothing is in flight,
  continuing and submitting reaches a request with the profile of that draft.
\<close>

theorem complete_draft_reaches_submission:
  assumes "clampedStep w = Some c" and "wz_advancing w = None" and "wz_submission w = Not_Submitting"
    and "\<And>s. step_valid s (wz_draft w)"
  shows "\<exists>past w' body. wizard_reaches w past w' \<and> Post_Profile body \<in> set past \<and>
    wz_submission w' = Posting body \<and> draftToProfileWrite (wz_draft w) = Some body"
  using reaches_submission [OF assms] .

theorem complete_draft_reaches_submission_witness:
  "\<exists>past w' body. wizard_reaches (initial_wizard (Some example_draft) (Some Consent)) past w' \<and>
     Post_Profile body \<in> set past \<and> draftToProfileWrite example_draft = Some body"
proof -
  let ?w = "initial_wizard (Some example_draft) (Some Consent)"
  have "clampedStep ?w = Some Consent"
    using example_reviewed by (simp add: clampedStep_def initial_wizard_def)
  moreover have "wz_advancing ?w = None" "wz_submission ?w = Not_Submitting" "step_valid s (wz_draft ?w)" for s
    using example_all_valid by (simp_all add: initial_wizard_def)
  ultimately show ?thesis
    using complete_draft_reaches_submission [of ?w Consent] by (auto simp: initial_wizard_def)
qed

text \<open>
  C36: Picking the choice to share pronouns or nationality, before a value is typed, makes the
  validator read a missing value: once the steps before it are valid the next render throws,
  and no event of the wizard is possible any more.
\<close>

theorem share_choice_breaks_wizard:
  assumes "step_valid Consent (wz_draft w)"
  shows "clampedStep (update_draft (Patch_Pronouns (choose_disclosure Status_Provided None)) w) = None \<and>
    \<not> wizard_runs (update_draft (Patch_Pronouns (choose_disclosure Status_Provided None)) w) e effects w' \<and>
    (step_valid Identity (wz_draft w) \<longrightarrow>
       clampedStep (update_draft (Patch_Nationality (choose_disclosure Status_Provided None)) w) = None)"
proof -
  let ?w = "update_draft (Patch_Pronouns (choose_disclosure Status_Provided None)) w"
  have consent: "step_valid Consent (wz_draft ?w)"
    using assms by (simp add: step_valid_iff validate_consent_def update_draft_def)
  have "pronouns (wz_draft ?w) = Some (Provided None)"
    by (simp add: update_draft_def choose_disclosure_def)
  with consent have none: "firstIncompleteStep (wz_draft ?w) = None"
    by (simp add: firstIncompleteStep_unfold validate_throws)
  then have crash: "clampedStep ?w = None"
    by (simp add: clampedStep_def)
  then have "\<not> wizard_runs ?w e effects w'"
    by (auto elim: wizard_runsE)
  moreover have "clampedStep (update_draft (Patch_Nationality (choose_disclosure Status_Provided None)) w) = None"
    if identity: "step_valid Identity (wz_draft w)"
  proof -
    let ?d = "wz_draft (update_draft (Patch_Nationality (choose_disclosure Status_Provided None)) w)"
    have "step_valid Consent ?d" "step_valid Identity ?d"
      using assms identity
      by (simp_all add: step_valid_iff validate_consent_def validate_identity_def update_draft_def)
    moreover have "nationality ?d = Some (Provided None)"
      by (simp add: update_draft_def choose_disclosure_def)
    ultimately have "firstIncompleteStep ?d = None"
      using step_valid_iff(2) [of ?d] by (simp add: firstIncompleteStep_unfold validate_throws)
    then show ?thesis by (simp add: clampedStep_def)
  qed
  ultimately show ?thesis using crash by blast
qed

theorem share_choice_breaks_wizard_witness:
  "clampedStep (update_draft (Patch_Pronouns (choose_disclosure Status_Provided None))
     (initial_wizard (Some example_draft) None)) = None"
proof -
  have "step_valid Consent (wz_draft (initial_wizard (Some example_draft) None))"
    using Review_reached [OF example_reviewed, of Consent] by (simp add: initial_wizard_def optional_step_def)
  then show ?thesis
    using share_choice_breaks_wizard by blast
qed

text \<open>
  On the review step the indicator reads "Step 0 of 9" and marks every completed step as
  upcoming, although reaching the review requires them to be complete; on every other step it
  counts from 1 to 9 in order.
\<close>

theorem progress_indicator_counts:
  "humanCurrent Review = 0 \<and> map snd (dot_states Review) = replicate 9 Dot_Upcoming \<and>
   (\<forall>s. humanCurrent s = (if s = Review then 0 else stepIndex s + 1))"
proof (intro conjI allI)
  show "humanCurrent s = (if s = Review then 0 else stepIndex s + 1)" for s
    by (cases s) (simp_all add: humanCurrent_def progress_index_def PROGRESS_STEPS_def STEPS_def)
qed (simp_all add: humanCurrent_def dot_states_def progress_index_def PROGRESS_STEPS_def STEPS_def numeral_eq_Suc)

text \<open>
  The step a navigation writes into the URL is the step the next render reads from it, and
  every other parameter of the URL keeps its value.
\<close>

theorem step_url_roundtrip:
  assumes "\<forall>(k, v) \<in> set ps. well_formed k \<and> well_formed v"
  shows "url_step (parse_params (drop (Suc (length pathname)) (step_url pathname ps s))) = Some s \<and>
    (\<forall>k. k \<noteq> js ''step'' \<longrightarrow>
       params_get (parse_params (drop (Suc (length pathname)) (step_url pathname ps s))) k = params_get ps k)"
proof -
  let ?ps = "params_set (js ''step'') (step_text s) ps"
  have q: "js ''?'' = [0x3F]"
    by (simp add: js_def)
  have lit: "step_text s = js (step_literal s)"
    by (cases s) (simp_all add: step_text_def stepMeta_def STEPS_def)
  have "\<forall>(k, v) \<in> set ?ps. well_formed k \<and> well_formed v"
    using assms set_params_set [of "js ''step''" "step_text s" ps] by (fastforce simp: lit)
  then have read: "parse_params (drop (Suc (length pathname)) (step_url pathname ps s)) = ?ps"
    by (simp add: step_url_def q parse_params_string)
  have "map_option step_id (find (\<lambda>m. step_name m = step_text s) STEPS) = Some s"
    unfolding lit by (cases s) (simp_all add: STEPS_def)
  then show ?thesis
    unfolding read by (simp add: url_step_def params_get_set)
qed

theorem step_url_roundtrip_witness:
  "url_step (parse_params (drop (Suc (length (js ''/onboarding''))) (step_url (js ''/onboarding'') [] Results))) =
   Some Results"
  using step_url_roundtrip [of "[]" "js ''/onboarding''" Results] by simp

end
