(* ===== verification/Onboarding_Store.thy ===== *)
theory Onboarding_Store
  imports Onboarding_Wizard
begin

text \<open>
  \<^verbatim>\<open>app/lib/onboarding/store.ts\<close>: progress is mirrored on the device and kept in the
  metadata of the Supabase user.  The world is both copies; what the browser's storage and
  Supabase let the code do in a call is a parameter of the call.
\<close>

section \<open>State\<close>

text \<open>
  Stored values are JSON; \<open>local_item\<close> is the parsed text under the key (\<open>None\<close> for no text or
  text that does not parse), \<open>remote_item\<close> the metadata entry of each user.
\<close>

record store_world =
  local_item :: "json option"
  remote_item :: "jsstring \<Rightarrow> json option"

text \<open>Whether local storage can be used, and whom Supabase answers for (\<open>None\<close>: it throws).\<close>

record store_conditions =
  storage_works :: bool
  session_user :: "jsstring option option"

section \<open>Operations\<close>

definition isProgress :: "json \<Rightarrow> bool" where
  "isProgress value \<longleftrightarrow>
     is_object value \<and> member_of value (js ''draft'') \<noteq> None \<and>
     member_of value (js ''version'') = Some (JNum (Fin 1))"

definition readLocal :: "store_conditions \<Rightarrow> store_world \<Rightarrow> json option" where
  "readLocal env world =
     (if storage_works env
      then (case local_item world of Some parsed \<Rightarrow> if isProgress parsed then Some parsed else None | None \<Rightarrow> None)
      else None)"

definition writeLocal :: "store_conditions \<Rightarrow> json \<Rightarrow> store_world \<Rightarrow> store_world" where
  "writeLocal env progress world =
     (if storage_works env then world\<lparr>local_item := Some progress\<rparr> else world)"

definition clearLocal :: "store_conditions \<Rightarrow> store_world \<Rightarrow> store_world" where
  "clearLocal env world = (if storage_works env then world\<lparr>local_item := None\<rparr> else world)"

definition remote_progress :: "store_conditions \<Rightarrow> store_world \<Rightarrow> json option" where
  "remote_progress env world =
     (case session_user env of
        Some (Some user) \<Rightarrow>
          (case remote_item world user of
             Some candidate \<Rightarrow> if isProgress candidate then Some candidate else None
           | None \<Rightarrow> None)
      | _ \<Rightarrow> None)"

text \<open>\<open>remote.updatedAt >= local.updatedAt\<close>: on texts the order of code units; false if one is missing.\<close>

definition updated_at :: "json \<Rightarrow> jsstring option" where
  "updated_at progress = as_string (member_of progress (js ''updatedAt''))"

definition not_older :: "json \<Rightarrow> json \<Rightarrow> bool" where
  "not_older a b = (case (updated_at a, updated_at b) of (Some x, Some y) \<Rightarrow> y \<le> x | _ \<Rightarrow> False)"

definition load :: "store_conditions \<Rightarrow> store_world \<Rightarrow> json option" where
  "load env world =
     (case (remote_progress env world, readLocal env world) of
        (Some remote, Some mirror) \<Rightarrow> Some (if not_older remote mirror then remote else mirror)
      | (Some remote, None) \<Rightarrow> Some remote
      | (None, mirror) \<Rightarrow> mirror)"

text \<open>
  \<open>updateUser\<close> succeeds for the user of the session if \<open>accepted\<close>; without one it reports an
  error or throws.
\<close>

definition update_user :: "store_conditions \<Rightarrow> bool \<Rightarrow> json option \<Rightarrow> store_world \<Rightarrow> store_world \<times> bool" where
  "update_user env accepted entry world =
     (case session_user env of
        Some (Some user) \<Rightarrow>
          if accepted then (world\<lparr>remote_item := (remote_item world)(user := entry)\<rparr>, True) else (world, False)
      | _ \<Rightarrow> (world, False))"

definition save :: "store_conditions \<Rightarrow> bool \<Rightarrow> json \<Rightarrow> store_world \<Rightarrow> store_world \<times> bool" where
  "save env accepted progress world = update_user env accepted (Some progress) (writeLocal env progress world)"

definition clear :: "store_conditions \<Rightarrow> bool \<Rightarrow> store_world \<Rightarrow> store_world" where
  "clear env accepted world = fst (update_user env accepted None (clearLocal env world))"

text \<open>The progress that \<open>makeProgress\<close> builds around a draft at the time \<open>now\<close>.\<close>

definition makeProgress :: "json \<Rightarrow> jsstring option \<Rightarrow> jsstring \<Rightarrow> json" where
  "makeProgress draft lastCompletedStep now =
     JObj [(js ''draft'', draft),
           (js ''lastCompletedStep'', case lastCompletedStep of Some s \<Rightarrow> JStr s | None \<Rightarrow> JNull),
           (js ''updatedAt'', JStr now), (js ''version'', JNum (Fin 1))]"

section \<open>Interface\<close>

text \<open>
  What the wizard relies on, whatever stores its progress: a save that can reach one of the
  copies is what the next load finds, unless that load finds something newer, and after a
  clear that reached every copy there is nothing to find.
\<close>

locale progress_store =
  fixes valid :: "'p \<Rightarrow> bool"
    and time :: "'p \<Rightarrow> 't :: linorder"
    and load_from :: "'w \<Rightarrow> 'p option"
    and save_to :: "'p \<Rightarrow> 'w \<Rightarrow> 'w"
    and clear_all :: "'w \<Rightarrow> 'w"
    and ok :: "'w \<Rightarrow> bool"
  assumes ok_save: "valid p \<Longrightarrow> ok w \<Longrightarrow> ok (save_to p w)"
    and load_save: "valid p \<Longrightarrow> \<exists>q. load_from (save_to p w) = Some q \<and> time p \<le> time q"
    and load_save_newest: "valid p \<Longrightarrow> ok w \<Longrightarrow> (\<And>q. load_from w = Some q \<Longrightarrow> time q < time p) \<Longrightarrow> load_from (save_to p w) = Some p"
    and load_clear: "load_from (clear_all w) = None"
begin

text \<open>The copies after a run of saves.\<close>

definition save_all :: "'p list \<Rightarrow> 'w \<Rightarrow> 'w" where
  "save_all ps w = fold save_to ps w"

lemma load_after_saves:
  assumes "\<forall>p \<in> set ps. valid p" and "p \<in> set ps" and "sorted (map time ps)"
  shows "\<exists>q. load_from (save_all ps w) = Some q \<and> time p \<le> time q"
  using assms
proof (induction ps arbitrary: w rule: rev_induct)
  case (snoc x xs)
  then have "time p \<le> time x"
    by (auto simp: sorted_append)
  with snoc.prems(1) load_save [of x "save_all xs w"] show ?case
    by (fastforce simp: save_all_def)
qed simp

lemma ok_saves: "\<forall>p \<in> set ps. valid p \<Longrightarrow> ok w \<Longrightarrow> ok (save_all ps w)"
  by (induction ps arbitrary: w) (simp_all add: save_all_def ok_save)

lemma resume_latest:
  assumes "ok w" and "\<forall>p \<in> set ps. valid p" and "sorted_wrt (<) (map time ps)" and "load_from w = None" and "ps \<noteq> []"
  shows "load_from (save_all ps w) = Some (last ps)"
  using assms
proof (induction ps rule: rev_induct)
  case (snoc x xs)
  show ?case
  proof (cases "xs = []")
    case True
    have "load_from (save_to x w) = Some x"
      using snoc.prems by (intro load_save_newest) simp_all
    with True show ?thesis
      by (simp add: save_all_def)
  next
    case False
    with snoc have "load_from (save_all xs w) = Some (last xs)"
      by (simp add: sorted_wrt_append)
    moreover have "time (last xs) < time x"
      using snoc.prems False by (simp add: sorted_wrt_append)
    ultimately have "load_from (save_to x (save_all xs w)) = Some x"
      using snoc.prems ok_saves [of xs w] by (intro load_save_newest) auto
    then show ?thesis
      by (simp add: save_all_def)
  qed
qed simp

end

section \<open>The store provides the interface\<close>

text \<open>A signed-in user, with local storage available or not.\<close>

definition signed_in_as :: "jsstring \<Rightarrow> bool \<Rightarrow> store_conditions" where
  "signed_in_as user storage = \<lparr>storage_works = storage, session_user = Some (Some user)\<rparr>"

definition valid_progress :: "json \<Rightarrow> bool" where
  "valid_progress p \<longleftrightarrow> isProgress p \<and> updated_at p \<noteq> None"

definition progress_time :: "json \<Rightarrow> jsstring" where
  "progress_time p = or_else (updated_at p) []"

lemma not_older_refl: "valid_progress p \<Longrightarrow> not_older p p"
  by (auto simp: valid_progress_def not_older_def)

lemma not_older_time:
  "valid_progress a \<Longrightarrow> not_older b a \<Longrightarrow> progress_time a \<le> progress_time b"
  by (auto simp: valid_progress_def not_older_def progress_time_def or_else_def split: option.splits)

lemma older_time:
  "valid_progress a \<Longrightarrow> not_older b a \<longleftrightarrow> updated_at b \<noteq> None \<and> progress_time a \<le> progress_time b"
  by (auto simp: valid_progress_def not_older_def progress_time_def or_else_def split: option.splits)

lemma load_signed_in:
  "load (signed_in_as u storage) w =
     (case (Option.bind (remote_item w u) (\<lambda>p. if isProgress p then Some p else None),
            if storage then Option.bind (local_item w) (\<lambda>p. if isProgress p then Some p else None) else None) of
        (Some remote, Some mirror) \<Rightarrow> Some (if not_older remote mirror then remote else mirror)
      | (Some remote, None) \<Rightarrow> Some remote
      | (None, mirror) \<Rightarrow> mirror)"
  by (simp add: load_def remote_progress_def readLocal_def signed_in_as_def split: option.split)

lemma save_signed_in:
  "fst (save (signed_in_as u storage) accepted p w) =
     w\<lparr>local_item := (if storage then Some p else local_item w),
       remote_item := (if accepted then (remote_item w)(u := Some p) else remote_item w)\<rparr>"
  by (simp add: save_def update_user_def writeLocal_def signed_in_as_def)

lemma clear_signed_in:
  "clear (signed_in_as u storage) accepted w =
     w\<lparr>local_item := (if storage then None else local_item w),
       remote_item := (if accepted then (remote_item w)(u := None) else remote_item w)\<rparr>"
  by (simp add: clear_def update_user_def clearLocal_def signed_in_as_def)

text \<open>A save that only the device takes, and one that only Supabase takes.\<close>

definition save_on_device :: "jsstring \<Rightarrow> json \<Rightarrow> store_world \<Rightarrow> store_world" where
  "save_on_device u p w = fst (save (signed_in_as u True) False p w)"

definition save_remotely :: "jsstring \<Rightarrow> json \<Rightarrow> store_world \<Rightarrow> store_world" where
  "save_remotely u p w = fst (save (signed_in_as u False) True p w)"

text \<open>Every progress that is stored was made with a time.\<close>

definition timed :: "store_world \<Rightarrow> bool" where
  "timed w \<longleftrightarrow> (\<forall>p. local_item w = Some p \<or> (\<exists>u. remote_item w u = Some p) \<longrightarrow> isProgress p \<longrightarrow> updated_at p \<noteq> None)"

interpretation device: progress_store valid_progress progress_time "load (signed_in_as u True)"
  "save_on_device u" "clear (signed_in_as u True) True" timed for u
proof unfold_locales
  show "timed (save_on_device u p w)" if "valid_progress p" "timed w" for p w
    using that by (auto simp: timed_def valid_progress_def save_on_device_def save_signed_in)
next
  fix p and w :: store_world
  assume valid: "valid_progress p"
  then have p: "isProgress p"
    by (simp add: valid_progress_def)
  let ?remote = "Option.bind (remote_item w u) (\<lambda>p. if isProgress p then Some p else None)"
  have l: "load (signed_in_as u True) (save_on_device u p w) =
      (case ?remote of Some r \<Rightarrow> Some (if not_older r p then r else p) | None \<Rightarrow> Some p)"
    using p by (simp add: load_signed_in save_on_device_def save_signed_in split: option.split)
  then show "\<exists>q. load (signed_in_as u True) (save_on_device u p w) = Some q \<and> progress_time p \<le> progress_time q"
    using not_older_time [OF valid] by (auto split: option.splits)
  assume ok: "timed w" and older: "\<And>q. load (signed_in_as u True) w = Some q \<Longrightarrow> progress_time q < progress_time p"
  show "load (signed_in_as u True) (save_on_device u p w) = Some p"
  proof (cases ?remote)
    case (Some r)
    have "\<not> not_older r p"
    proof
      assume newer: "not_older r p"
      then have r: "progress_time p \<le> progress_time r" "updated_at r \<noteq> None"
        using older_time [OF valid] by auto
      obtain q where q: "load (signed_in_as u True) w = Some q" "progress_time r \<le> progress_time q"
      proof (cases "Option.bind (local_item w) (\<lambda>p. if isProgress p then Some p else None)")
        case None
        with Some that [of r] show ?thesis by (simp add: load_signed_in)
      next
        case (Some m)
        then have "updated_at m \<noteq> None"
          using ok by (auto simp: timed_def split: bind_splits if_splits)
        with Some show ?thesis
          using \<open>?remote = Some r\<close> that [of r] that [of m] r(2)
          by (cases "not_older r m")
            (auto simp: load_signed_in not_older_def progress_time_def or_else_def split: option.splits)
      qed
      with older [OF q(1)] r(1) show False by simp
    qed
    with l Some show ?thesis by simp
  qed (simp add: l)
next
  fix w :: store_world
  show "load (signed_in_as u True) (clear (signed_in_as u True) True w) = None"
    by (simp add: load_signed_in clear_signed_in)
qed

interpretation remote: progress_store valid_progress progress_time "load (signed_in_as u False)"
  "save_remotely u" "clear (signed_in_as u False) True" timed for u
  by unfold_locales
    (auto simp: load_signed_in save_remotely_def save_signed_in clear_signed_in valid_progress_def timed_def)

section \<open>Properties\<close>

text \<open>
  Loading never returns the older of two copies: what is resumed is one of the stored
  progresses, and neither the copy on the device nor the copy of the user is newer.
\<close>

theorem load_returns_newest:
  assumes "load (signed_in_as u True) w = Some q"
  shows "(remote_item w u = Some q \<or> local_item w = Some q) \<and> isProgress q \<and>
    (\<forall>p. (remote_item w u = Some p \<or> local_item w = Some p) \<and> valid_progress p \<longrightarrow>
       valid_progress q \<longrightarrow> progress_time p \<le> progress_time q)"
  using assms
  by (auto simp: load_signed_in valid_progress_def not_older_def progress_time_def or_else_def
      split: option.splits if_splits bind_splits)

theorem load_returns_newest_witness:
  "load (signed_in_as [] True) \<lparr>local_item = Some (makeProgress (JObj []) None (js ''2026-02-01'')),
      remote_item = (\<lambda>_. Some (makeProgress (JObj []) None (js ''2026-01-01'')))\<rparr> =
    Some (makeProgress (JObj []) None (js ''2026-02-01'')) \<and>
   isProgress (makeProgress (JObj []) None (js ''2026-02-01''))"
proof -
  let ?w = "\<lparr>local_item = Some (makeProgress (JObj []) None (js ''2026-02-01'')),
      remote_item = (\<lambda>_. Some (makeProgress (JObj []) None (js ''2026-01-01'')))\<rparr>"
  have "load (signed_in_as [] True) ?w = Some (makeProgress (JObj []) None (js ''2026-02-01''))"
    by code_simp
  with load_returns_newest [OF this] show ?thesis by blast
qed



text \<open>
  The copy on the device is not tied to a user: after one student saved, another student who
  signs in on the same device, with no progress of her own, is given the first one's draft.
\<close>

theorem draft_of_another_user:
  assumes "valid_progress p" and "remote_item w b = None" and "a \<noteq> b"
  shows "load (signed_in_as b True) (fst (save (signed_in_as a True) accepted p w)) = Some p"
  using assms by (simp add: load_signed_in save_signed_in valid_progress_def)

theorem draft_of_another_user_witness:
  "load (signed_in_as (js ''b'') True) (fst (save (signed_in_as (js ''a'') True) True
     (makeProgress JNull None (js ''1'')) \<lparr>local_item = None, remote_item = (\<lambda>_. None)\<rparr>)) =
   Some (makeProgress JNull None (js ''1''))"
proof -
  have "valid_progress (makeProgress JNull None (js ''1''))"
    by code_simp
  then show ?thesis
    by (rule draft_of_another_user) simp_all
qed

text \<open>
  A successful submission has the store cleared, and clearing removes both copies of the
  draft: the answers that are not part of the profile (nationality, experience, support
  preferences) are kept nowhere, although the review page says they are kept in the account.
\<close>

theorem submission_drops_draft:
  assumes "wizard_runs w Posted effects w'"
  shows "effects = [Clear_Store] \<and> wz_submission w' = Clearing \<and>
    local_item (clear (signed_in_as u True) True world) = None \<and>
    remote_item (clear (signed_in_as u True) True world) u = None"
  using assms by (auto elim!: wizard_runsE simp: clear_signed_in)

theorem submission_drops_draft_witness:
  "\<exists>body w'. wizard_runs ((initial_wizard (Some example_draft) None)\<lparr>wz_submission := Posting body\<rparr>) Posted
     [Clear_Store] w' \<and> wz_submission w' = Clearing"
proof -
  fix body
  let ?w = "(initial_wizard (Some example_draft) None)\<lparr>wz_submission := Posting body\<rparr>"
  have run: "wizard_runs ?w Posted [Clear_Store] (?w\<lparr>wz_submission := Clearing\<rparr>)"
    using example_reviewed by (intro wizard_run [of _ Review Review]) (simp_all add: clampedStep_def initial_wizard_def)
  with submission_drops_draft [OF run] show ?thesis by blast
qed

end
