(* ===== verification/Keyed_Requests.thy ===== *)
theory Keyed_Requests
  imports Api_Client
begin

text \<open>
  The discipline the workspaces share for changes that must not happen twice: one operation at
  a time, an idempotency key per operation that is kept until the operation has succeeded.
  The code of the guard, the key and the settling is the same in each workspace
  (\<open>mutate\<close>, \<open>run\<close>, \<open>verify\<close>); it is modelled once on a record that the
  workspaces extend, and the interface \<open>keyed_requests\<close> carries what follows from it.
\<close>

text \<open>A page with these items, for the examples of the workspaces.\<close>

definition sample_page :: "'a list \<Rightarrow> 'a page" where
  "sample_page xs = \<lparr>page_data = xs, page_pagination = \<lparr>pg_next_cursor = None, pg_has_more = False, pg_limit = 50\<rparr>\<rparr>"

section \<open>The shared state\<close>

record keyed =
  kd_pending :: "jsstring option"
  kd_error :: "jsstring option"
  kd_keys :: "(jsstring, jsstring) dict"

definition idle_keyed :: keyed where
  "idle_keyed = \<lparr>kd_pending = None, kd_error = None, kd_keys = []\<rparr>"

definition is_busy :: "'a keyed_scheme \<Rightarrow> bool" where
  "is_busy s \<longleftrightarrow> non_empty (kd_pending s) \<noteq> None"

text \<open>
  The start of an operation: ignored while another is pending; otherwise the key kept for the
  operation, or the fresh one, is remembered and used.
\<close>

definition begin_keyed ::
  "jsstring \<Rightarrow> jsstring \<Rightarrow> jsstring \<Rightarrow> 'a keyed_scheme \<Rightarrow> ('a keyed_scheme \<times> jsstring) option" where
  "begin_keyed operation label fresh s =
     (if is_busy s then None
      else (let key = or_else (map_of (kd_keys s) operation) fresh
            in Some (s\<lparr>kd_pending := Some label, kd_error := None,
                       kd_keys := dict_set operation key (kd_keys s)\<rparr>, key)))"

definition settle_ok :: "jsstring \<Rightarrow> 'a keyed_scheme \<Rightarrow> 'a keyed_scheme" where
  "settle_ok operation s = s\<lparr>kd_pending := None, kd_keys := dict_delete operation (kd_keys s)\<rparr>"

definition settle_error :: "jsstring \<Rightarrow> 'a keyed_scheme \<Rightarrow> 'a keyed_scheme" where
  "settle_error message s = s\<lparr>kd_pending := None, kd_error := Some message\<rparr>"

text \<open>
  The text shown for a caught value: the message of an \<open>Error\<close> (for one that is not an
  \<open>ApiError\<close> the engine's own, a parameter), or the fallback for any other value.
\<close>

definition error_text :: "(thrown \<Rightarrow> jsstring option) \<Rightarrow> jsstring \<Rightarrow> thrown \<Rightarrow> jsstring" where
  "error_text engine fallback e =
     (case e of Api_Error a \<Rightarrow> err_message a | _ \<Rightarrow> or_else (engine e) fallback)"

text \<open>What an action throws: a value of the client, or an \<open>Error\<close> with a message of its own.\<close>

datatype caught = Client thrown | Plain_Error jsstring

lemma begin_keyed_Some:
  "begin_keyed operation label fresh s = Some (s', key) \<longleftrightarrow>
     \<not> is_busy s \<and> key = or_else (map_of (kd_keys s) operation) fresh \<and>
     s' = s\<lparr>kd_pending := Some label, kd_error := None, kd_keys := dict_set operation key (kd_keys s)\<rparr>"
  by (auto simp: begin_keyed_def Let_def)

lemma begin_keyed_None: "begin_keyed operation label fresh s = None \<longleftrightarrow> is_busy s"
  by (simp add: begin_keyed_def Let_def)

lemma is_busy_simps [simp]:
  "is_busy (s\<lparr>kd_pending := Some l, kd_error := e, kd_keys := ks\<rparr>) \<longleftrightarrow> l \<noteq> []"
  "\<not> is_busy (settle_ok operation s)" "\<not> is_busy (settle_error message s)"
  by (auto simp: is_busy_def settle_ok_def settle_error_def non_empty_def split: list.split)

lemma settle_keys [simp]:
  "map_of (kd_keys (settle_ok operation s)) = (map_of (kd_keys s))(operation := None)"
  "kd_keys (settle_error message s) = kd_keys s"
  by (simp_all add: settle_ok_def settle_error_def)

text \<open>
  The bookkeeping of a run: \<open>issued\<close> are the operations and keys that have gone out.  A table holds
  keys of its own operations, and a key has gone out for one operation only.
\<close>

definition key_log :: "('o \<rightharpoonup> 'k) \<Rightarrow> ('o \<times> 'k) list \<Rightarrow> bool" where
  "key_log table issued \<longleftrightarrow>
     (\<forall>o' k. table o' = Some k \<longrightarrow> (o', k) \<in> set issued) \<and>
     (\<forall>a b k. (a, k) \<in> set issued \<longrightarrow> (b, k) \<in> set issued \<longrightarrow> a = b)"

lemma key_logD: "key_log table issued \<Longrightarrow> (a, k) \<in> set issued \<Longrightarrow> (b, k) \<in> set issued \<Longrightarrow> a = b"
  unfolding key_log_def by blast

lemma key_log_empty [simp]: "key_log Map.empty []"
  by (simp add: key_log_def)

lemma key_log_drop: "key_log table issued \<Longrightarrow> key_log (table(o' := None)) issued"
  by (simp add: key_log_def)

lemma key_log_send:
  assumes issued: "key_log table issued" and key: "key = or_else (table o') fresh" and fresh: "fresh \<notin> snd ` set issued"
  shows "key_log (table(o' \<mapsto> key)) (issued @ [(o', key)])" and "key = fresh \<or> key \<in> snd ` set issued"
proof -
  have own: "(o', key) \<in> set issued \<or> key = fresh"
    using issued key by (cases "table o'") (simp_all add: key_log_def or_else_def)
  then show "key = fresh \<or> key \<in> snd ` set issued" by force
  have only: "a = o'" if "(a, key) \<in> set issued" for a
    using own
  proof
    assume "(o', key) \<in> set issued"
    with that show ?thesis by (rule key_logD [OF issued])
  next
    assume "key = fresh"
    with that fresh show ?thesis by force
  qed
  show "key_log (table(o' \<mapsto> key)) (issued @ [(o', key)])"
    unfolding key_log_def
  proof (intro conjI allI impI)
    show "(a, k) \<in> set (issued @ [(o', key)])" if "(table(o' \<mapsto> key)) a = Some k" for a k
      using that issued by (cases "a = o'") (simp_all add: key_log_def)
    show "a = b" if "(a, k) \<in> set (issued @ [(o', key)])" "(b, k) \<in> set (issued @ [(o', key)])" for a b k
      using that only [of a] only [of b] key_logD [OF issued, of a k b] by fastforce
  qed
qed

section \<open>Interface\<close>

text \<open>
  The abstract behaviour: a table from operations to the keys that are still in use.  A round
  is an action, the key that would be drawn for it and its outcome; it uses the table's key if
  there is one.
\<close>

fun keys_spec ::
  "('a \<Rightarrow> 'o) \<Rightarrow> ('a \<Rightarrow> 'r \<Rightarrow> bool) \<Rightarrow> ('a \<times> 'k \<times> 'r) list \<Rightarrow> ('o \<rightharpoonup> 'k) \<Rightarrow> 'k list" where
  "keys_spec operation kept [] table = []"
| "keys_spec operation kept ((a, fresh, r) # rounds) table =
     (let key = or_else (table (operation a)) fresh
      in key # keys_spec operation kept rounds
                 (if kept a r then table(operation a \<mapsto> key) else table(operation a := None)))"

locale keyed_requests =
  fixes busy :: "'s \<Rightarrow> bool"
    and table :: "'s \<Rightarrow> jsstring \<rightharpoonup> jsstring"
    and operation :: "'a \<Rightarrow> jsstring"
    and kept :: "'a \<Rightarrow> 'r \<Rightarrow> bool"
    and start :: "'a \<Rightarrow> jsstring \<Rightarrow> 's \<Rightarrow> ('s \<times> jsstring) option"
    and finish :: "'a \<Rightarrow> 'r \<Rightarrow> 's \<Rightarrow> 's"
  assumes start_busy: "busy s \<Longrightarrow> start a fresh s = None"
    and start_key: "start a fresh s = Some (s', key) \<Longrightarrow>
      busy s' \<and> key = or_else (table s (operation a)) fresh \<and> table s' = (table s)(operation a \<mapsto> key)"
    and finish_idle: "\<not> busy (finish a r s)"
    and finish_table: "table (finish a r s) = (if kept a r then table s else (table s)(operation a := None))"
begin

lemma single_flight: "start a fresh s = Some (s', key) \<Longrightarrow> start b fresh' s' = None"
  using start_busy start_key by blast

text \<open>
  A run of rounds: an action that does not start (its own conditions do not hold) sends nothing.
\<close>

fun keys_used :: "('a \<times> jsstring \<times> 'r) list \<Rightarrow> 's \<Rightarrow> (('a \<times> jsstring \<times> 'r) \<times> jsstring) list" where
  "keys_used [] s = []"
| "keys_used ((a, fresh, r) # rounds) s =
     (case start a fresh s of
        None \<Rightarrow> keys_used rounds s
      | Some (s', key) \<Rightarrow> ((a, fresh, r), key) # keys_used rounds (finish a r s'))"

text \<open>The keys that go out are those of the specification, for the rounds that started.\<close>

lemma keys_used_spec:
  "map snd (keys_used rounds s) = keys_spec operation kept (map fst (keys_used rounds s)) (table s)"
proof (induction rounds s rule: keys_used.induct)
  case (2 a fresh r rounds s)
  show ?case
  proof (cases "start a fresh s")
    case None
    with 2 show ?thesis by simp
  next
    case (Some p)
    then obtain s' key where p: "start a fresh s = Some (s', key)"
      by (cases p) simp
    note k = start_key [OF p]
    have "table (finish a r s') =
        (if kept a r then (table s)(operation a \<mapsto> key) else (table s)(operation a := None))"
      using k by (simp add: finish_table)
    with 2(2) [OF p refl] p k show ?thesis
      by (simp add: Let_def)
  qed
qed simp

end

text \<open>What the specification gives: a key stands for one operation, and is kept for its retries.\<close>

lemma keys_spec_length: "length (keys_spec operation kept rounds table) = length rounds"
  by (induction operation kept rounds table rule: keys_spec.induct) (simp_all add: Let_def)

lemma keys_spec_origin:
  "(x, key) \<in> set (zip rounds (keys_spec operation kept rounds table)) \<Longrightarrow>
     table (operation (fst x)) = Some key \<or> key \<in> set (map (\<lambda>z. fst (snd z)) rounds)"
proof (induction operation kept rounds table rule: keys_spec.induct)
  case (2 operation kept a fresh r rounds table)
  then show ?case
    by (auto simp: Let_def or_else_def split: option.splits if_splits)
qed simp

definition keys_separate :: "('o \<rightharpoonup> 'k) \<Rightarrow> 'k list \<Rightarrow> bool" where
  "keys_separate table fresh \<longleftrightarrow> inj_on table (dom table) \<and> distinct fresh \<and> set fresh \<inter> ran table = {}"

lemma keys_separate_inj: "keys_separate table fresh \<Longrightarrow> table a = Some v \<Longrightarrow> table b = Some v \<Longrightarrow> a = b"
  unfolding keys_separate_def by (metis domI inj_onD)

lemma keys_separate_new: "keys_separate table fresh \<Longrightarrow> table a = Some v \<Longrightarrow> v \<notin> set fresh"
  unfolding keys_separate_def by (blast intro: ranI)

lemma keys_separateI:
  assumes "\<And>a b v. table a = Some v \<Longrightarrow> table b = Some v \<Longrightarrow> a = b" and "distinct fresh"
    and "\<And>a v. table a = Some v \<Longrightarrow> v \<notin> set fresh"
  shows "keys_separate table fresh"
proof -
  have "inj_on table (dom table)"
    using assms(1) by (metis domD inj_onI)
  moreover have "set fresh \<inter> ran table = {}"
    using assms(3) by (auto simp: ran_def)
  ultimately show ?thesis
    using assms(2) by (simp add: keys_separate_def)
qed

lemma keys_separate_step:
  assumes sep: "keys_separate table (k # fresh)" and key: "key = or_else (table o') k"
  shows "keys_separate (table(o' \<mapsto> key)) fresh" and "keys_separate (table(o' := None)) fresh"
    and "key \<notin> set fresh" and "table o'' = Some key \<Longrightarrow> o'' = o'"
proof -
  have d: "distinct fresh" "k \<notin> set fresh"
    using sep by (simp_all add: keys_separate_def)
  have new: "v \<noteq> k" "v \<notin> set fresh" if "table a = Some v" for a v
    using keys_separate_new [OF sep that] by simp_all
  have cases: "table o' = Some key \<or> key = k"
    using key by (cases "table o'") (simp_all add: or_else_def)
  have only: "a = o'" if "table a = Some key" for a
    using cases that new(1) [OF that] keys_separate_inj [OF sep that] by blast
  show "table o'' = Some key \<Longrightarrow> o'' = o'"
    by (rule only)
  show stale: "key \<notin> set fresh"
    using cases new(2) d(2) by blast
  show "keys_separate (table(o' := None)) fresh"
    using keys_separate_inj [OF sep] new(2) d(1) by (intro keys_separateI) (simp_all split: if_splits)
  show "keys_separate (table(o' \<mapsto> key)) fresh"
  proof (rule keys_separateI)
    fix a b v
    assume "(table(o' \<mapsto> key)) a = Some v" and "(table(o' \<mapsto> key)) b = Some v"
    then show "a = b"
      using only [of a] only [of b] keys_separate_inj [OF sep, of a v b] by (simp split: if_splits)
  next
    fix a v
    assume "(table(o' \<mapsto> key)) a = Some v"
    then show "v \<notin> set fresh"
      using stale new(2) [of a v] by (simp split: if_splits)
  qed (rule d)
qed

lemma keys_spec_one_operation:
  assumes "keys_separate table (map (\<lambda>z. fst (snd z)) rounds)"
    and "(x, key) \<in> set (zip rounds (keys_spec operation kept rounds table))"
    and "(y, key) \<in> set (zip rounds (keys_spec operation kept rounds table))"
  shows "operation (fst x) = operation (fst y)"
  using assms
proof (induction operation kept rounds table rule: keys_spec.induct)
  case (2 operation kept a fresh r rounds table)
  let ?key = "or_else (table (operation a)) fresh"
  let ?table = "if kept a r then table(operation a \<mapsto> ?key) else table(operation a := None)"
  let ?tail = "set (zip rounds (keys_spec operation kept rounds ?table))"
  have sep: "keys_separate table (fresh # map (\<lambda>z. fst (snd z)) rounds)"
    using "2.prems"(1) by simp
  note step = keys_separate_step [OF sep refl]
  have tail: "keys_separate ?table (map (\<lambda>z. fst (snd z)) rounds)"
    using step(1,2) by simp
  have head: "operation (fst z) = operation a" if "(z, ?key) \<in> ?tail" for z
    using keys_spec_origin [OF that] step(3) step(4) [of "operation (fst z)"]
    by (auto split: if_splits)
  from "2.prems"(2,3) consider
      "(x, key) \<in> ?tail" "(y, key) \<in> ?tail"
    | "x = (a, fresh, r)" "key = ?key" | "y = (a, fresh, r)" "key = ?key"
    by (auto simp: Let_def)
  then show ?case
  proof cases
    case 1
    then show ?thesis using "2.IH" [OF refl tail] by blast
  next
    case 2
    with "2.prems"(3) head [of y] show ?thesis by (auto simp: Let_def)
  next
    case 3
    with "2.prems"(2) head [of x] show ?thesis by (auto simp: Let_def)
  qed
qed simp

lemma keys_spec_retry:
  "\<forall>(b, _, _) \<in> set between. operation b \<noteq> operation a \<Longrightarrow>
   keys_spec operation kept (between @ [(a, fresh, r)]) table ! length between = or_else (table (operation a)) fresh"
proof (induction between arbitrary: table)
  case (Cons z between)
  then show ?case
    by (cases z) (auto simp: Let_def)
qed (simp add: Let_def)

context keyed_requests begin

text \<open>
  Any run: the keys are as the specification gives them, two requests with the same key are
  for the same operation, and the same operation tried again after a failure uses the same key
  whatever other operations went out in between.
\<close>

lemma one_key_one_operation:
  assumes "table s = Map.empty" and "distinct (map (\<lambda>z. fst (snd (fst z))) (keys_used rounds s))"
    and "(x, key) \<in> set (keys_used rounds s)" and "(y, key) \<in> set (keys_used rounds s)"
  shows "operation (fst x) = operation (fst y)"
proof -
  let ?started = "map fst (keys_used rounds s)"
  have "keys_used rounds s = zip ?started (map snd (keys_used rounds s))"
    by (simp add: zip_map_fst_snd)
  then have z: "keys_used rounds s = zip ?started (keys_spec operation kept ?started Map.empty)"
    using keys_used_spec [of rounds s] assms(1) by simp
  have "keys_separate (Map.empty :: jsstring \<rightharpoonup> jsstring) (map (\<lambda>z. fst (snd z)) ?started)"
    using assms(2) by (simp add: keys_separate_def comp_def)
  then show ?thesis
    using keys_spec_one_operation [of Map.empty ?started x key operation kept y] assms(3,4) z by metis
qed

fun after :: "('a \<times> jsstring \<times> 'r) list \<Rightarrow> 's \<Rightarrow> 's" where
  "after [] s = s"
| "after ((a, fresh, r) # rounds) s =
     (case start a fresh s of None \<Rightarrow> after rounds s | Some (s', _) \<Rightarrow> after rounds (finish a r s'))"

lemma other_operations:
  "\<forall>x \<in> set rounds. operation (fst x) \<noteq> k \<Longrightarrow> table (after rounds s) k = table s k"
proof (induction rounds s rule: after.induct)
  case (2 a fresh r rounds s)
  show ?case
  proof (cases "start a fresh s")
    case (Some p)
    then obtain s' key where p: "start a fresh s = Some (s', key)"
      by (cases p) simp
    have "table (finish a r s') k = table s k"
      using start_key [OF p] "2.prems" by (auto simp: finish_table)
    with 2 p show ?thesis by simp
  qed (use 2 in simp)
qed simp

lemma retry_key:
  assumes "start a fresh s = Some (s1, key)" and "kept a r"
    and "\<forall>x \<in> set between. operation (fst x) \<noteq> operation a"
    and "start b fresh' (after between (finish a r s1)) = Some (s2, key')" and "operation b = operation a"
  shows "key' = key"
  using start_key [OF assms(1)] start_key [OF assms(4)] assms(2,5) other_operations [OF assms(3), of "finish a r s1"]
  by (simp add: finish_table or_else_def)

lemma fresh_key:
  assumes "start a fresh s = Some (s1, key)" and "\<not> kept a r"
    and "\<forall>x \<in> set between. operation (fst x) \<noteq> operation a"
    and "start b fresh' (after between (finish a r s1)) = Some (s2, key')" and "operation b = operation a"
  shows "key' = fresh'"
  using start_key [OF assms(1)] start_key [OF assms(4)] assms(2,5) other_operations [OF assms(3), of "finish a r s1"]
  by (simp add: finish_table or_else_def)

end

section \<open>Machines with keys\<close>

text \<open>
  A workspace is a step function on events that returns the effects of the step.  Its keys
  are sound when every step issues nothing and forgets keys at most, or issues one
  operation with its kept key or the event's fresh one and keeps that key.
\<close>

fun run_steps :: "('e \<Rightarrow> 's \<Rightarrow> 's \<times> 'x list) \<Rightarrow> 'e list \<Rightarrow> 's \<Rightarrow> 's \<times> 'x list" where
  "run_steps step [] s = (s, [])"
| "run_steps step (e # es) s =
     (case step e s of (s', xs) \<Rightarrow> (case run_steps step es s' of (s'', ys) \<Rightarrow> (s'', xs @ ys)))"

lemma run_steps_invariant:
  assumes "\<And>e s. ok s \<Longrightarrow> ok (fst (step e s)) \<and> list_all good (snd (step e s))" and "ok s"
  shows "ok (fst (run_steps step es s))" and "list_all good (snd (run_steps step es s))"
proof -
  have "ok (fst (run_steps step es s)) \<and> list_all good (snd (run_steps step es s))"
    using assms(2)
  proof (induction es arbitrary: s)
    case (Cons e es)
    obtain s' xs where e: "step e s = (s', xs)" by fastforce
    with assms(1) [OF Cons.prems, of e] Cons.IH [of s'] show ?case
      by (cases "run_steps step es s'") (simp add: e)
  qed simp
  then show "ok (fst (run_steps step es s))" "list_all good (snd (run_steps step es s))" by simp_all
qed

lemma key_log_le: "key_log table issued \<Longrightarrow> table' \<subseteq>\<^sub>m table \<Longrightarrow> key_log table' issued"
  unfolding key_log_def map_le_def by (metis domI)

definition sends_key :: "('o \<rightharpoonup> 'k) \<Rightarrow> 'k list \<Rightarrow> ('o \<rightharpoonup> 'k) \<Rightarrow> ('o \<times> 'k) list \<Rightarrow> bool" where
  "sends_key table fresh table' out \<longleftrightarrow>
     (out = [] \<and> table' \<subseteq>\<^sub>m table) \<or>
     (\<exists>o' k key. fresh = [k] \<and> out = [(o', key)] \<and> key = or_else (table o') k \<and> table' = table(o' \<mapsto> key))"

locale keyed_machine =
  fixes step :: "'e \<Rightarrow> 's \<Rightarrow> 's \<times> 'x list"
    and table :: "'s \<Rightarrow> 'o \<rightharpoonup> 'k"
    and issued :: "'x list \<Rightarrow> ('o \<times> 'k) list"
    and fresh :: "'e \<Rightarrow> 'k list"
    and ok :: "'s \<Rightarrow> bool"
  assumes inv_step: "ok s \<Longrightarrow> ok (fst (step e s))"
    and step_sends: "ok s \<Longrightarrow> sends_key (table s) (fresh e) (table (fst (step e s))) (issued (snd (step e s)))"
    and issued_Nil: "issued [] = []"
    and issued_append: "issued (xs @ ys) = issued xs @ issued ys"
begin

lemma inv_run: "ok s \<Longrightarrow> ok (fst (run_steps step es s))"
  using run_steps_invariant(1) [of ok step "\<lambda>_. True"] inv_step by (simp add: list_all_iff)

lemma key_log_run:
  assumes "ok s" and "key_log (table s) sent" and "distinct (concat (map fresh es))"
    and "set (concat (map fresh es)) \<inter> snd ` set sent = {}"
  shows "key_log (table (fst (run_steps step es s))) (sent @ issued (snd (run_steps step es s)))"
  using assms
proof (induction es arbitrary: s sent)
  case Nil
  then show ?case by (simp add: issued_Nil)
next
  case (Cons e es)
  obtain s' xs where e: "step e s = (s', xs)" by fastforce
  have okay: "ok s'" using inv_step [OF Cons.prems(1), of e] e by simp
  have rest: "distinct (concat (map fresh es))" "set (concat (map fresh es)) \<inter> set (fresh e) = {}"
    "set (concat (map fresh es)) \<inter> snd ` set sent = {}" "set (fresh e) \<inter> snd ` set sent = {}"
    using Cons.prems(3,4) by auto
  from step_sends [OF Cons.prems(1), of e] e
  have "sends_key (table s) (fresh e) (table s') (issued xs)" by simp
  then have "key_log (table s') (sent @ issued xs) \<and> set (concat (map fresh es)) \<inter> snd ` set (sent @ issued xs) = {}"
    unfolding sends_key_def
  proof (elim disjE exE conjE)
    assume "issued xs = []" "table s' \<subseteq>\<^sub>m table s"
    with key_log_le [OF Cons.prems(2)] rest(3) show ?thesis by simp
  next
    fix o' k key
    assume k: "fresh e = [k]" "issued xs = [(o', key)]" "key = or_else (table s o') k" "table s' = (table s)(o' \<mapsto> key)"
    have "k \<notin> snd ` set sent" using rest(4) k(1) by simp
    note send = key_log_send [OF Cons.prems(2) k(3) this]
    have "key \<notin> set (concat (map fresh es))" using send(2) rest(2,3) k(1) by auto
    with send(1) k(2,4) rest(3) show ?thesis by auto
  qed
  with Cons.IH [OF okay _ rest(1), of "sent @ issued xs"] show ?case
    by (cases "run_steps step es s'") (simp add: e issued_append)
qed

lemma key_names_operation:
  assumes "ok s" and "table s = Map.empty" and "distinct (concat (map fresh es))"
    and "(a, key) \<in> set (issued (snd (run_steps step es s)))"
    and "(b, key) \<in> set (issued (snd (run_steps step es s)))"
  shows "a = b"
proof -
  have "key_log (table (fst (run_steps step es s))) ([] @ issued (snd (run_steps step es s)))"
    by (rule key_log_run) (simp_all add: assms(1-3))
  then show ?thesis using key_logD assms(4,5) by fastforce
qed

end

end
