(* ===== verification/Js_Date.thy ===== *)
theory Js_Date
  imports Prelude "HOL-Library.Monad_Syntax"
begin

text \<open>
  The part of JavaScript's \<open>Date\<close> the source uses: time values in milliseconds since 1970
  (\<open>None\<close> is the \<open>NaN\<close> of an invalid date), reading the ISO forms that name their zone,
  \<open>toISOString\<close>, and the start of a day in UTC.  A string in another form is read by the engine
  in its own way (often in the browser's zone), which is a parameter \<open>engine\<close>.
\<close>

section \<open>The calendar\<close>

definition DAY_MS :: int where
  "DAY_MS = 86400000"

definition leap :: "int \<Rightarrow> bool" where
  "leap y \<longleftrightarrow> 4 dvd y \<and> (\<not> 100 dvd y \<or> 400 dvd y)"

text \<open>Days from the first of March of year 0 to the first of March of year \<open>y\<close>, shifted to 1970.\<close>

definition march_days :: "int \<Rightarrow> int" where
  "march_days y = 365 * y + y div 4 - y div 100 + y div 400 - 719468"

definition days_from_civil :: "int \<Rightarrow> int \<Rightarrow> int \<Rightarrow> int" where
  "days_from_civil y m d =
     (if m \<le> 2 then march_days (y - 1) + (153 * (m + 9) + 2) div 5 + d - 1
      else march_days y + (153 * (m - 3) + 2) div 5 + d - 1)"

definition civil_from_days :: "int \<Rightarrow> int \<times> int \<times> int" where
  "civil_from_days z =
     (let n = z + 719468;
          era = n div 146097;
          doe = n mod 146097;
          yoe = (doe - doe div 1460 + doe div 36524 - doe div 146096) div 365;
          doy = doe - (365 * yoe + yoe div 4 - yoe div 100);
          mp = (5 * doy + 2) div 153;
          d = doy - (153 * mp + 2) div 5 + 1;
          m = (if mp < 10 then mp + 3 else mp - 9);
          y = yoe + era * 400
      in (if m \<le> 2 then y + 1 else y, m, d))"

definition month_length :: "int \<Rightarrow> int \<Rightarrow> int" where
  "month_length y m =
     (if m = 2 then (if leap y then 29 else 28) else if m \<in> {4, 6, 9, 11} then 30 else 31)"

section \<open>Reading ISO strings\<close>

definition digit :: "code_unit \<Rightarrow> nat option" where
  "digit u = (if 0x30 \<le> u \<and> u \<le> 0x39 then Some (unat u - 48) else None)"

fun number_of :: "nat \<Rightarrow> jsstring \<Rightarrow> nat option" where
  "number_of acc [] = Some acc"
| "number_of acc (u # s) = (case digit u of None \<Rightarrow> None | Some d \<Rightarrow> number_of (10 * acc + d) s)"

definition read_digits :: "nat \<Rightarrow> jsstring \<Rightarrow> (nat \<times> jsstring) option" where
  "read_digits n s =
     (if length s < n then None else map_option (\<lambda>v. (v, drop n s)) (number_of 0 (take n s)))"

definition expect :: "code_unit \<Rightarrow> jsstring \<Rightarrow> jsstring option" where
  "expect u s = (case s of v # t \<Rightarrow> if v = u then Some t else None | [] \<Rightarrow> None)"

text \<open>\<open>YYYY-MM-DD\<close>; the value is the number of the day.\<close>

definition read_date :: "jsstring \<Rightarrow> (int \<times> jsstring) option" where
  "read_date s = do {
     (y, s1) \<leftarrow> read_digits 4 s;
     s2 \<leftarrow> expect 0x2D s1;
     (m, s3) \<leftarrow> read_digits 2 s2;
     s4 \<leftarrow> expect 0x2D s3;
     (d, s5) \<leftarrow> read_digits 2 s4;
     if 1 \<le> m \<and> m \<le> 12 \<and> 1 \<le> d \<and> int d \<le> month_length (int y) (int m)
       then Some (days_from_civil (int y) (int m) (int d), s5) else None }"

text \<open>Milliseconds: the first three digits after the point, padded; further digits are dropped.\<close>

definition milliseconds :: "jsstring \<Rightarrow> nat option" where
  "milliseconds digits =
     (if digits = [] then None else number_of 0 (take 3 (digits @ replicate 3 0x30)))"

definition read_fraction :: "jsstring \<Rightarrow> (nat \<times> jsstring) option" where
  "read_fraction s =
     (case s of
        u # t \<Rightarrow> if u = 0x2E
          then map_option (\<lambda>ms. (ms, dropWhile (\<lambda>v. digit v \<noteq> None) t))
                 (milliseconds (takeWhile (\<lambda>v. digit v \<noteq> None) t))
          else Some (0, s)
      | [] \<Rightarrow> Some (0, s))"

definition read_seconds :: "jsstring \<Rightarrow> (nat \<times> jsstring) option" where
  "read_seconds s =
     (case s of
        u # t \<Rightarrow> if u = 0x3A
          then do { (sec, t1) \<leftarrow> read_digits 2 t; (ms, t2) \<leftarrow> read_fraction t1;
                    if sec < 60 then Some (1000 * sec + ms, t2) else None }
          else Some (0, s)
      | [] \<Rightarrow> Some (0, s))"

text \<open>The zone: \<open>Z\<close> or an offset; the value is what is to be subtracted.\<close>

definition read_zone :: "jsstring \<Rightarrow> int option" where
  "read_zone s =
     (if s = [0x5A] then Some 0
      else (case s of
        [] \<Rightarrow> None
      | u # t \<Rightarrow> do {
          (h, t1) \<leftarrow> read_digits 2 t; t2 \<leftarrow> expect 0x3A t1; (mi, t3) \<leftarrow> read_digits 2 t2;
          if t3 \<noteq> [] \<or> h > 23 \<or> mi > 59 then None
          else if u = 0x2B then Some (60000 * (60 * int h + int mi))
          else if u = 0x2D then Some (- (60000 * (60 * int h + int mi)))
          else None }))"

definition iso_time :: "jsstring \<Rightarrow> int option" where
  "iso_time s = do {
     (day, s1) \<leftarrow> read_date s;
     if s1 = [] then Some (day * DAY_MS)
     else do {
       s2 \<leftarrow> expect 0x54 s1;
       (h, s3) \<leftarrow> read_digits 2 s2; s4 \<leftarrow> expect 0x3A s3; (mi, s5) \<leftarrow> read_digits 2 s4;
       (ms, s6) \<leftarrow> read_seconds s5;
       zone \<leftarrow> read_zone s6;
       if h < 24 \<and> mi < 60
         then Some (day * DAY_MS + (3600000 * int h + 60000 * int mi + int ms) - zone) else None } }"

definition date_parse :: "(jsstring \<Rightarrow> int option) \<Rightarrow> jsstring \<Rightarrow> int option" where
  "date_parse engine s = (case iso_time s of Some t \<Rightarrow> Some t | None \<Rightarrow> engine s)"

lemmas [js_defs] = digit_def read_digits_def expect_def read_date_def milliseconds_def read_fraction_def
  read_seconds_def read_zone_def iso_time_def date_parse_def

section \<open>Writing\<close>

definition pad :: "nat \<Rightarrow> nat \<Rightarrow> jsstring" where
  "pad n v = replicate (n - length (decimal v)) 0x30 @ js_of_nat v"

text \<open>\<open>toISOString\<close>; years outside 0 to 9999 have a sign and six digits.\<close>

definition iso_string :: "int \<Rightarrow> jsstring" where
  "iso_string t =
     (case civil_from_days (t div DAY_MS) of
        (y, m, d) \<Rightarrow>
          (let ms = t mod DAY_MS
           in (if 0 \<le> y \<and> y \<le> 9999 then pad 4 (nat y)
               else if y < 0 then js ''-'' @ pad 6 (nat (- y)) else js ''+'' @ pad 6 (nat y))
              @ js ''-'' @ pad 2 (nat m) @ js ''-'' @ pad 2 (nat d) @ js ''T''
              @ pad 2 (nat (ms div 3600000)) @ js '':'' @ pad 2 (nat (ms div 60000 mod 60)) @ js '':''
              @ pad 2 (nat (ms div 1000 mod 60)) @ js ''.'' @ pad 3 (nat (ms mod 1000)) @ js ''Z''))"

lemmas [js_defs] = pad_def iso_string_def

text \<open>\<open>Date.UTC\<close> of the year, month and day of a time value is the start of its day.\<close>

definition utc_day_start :: "int \<Rightarrow> int" where
  "utc_day_start t = t div DAY_MS * DAY_MS"

section \<open>Facts\<close>

lemma decimal_chars: "c \<in> set (decimal n) \<Longrightarrow> c \<in> char_of ` {48..57 :: nat}"
proof (induction n rule: decimal.induct)
  case (1 n)
  show ?case
  proof (cases "n < 10")
    case True
    with 1(2) have "c = char_of (48 + n)" by (simp add: decimal.simps)
    with True show ?thesis by (intro image_eqI [of _ _ "48 + n"]) simp_all
  next
    case False
    with 1(2) have "c \<in> set (decimal (n div 10)) \<or> c = char_of (48 + n mod 10)"
      by (subst (asm) decimal.simps) auto
    with 1(1) [OF False] show ?thesis
      by (elim disjE) (auto intro!: image_eqI [of _ _ "48 + n mod 10"])
  qed
qed

lemma decimal_inject [simp]: "decimal n = decimal m \<longleftrightarrow> n = m"
proof
  show "decimal n = decimal m \<Longrightarrow> n = m"
  proof (induction n arbitrary: m rule: decimal.induct)
    case (1 n)
    have big: "decimal k = decimal (k div 10) @ [char_of (48 + k mod 10)]" if "\<not> k < 10" for k
      using that by (subst decimal.simps) simp
    have small: "decimal k = [char_of (48 + k)]" if "k < 10" for k
      using that by (subst decimal.simps) simp
    have char: "a = b" if "char_of (48 + a) = (char_of (48 + b) :: char)" "a < 10" "b < 10" for a b :: nat
    proof -
      have "of_char (char_of (48 + a) :: char) = (of_char (char_of (48 + b) :: char) :: nat)"
        using that(1) by simp
      with that(2,3) show ?thesis by simp
    qed
    show ?case
    proof (cases "n < 10"; cases "m < 10")
      assume "n < 10" "m < 10"
      with 1(2) char [of n m] show ?thesis by (simp add: small)
    next
      assume "n < 10" "\<not> m < 10"
      with 1(2) show ?thesis by (simp add: small big decimal_nonempty [symmetric])
    next
      assume "\<not> n < 10" "m < 10"
      with 1(2) show ?thesis by (simp add: small big decimal_nonempty [symmetric])
    next
      assume nm: "\<not> n < 10" "\<not> m < 10"
      with 1(2) have "decimal (n div 10) = decimal (m div 10)" "n mod 10 = m mod 10"
        using char [of "n mod 10" "m mod 10"] by (simp_all add: big)
      with 1(1) [OF nm(1)] show ?thesis by (metis div_mult_mod_eq)
    qed
  qed
qed simp

lemma decimal_units: "u \<in> set (js_of_nat n) \<Longrightarrow> 48 \<le> unat u \<and> unat u \<le> 57"
proof -
  assume "u \<in> set (js_of_nat n)"
  then obtain c where c: "c \<in> set (decimal n)" "u = of_char c"
    by (auto simp: js_of_nat_def js_def)
  from decimal_chars [OF c(1)] obtain k :: nat where "48 \<le> k" "k \<le> 57" "c = char_of k" by auto
  with c(2) show ?thesis by (simp add: unat_of_char)
qed

lemma pad_units: "u \<in> set (pad n v) \<Longrightarrow> 48 \<le> unat u \<and> unat u \<le> 57"
  by (auto simp: pad_def dest: decimal_units)

lemma pad_no_Z: "0x5A \<notin> set (pad n v)"
  using pad_units [of "0x5A" n v] by auto

text \<open>An ISO string ends in its only \<open>Z\<close>.\<close>

lemma iso_string_Z: "\<exists>x. iso_string t = x @ [0x5A] \<and> 0x5A \<notin> set x"
proof -
  obtain y m d where c: "civil_from_days (t div DAY_MS) = (y, m, d)"
    by (metis prod_cases3)
  show ?thesis
    unfolding iso_string_def c Let_def prod.case
    by (rule exI, rule conjI, simp only: append_assoc [symmetric] js_Cons js_Nil append_same_eq, simp)
       (auto simp: pad_no_Z js_Cons)
qed

lemma utc_day_start_le: "utc_day_start t \<le> t" "t < utc_day_start t + DAY_MS"
proof -
  have "t div DAY_MS * DAY_MS + t mod DAY_MS = t" "0 \<le> t mod DAY_MS" "t mod DAY_MS < DAY_MS"
    by (simp_all add: DAY_MS_def)
  then show "utc_day_start t \<le> t" "t < utc_day_start t + DAY_MS"
    unfolding utc_day_start_def by linarith+
qed

end
