(* ===== verification/Applications.thy ===== *)
theory Applications
  imports Keyed_Requests Js_Date "HOL-Library.Multiset"
begin

text \<open>
  The application workspace, \<^verbatim>\<open>app/components/applications/application-workspace.tsx\<close>: the list
  of tracked applications shown as a board or a table, and one card per application with its
  status, checklist, notes and reminder.  A card's state lives as long as React keeps the card
  mounted: it is found again under the same place and identifier, and starts afresh elsewhere.
  Requests are answered later and in any order.
\<close>

section \<open>Statuses and dates\<close>

definition STATUSES :: "ApplicationStatus list" where
  "STATUSES = [AppSaved, AppPreparing, AppReady, AppSubmitted, AppInterview, AppAwarded,
     AppUnsuccessful, AppWithdrawn]"

definition statusLabel :: "ApplicationStatus \<Rightarrow> jsstring" where
  "statusLabel status =
     (let name = application_status_name status in to_upper (take 1 name) @ drop 1 name)"

text \<open>
  What the browser provides: its zone, its reading of date strings that name no zone, the parts
  and texts \<open>Intl.DateTimeFormat\<close> gives for a time value, and its messages for errors.
  Formatting an invalid date throws, here \<open>None\<close>.
\<close>

record browser =
  bw_timezone :: jsstring
  bw_local :: "jsstring \<Rightarrow> int option"
  bw_parts :: "jsstring \<Rightarrow> int \<Rightarrow> (jsstring, jsstring) dict"
  bw_format :: "jsstring \<Rightarrow> int \<Rightarrow> jsstring"
  bw_format_day :: "int \<Rightarrow> jsstring"
  bw_message :: "thrown \<Rightarrow> jsstring option"

definition formatTimestamp :: "browser \<Rightarrow> jsstring \<Rightarrow> jsstring \<Rightarrow> jsstring option" where
  "formatTimestamp b value timezone =
     map_option (bw_format b timezone) (date_parse (bw_local b) value)"

definition formatDateOnly :: "browser \<Rightarrow> jsstring \<Rightarrow> jsstring option" where
  "formatDateOnly b value =
     map_option (bw_format_day b) (date_parse (bw_local b) (value @ js ''T12:00:00Z''))"

definition formatApplicationDeadline :: "browser \<Rightarrow> ApplicationResponse \<Rightarrow> jsstring \<Rightarrow> jsstring option" where
  "formatApplicationDeadline b application timezone =
     (case non_empty (app_deadline_at application) of
        Some time \<Rightarrow> formatTimestamp b time timezone
      | None \<Rightarrow>
        (case non_empty (sch_deadline (app_scholarship application)) of
           Some day \<Rightarrow> formatDateOnly b day
         | None \<Rightarrow> Some (js ''Deadline not published'')))"

definition date_part :: "(jsstring, jsstring) dict \<Rightarrow> string \<Rightarrow> jsstring" where
  "date_part parts type = or_else (map_of parts (js type)) []"

definition isoToLocalInput :: "browser \<Rightarrow> jsstring option \<Rightarrow> jsstring \<Rightarrow> jsstring option" where
  "isoToLocalInput b value timezone =
     (case non_empty value of
        None \<Rightarrow> Some []
      | Some v \<Rightarrow>
          map_option
            (\<lambda>t. let parts = bw_parts b timezone t
                 in date_part parts ''year'' @ js ''-'' @ date_part parts ''month'' @ js ''-''
                    @ date_part parts ''day'' @ js ''T'' @ date_part parts ''hour'' @ js '':''
                    @ date_part parts ''minute'')
            (date_parse (bw_local b) v))"

definition browserTimezone :: "jsstring option \<Rightarrow> jsstring" where
  "browserTimezone resolved = or_else (non_empty resolved) (js ''UTC'')"

text \<open>The label of a row in the list of deadlines.\<close>

definition deadline_label :: "browser \<Rightarrow> ApplicationDeadline \<Rightarrow> jsstring \<Rightarrow> jsstring option" where
  "deadline_label b item timezone =
     (case non_empty (dl_deadline_at item) of
        Some time \<Rightarrow> formatTimestamp b time timezone
      | None \<Rightarrow>
        (case non_empty (dl_deadline_date item) of
           Some day \<Rightarrow> formatDateOnly b day
         | None \<Rightarrow> Some (js ''Deadline not published'')))"

definition application_error :: "browser \<Rightarrow> thrown \<Rightarrow> jsstring" where
  "application_error b = error_text (bw_message b) (js ''That change could not be saved. Try again.'')"

section \<open>Cards\<close>

record card = keyed +
  card_notes :: jsstring
  card_draft :: "(jsstring option \<times> jsstring) option"

definition initial_card :: "ApplicationResponse \<Rightarrow> card" where
  "initial_card application =
     \<lparr>kd_pending = None, kd_error = None, kd_keys = [],
      card_notes = or_else (app_notes application) [], card_draft = None\<rparr>"

definition reminder_source :: "ApplicationResponse \<Rightarrow> jsstring option" where
  "reminder_source application = map_option rem_remind_at (app_reminder application)"

definition reminder_value :: "browser \<Rightarrow> ApplicationResponse \<Rightarrow> card \<Rightarrow> jsstring option" where
  "reminder_value b application c =
     (case card_draft c of
        Some (source, value) \<Rightarrow>
          if source = reminder_source application then Some value
          else isoToLocalInput b (reminder_source application) (bw_timezone b)
      | None \<Rightarrow> isoToLocalInput b (reminder_source application) (bw_timezone b))"

text \<open>
  The body the \<open>Set reminder\<close> button hands on.  It is disabled without a value, and
  \<open>toISOString\<close> throws on a date that cannot be read.
\<close>

definition reminder_body :: "browser \<Rightarrow> ApplicationResponse \<Rightarrow> card \<Rightarrow> ApplicationReminderWrite option" where
  "reminder_body b application c =
     (case non_empty (reminder_value b application c) of
        None \<Rightarrow> None
      | Some value \<Rightarrow>
          map_option (\<lambda>t. \<lparr>rem_remind_at = iso_string t, rem_timezone = bw_timezone b\<rparr>)
            (date_parse (bw_local b) value))"

text \<open>Texts of the card: the checklist's progress, the options of the select, a line of the history.\<close>

definition checklistDone :: "ApplicationResponse \<Rightarrow> nat" where
  "checklistDone application = length (filter check_completed (app_checklist application))"

definition status_options :: "ApplicationResponse \<Rightarrow> (ApplicationStatus \<times> jsstring) list" where
  "status_options application =
     (app_status application, statusLabel (app_status application))
     # map (\<lambda>status. (status, js ''Move to '' @ statusLabel status)) (app_allowed_transitions application)"

definition history_label :: "ApplicationStatusHistoryItem \<Rightarrow> jsstring" where
  "history_label entry =
     (case hist_from_status entry of
        None \<Rightarrow> [] | Some status \<Rightarrow> statusLabel status @ js '' '' @ [0x2192] @ js '' '')
     @ statusLabel (hist_to_status entry)"

datatype card_action =
    Set_Status ApplicationStatus
  | Toggle_Item ApplicationChecklistItem
  | Save_Notes
  | Set_Reminder
  | Remove_Reminder

text \<open>
  What a control of the card asks \<open>mutate\<close> for: the operation, its label and the request, given
  the key.  \<open>None\<close>: the control is not shown or disabled, its handler returns, or it throws
  (\<open>toISOString\<close> of a date that cannot be read).
\<close>

definition card_call ::
  "browser \<Rightarrow> ApplicationResponse \<Rightarrow> card \<Rightarrow> card_action \<Rightarrow>
     (jsstring \<times> jsstring \<times> (jsstring \<Rightarrow> RequestOptions option)) option" where
  "card_call b application c act =
     (if kd_pending c \<noteq> None then None
      else (case act of
        Set_Status status \<Rightarrow>
          if status \<notin> set (app_allowed_transitions application) then None
          else Some (js ''status-'' @ application_status_name status, js ''status'',
            updateApplication (app_id application) \<lparr>aupd_status = Some status, aupd_notes = None\<rparr>)
      | Toggle_Item item \<Rightarrow>
          if item \<notin> set (app_checklist application) then None
          else Some (js ''check-'' @ check_id item @ js ''-''
                       @ (if check_completed item then js ''false'' else js ''true''),
            js ''checklist'',
            updateApplicationChecklistItem (app_id application) (check_id item)
              \<lparr>ciu_completed = \<not> check_completed item\<rparr>)
      | Save_Notes \<Rightarrow>
          if card_notes c = or_else (app_notes application) [] then None
          else Some (js ''notes-'' @ card_notes c, js ''notes'',
            updateApplication (app_id application)
              \<lparr>aupd_status = None, aupd_notes = Some (non_empty (Some (card_notes c)))\<rparr>)
      | Set_Reminder \<Rightarrow>
          (case reminder_body b application c of
             None \<Rightarrow> None
           | Some body \<Rightarrow>
               Some (js ''reminder-'' @ rem_remind_at body @ js ''-'' @ rem_timezone body, js ''reminder'',
                 setApplicationReminder (app_id application) body))
      | Remove_Reminder \<Rightarrow>
          if app_reminder application = None then None
          else Some (js ''reminder-delete'', js ''reminder'', deleteApplicationReminder (app_id application))))"

section \<open>The workspace\<close>

datatype view = Board | Table

datatype place = In_Column ApplicationStatus | In_Table

definition place_of :: "view \<Rightarrow> ApplicationResponse \<Rightarrow> place" where
  "place_of v application = (case v of Board \<Rightarrow> In_Column (app_status application) | Table \<Rightarrow> In_Table)"

definition board_columns :: "ApplicationResponse list \<Rightarrow> (ApplicationStatus \<times> ApplicationResponse list) list" where
  "board_columns applications =
     map (\<lambda>status. (status, filter (\<lambda>item. app_status item = status) applications)) STATUSES"

definition replaceApplication :: "ApplicationResponse \<Rightarrow> ApplicationResponse list \<Rightarrow> ApplicationResponse list" where
  "replaceApplication new current = replace_by app_id new current"

text \<open>A request that has gone out, with the card it came from.\<close>

record flight =
  fl_card :: nat
  fl_application :: jsstring
  fl_operation :: jsstring
  fl_request :: "RequestOptions option"
  fl_key :: jsstring

type_synonym card_key = "place \<times> jsstring"
type_synonym cards = "(card_key \<times> nat \<times> card) list"

record workspace =
  ws_applications :: "ApplicationResponse list"
  ws_view :: view
  ws_cards :: cards
  ws_counter :: nat
  ws_flying :: "flight list"

text \<open>Rendering: a card already mounted at its place keeps its state, any other is new.\<close>

fun mount_cards :: "view \<Rightarrow> cards \<Rightarrow> ApplicationResponse list \<Rightarrow> nat \<Rightarrow> cards \<times> nat" where
  "mount_cards v old [] n = ([], n)"
| "mount_cards v old (a # as) n =
     (let k = (place_of v a, app_id a)
      in case map_of old k of
           Some ic \<Rightarrow> (case mount_cards v old as n of (cs, n') \<Rightarrow> ((k, ic) # cs, n'))
         | None \<Rightarrow> (case mount_cards v old as (Suc n) of (cs, n') \<Rightarrow> ((k, n, initial_card a) # cs, n')))"

definition render :: "workspace \<Rightarrow> workspace" where
  "render s =
     (case mount_cards (ws_view s) (ws_cards s) (ws_applications s) (ws_counter s) of
        (cs, n) \<Rightarrow> s\<lparr>ws_cards := cs, ws_counter := n\<rparr>)"

definition initial_workspace :: "ApplicationPage \<Rightarrow> workspace" where
  "initial_workspace page =
     render \<lparr>ws_applications = page_data page, ws_view = Board, ws_cards = [], ws_counter = 0, ws_flying = []\<rparr>"

definition update_card :: "nat \<Rightarrow> (card \<Rightarrow> card) \<Rightarrow> cards \<Rightarrow> cards" where
  "update_card n f cs = map (\<lambda>(k, m, c). (k, m, if m = n then f c else c)) cs"

datatype app_event =
    Press card_key card_action jsstring
  | Type_Notes card_key jsstring
  | Type_Reminder card_key jsstring
  | Show view
  | Answer nat "thrown + ApplicationResponse"

text \<open>
  \<open>mutate\<close> up to its request.  The last argument of \<open>Press\<close> is the key that
  \<open>idempotencyKey\<close> draws when none is kept.
\<close>

definition mutate_start ::
  "browser \<Rightarrow> card_key \<Rightarrow> card_action \<Rightarrow> jsstring \<Rightarrow> workspace \<Rightarrow> workspace \<times> flight list" where
  "mutate_start b k act fresh s =
     (case (map_of (ws_cards s) k, find (\<lambda>a. app_id a = snd k) (ws_applications s)) of
        (Some (n, c), Some a) \<Rightarrow>
          (case card_call b a c act of
             None \<Rightarrow> (s, [])
           | Some (operation, label, req) \<Rightarrow>
             (case begin_keyed operation label fresh c of
                None \<Rightarrow> (s, [])
              | Some (c', key) \<Rightarrow>
                  (let f = \<lparr>fl_card = n, fl_application = app_id a, fl_operation = operation,
                            fl_request = req key, fl_key = key\<rparr>
                   in (s\<lparr>ws_cards := update_card n (\<lambda>_. c') (ws_cards s),
                         ws_flying := ws_flying s @ [f]\<rparr>, [f]))))
      | _ \<Rightarrow> (s, []))"

text \<open>
  The rest of \<open>mutate\<close>.  A request that could not be built has thrown before it left.
\<close>

definition mutate_finish ::
  "browser \<Rightarrow> flight \<Rightarrow> thrown + ApplicationResponse \<Rightarrow> workspace \<Rightarrow> workspace" where
  "mutate_finish b f answer s =
     (case (if fl_request f = None then Inl Uri_Error else answer) of
        Inr new \<Rightarrow>
          render (s\<lparr>ws_applications := replaceApplication new (ws_applications s),
                    ws_cards := update_card (fl_card f) (settle_ok (fl_operation f)) (ws_cards s)\<rparr>)
      | Inl e \<Rightarrow>
          s\<lparr>ws_cards := update_card (fl_card f) (settle_error (application_error b e)) (ws_cards s)\<rparr>)"

definition edit_card :: "card_key \<Rightarrow> (card \<Rightarrow> card) \<Rightarrow> workspace \<Rightarrow> workspace" where
  "edit_card k f s =
     (case map_of (ws_cards s) k of
        None \<Rightarrow> s
      | Some (n, c) \<Rightarrow> s\<lparr>ws_cards := update_card n f (ws_cards s)\<rparr>)"

text \<open>A \<open>textarea\<close> with a \<open>maxLength\<close> takes no text beyond it, but lets a longer one shrink.\<close>

definition type_notes :: "jsstring \<Rightarrow> card \<Rightarrow> card" where
  "type_notes value c =
     (if length value \<le> max 10000 (length (card_notes c)) then c\<lparr>card_notes := value\<rparr> else c)"

definition app_source :: "workspace \<Rightarrow> card_key \<Rightarrow> jsstring option" where
  "app_source s k =
     (case find (\<lambda>a. app_id a = snd k) (ws_applications s) of None \<Rightarrow> None | Some a \<Rightarrow> reminder_source a)"

definition remove_at :: "nat \<Rightarrow> 'a list \<Rightarrow> 'a list" where
  "remove_at i xs = take i xs @ drop (Suc i) xs"

fun app_step :: "browser \<Rightarrow> app_event \<Rightarrow> workspace \<Rightarrow> workspace \<times> flight list" where
  "app_step b (Press k act fresh) s = mutate_start b k act fresh s"
| "app_step b (Type_Notes k value) s = (edit_card k (type_notes value) s, [])"
| "app_step b (Type_Reminder k value) s =
     (edit_card k (card_draft_update (\<lambda>_. Some (app_source s k, value))) s, [])"
| "app_step b (Show v) s = (render (s\<lparr>ws_view := v\<rparr>), [])"
| "app_step b (Answer i answer) s =
     (if i < length (ws_flying s)
      then (mutate_finish b (ws_flying s ! i) answer (s\<lparr>ws_flying := remove_at i (ws_flying s)\<rparr>), [])
      else (s, []))"

fun app_run :: "browser \<Rightarrow> app_event list \<Rightarrow> workspace \<Rightarrow> workspace \<times> flight list" where
  "app_run b [] s = (s, [])"
| "app_run b (e # es) s =
     (case app_step b e s of (s', fs) \<Rightarrow> (case app_run b es s' of (s'', gs) \<Rightarrow> (s'', fs @ gs)))"

section \<open>Requests of a card\<close>

lemma application_status_name_inject [simp]:
  "application_status_name s = application_status_name t \<longleftrightarrow> s = t"
  by (cases s; cases t) simp_all

lemma js_prefix [simp]:
  "js (c # s) @ x = js (d # t) @ y \<longleftrightarrow> c = d \<and> js s @ x = js t @ y"
  "js (c # s) @ x = js (d # t) \<longleftrightarrow> c = d \<and> js s @ x = js t"
  "js (d # t) = js (c # s) @ x \<longleftrightarrow> c = d \<and> js t = js s @ x"
  by (auto simp: js_Cons)

lemma true_false_suffix:
  assumes "x @ js ''-'' @ (if p then js ''false'' else js ''true'') =
           y @ js ''-'' @ (if q then js ''false'' else js ''true'')"
  shows "x = y \<and> p = q"
proof -
  from assms have "rev (x @ js ''-'' @ (if p then js ''false'' else js ''true'')) =
      rev (y @ js ''-'' @ (if q then js ''false'' else js ''true''))"
    by (rule arg_cong)
  then show ?thesis
    by (cases p; cases q) (simp_all add: js_Cons)
qed

lemma iso_zone_split:
  assumes "iso_string t @ js ''-'' @ z = iso_string u @ js ''-'' @ w"
  shows "iso_string t = iso_string u \<and> z = w"
proof -
  obtain x y where x: "iso_string t = x @ [0x5A]" "0x5A \<notin> set x" and y: "iso_string u = y @ [0x5A]" "0x5A \<notin> set y"
    using iso_string_Z by metis
  from assms x(1) y(1) have e: "x @ 0x5A # js ''-'' @ z = y @ 0x5A # js ''-'' @ w"
    by simp
  have "takeWhile (\<lambda>v. v \<noteq> 0x5A) (x @ 0x5A # js ''-'' @ z) = x"
    using x(2) by (subst takeWhile_append2) auto
  moreover have "takeWhile (\<lambda>v. v \<noteq> 0x5A) (y @ 0x5A # js ''-'' @ w) = y"
    using y(2) by (subst takeWhile_append2) auto
  ultimately have "x = y" using e by simp
  with e x(1) y(1) show ?thesis by (simp add: js_Cons)
qed

lemma iso_not_delete: "iso_string t @ js ''-'' @ z \<noteq> js ''delete''"
proof
  assume "iso_string t @ js ''-'' @ z = js ''delete''"
  then have "set (js ''-'') \<subseteq> set (js ''delete'')"
    by (metis Un_subset_iff set_append subset_refl)
  then show False by (simp add: js_Cons)
qed

text \<open>The five shapes of a call.\<close>

definition names_request :: "jsstring \<Rightarrow> jsstring \<Rightarrow> (jsstring \<Rightarrow> RequestOptions option) \<Rightarrow> bool" where
  "names_request i operation req \<longleftrightarrow>
     (\<exists>s. operation = js ''status-'' @ application_status_name s \<and>
        req = updateApplication i \<lparr>aupd_status = Some s, aupd_notes = None\<rparr>) \<or>
     (\<exists>k p. operation = js ''check-'' @ k @ js ''-'' @ (if p then js ''false'' else js ''true'') \<and>
        req = updateApplicationChecklistItem i k \<lparr>ciu_completed = \<not> p\<rparr>) \<or>
     (\<exists>n. operation = js ''notes-'' @ n \<and>
        req = updateApplication i \<lparr>aupd_status = None, aupd_notes = Some (non_empty (Some n))\<rparr>) \<or>
     (\<exists>t z. operation = js ''reminder-'' @ iso_string t @ js ''-'' @ z \<and>
        req = setApplicationReminder i \<lparr>rem_remind_at = iso_string t, rem_timezone = z\<rparr>) \<or>
     (operation = js ''reminder-delete'' \<and> req = deleteApplicationReminder i)"

lemma card_call_names:
  "card_call b a c act = Some (operation, label, req) \<Longrightarrow> names_request (app_id a) operation req"
  unfolding names_request_def
  by (cases act; auto simp: card_call_def reminder_body_def split: if_splits option.splits; blast)

text \<open>The operation names the request: for one application it determines the body as well.\<close>

lemma names_request_unique:
  assumes "names_request i operation req" and "names_request i operation req'"
  shows "req = req'"
  using assms(1) [unfolded names_request_def]
proof (elim disjE exE conjE)
  fix s assume "operation = js ''status-'' @ application_status_name s"
    "req = updateApplication i \<lparr>aupd_status = Some s, aupd_notes = None\<rparr>"
  with assms(2) show ?thesis by (auto simp: names_request_def)
next
  fix k p assume "operation = js ''check-'' @ k @ js ''-'' @ (if p then js ''false'' else js ''true'')"
    "req = updateApplicationChecklistItem i k \<lparr>ciu_completed = \<not> p\<rparr>"
  with assms(2) show ?thesis
    by (auto simp: names_request_def simp del: append_assoc dest!: true_false_suffix)
next
  fix n assume "operation = js ''notes-'' @ n"
    "req = updateApplication i \<lparr>aupd_status = None, aupd_notes = Some (non_empty (Some n))\<rparr>"
  with assms(2) show ?thesis by (auto simp: names_request_def)
next
  fix t z assume "operation = js ''reminder-'' @ iso_string t @ js ''-'' @ z"
    "req = setApplicationReminder i \<lparr>rem_remind_at = iso_string t, rem_timezone = z\<rparr>"
  with assms(2) show ?thesis
    by (auto simp: names_request_def iso_not_delete dest!: iso_zone_split)
next
  assume "operation = js ''reminder-delete''" "req = deleteApplicationReminder i"
  with assms(2) show ?thesis
    by (auto simp: names_request_def iso_not_delete [symmetric])
qed

lemma card_call_facts:
  assumes "card_call b a c act = Some (operation, label, req)"
  shows "kd_pending c = None" and "label \<noteq> []"
  using assms by (auto simp: card_call_def split: if_splits option.splits card_action.splits)

section \<open>Invariants of the workspace\<close>

abbreviation card_of :: "workspace \<Rightarrow> card_key \<Rightarrow> nat \<Rightarrow> card \<Rightarrow> bool" where
  "card_of s k n c \<equiv> (k, n, c) \<in> set (ws_cards s)"

text \<open>
  \<open>sent\<close> are the requests that have gone out.  A key stands for one operation of one card, a
  card belongs to one application, and the operation is that of the request.
\<close>

definition sent_inv :: "flight list \<Rightarrow> bool" where
  "sent_inv sent \<longleftrightarrow>
     (\<forall>f \<in> set sent. \<forall>g \<in> set sent. fl_key f = fl_key g \<longrightarrow>
        fl_card f = fl_card g \<and> fl_operation f = fl_operation g) \<and>
     (\<forall>f \<in> set sent. \<forall>g \<in> set sent. fl_card f = fl_card g \<longrightarrow> fl_application f = fl_application g) \<and>
     (\<forall>f \<in> set sent. \<exists>req. names_request (fl_application f) (fl_operation f) req \<and>
        fl_request f = req (fl_key f))"

text \<open>A number names one card, and a card's table holds keys of its own requests.\<close>

definition numbered :: "workspace \<Rightarrow> bool" where
  "numbered s \<longleftrightarrow>
     (\<forall>k n c. card_of s k n c \<longrightarrow> n < ws_counter s) \<and>
     (\<forall>k n c k' c'. card_of s k n c \<longrightarrow> card_of s k' n c' \<longrightarrow> k = k' \<and> c = c')"

definition tables_inv :: "workspace \<Rightarrow> flight list \<Rightarrow> bool" where
  "tables_inv s sent \<longleftrightarrow>
     (\<forall>f \<in> set sent. fl_card f < ws_counter s) \<and>
     (\<forall>k n c. card_of s k n c \<longrightarrow>
        (\<forall>f \<in> set sent. fl_card f = n \<longrightarrow> fl_application f = snd k) \<and>
        (\<forall>operation key. map_of (kd_keys c) operation = Some key \<longrightarrow>
          (\<exists>f \<in> set sent. fl_card f = n \<and> fl_operation f = operation \<and> fl_key f = key)))"

definition app_inv :: "workspace \<Rightarrow> flight list \<Rightarrow> bool" where
  "app_inv s sent \<longleftrightarrow> sent_inv sent \<and> numbered s \<and> tables_inv s sent"

text \<open>What is in flight is what the cards show as pending, one request per card.\<close>

definition flight_inv :: "workspace \<Rightarrow> bool" where
  "flight_inv s \<longleftrightarrow>
     distinct (map fl_card (ws_flying s)) \<and>
     (\<forall>f \<in> set (ws_flying s). fl_card f < ws_counter s) \<and>
     (\<forall>k n c. card_of s k n c \<longrightarrow>
        (kd_pending c \<noteq> None \<longleftrightarrow> n \<in> fl_card ` set (ws_flying s)) \<and> kd_pending c \<noteq> Some [])"

text \<open>Mounting keeps old cards and adds new ones with numbers of their own.\<close>

lemma mount_cards_Cons:
  assumes "mount_cards v old (a # as) n = (cs, n')"
  obtains (kept) ic cs1 where "map_of old (place_of v a, app_id a) = Some ic"
      "mount_cards v old as n = (cs1, n')" "cs = ((place_of v a, app_id a), ic) # cs1"
    | (new) cs1 where "map_of old (place_of v a, app_id a) = None"
      "mount_cards v old as (Suc n) = (cs1, n')" "cs = ((place_of v a, app_id a), n, initial_card a) # cs1"
proof (cases "map_of old (place_of v a, app_id a)")
  case None
  with assms new show ?thesis by (simp add: Let_def split: prod.splits)
next
  case (Some ic)
  with assms kept show ?thesis by (simp add: Let_def split: prod.splits)
qed

lemma mount_cards_mono: "mount_cards v old as n = (cs, n') \<Longrightarrow> n \<le> n'"
proof (induction as arbitrary: cs n)
  case (Cons a as)
  from Cons.prems show ?case
    by (cases rule: mount_cards_Cons) (use Cons.IH in fastforce)+
qed simp

lemma mount_cards_member:
  "mount_cards v old as n = (cs, n') \<Longrightarrow> (k, m, c) \<in> set cs \<Longrightarrow>
     (k, m, c) \<in> set old \<or> (n \<le> m \<and> m < n' \<and> (\<exists>a. c = initial_card a))"
proof (induction as arbitrary: cs n)
  case (Cons a as)
  from Cons.prems(1) show ?case
  proof (cases rule: mount_cards_Cons)
    case (kept ic cs1)
    with Cons.IH [OF kept(2)] Cons.prems(2) map_of_SomeD [OF kept(1)] show ?thesis by auto
  next
    case (new cs1)
    with Cons.IH [OF new(2)] Cons.prems(2) mount_cards_mono [OF new(2)] show ?thesis by auto
  qed
qed simp

lemma mount_cards_fresh:
  "mount_cards v old as n = (cs, n') \<Longrightarrow> \<forall>k m c. (k, m, c) \<in> set old \<longrightarrow> m < n \<Longrightarrow> n \<le> m \<Longrightarrow>
     (k, m, c) \<in> set cs \<Longrightarrow> (k', m, c') \<in> set cs \<Longrightarrow> k = k' \<and> c = c'"
proof (induction as arbitrary: cs n)
  case (Cons a as)
  from Cons.prems(1) show ?case
  proof (cases rule: mount_cards_Cons)
    case (kept ic cs1)
    obtain i d where ic: "ic = (i, d)" by (cases ic)
    with map_of_SomeD [OF kept(1)] Cons.prems(2) have "i < n" by blast
    then have "(k, m, c) \<in> set cs1" "(k', m, c') \<in> set cs1"
      using Cons.prems(3-5) kept(3) ic by auto
    with Cons.IH [OF kept(2) Cons.prems(2,3)] show ?thesis by blast
  next
    case (new cs1)
    have old: "\<forall>k m c. (k, m, c) \<in> set old \<longrightarrow> m < Suc n"
      using Cons.prems(2) less_Suc_eq by blast
    have later: "Suc n \<le> m" if "(l, m, d) \<in> set cs1" for l d
      using mount_cards_member [OF new(2) that] Cons.prems(2,3) leD by blast
    show ?thesis
    proof (cases "m = n")
      case True
      then have "(l, m, d) \<notin> set cs1" for l d using later by fastforce
      with Cons.prems(4,5) new(3) show ?thesis by auto
    next
      case False
      then have "(k, m, c) \<in> set cs1" "(k', m, c') \<in> set cs1" "Suc n \<le> m"
        using Cons.prems(3-5) new(3) by auto
      with Cons.IH [OF new(2) old] show ?thesis by blast
    qed
  qed
qed simp

lemma render_simps [simp]:
  "ws_applications (render s) = ws_applications s" "ws_view (render s) = ws_view s"
  "ws_flying (render s) = ws_flying s"
  by (simp_all add: render_def split: prod.split)

lemma render_counter: "ws_counter s \<le> ws_counter (render s)"
  by (auto simp: render_def split: prod.split intro: mount_cards_mono)

lemma render_cards:
  assumes "card_of (render s) k n c"
  shows "card_of s k n c \<or> (ws_counter s \<le> n \<and> n < ws_counter (render s) \<and> (\<exists>a. c = initial_card a))"
proof -
  obtain cs m where m: "mount_cards (ws_view s) (ws_cards s) (ws_applications s) (ws_counter s) = (cs, m)"
    by fastforce
  with assms have "(k, n, c) \<in> set cs" "ws_counter (render s) = m" by (simp_all add: render_def)
  with mount_cards_member [OF m] show ?thesis by blast
qed

lemma initial_card_simps [simp]: "kd_keys (initial_card a) = []" "kd_pending (initial_card a) = None"
  by (simp_all add: initial_card_def)

lemma numbered_render:
  assumes "numbered s" shows "numbered (render s)"
proof -
  obtain cs m where m: "mount_cards (ws_view s) (ws_cards s) (ws_applications s) (ws_counter s) = (cs, m)"
    by fastforce
  have old: "\<forall>k n c. card_of s k n c \<longrightarrow> n < ws_counter s"
    using assms by (simp add: numbered_def)
  have "n < ws_counter (render s)" if "card_of (render s) k n c" for k n c
    using render_cards [OF that] old render_counter [of s] by (metis less_le_trans)
  moreover have "k = k' \<and> c = c'"
    if r: "card_of (render s) k n c" "card_of (render s) k' n c'" for k n c k' c'
  proof (cases "n < ws_counter s")
    case True
    then have "card_of s k n c" "card_of s k' n c'"
      using render_cards [OF r(1)] render_cards [OF r(2)] by auto
    with assms show ?thesis unfolding numbered_def by blast
  next
    case False
    with mount_cards_fresh [OF m old, of n k c k' c'] r show ?thesis by (simp add: m render_def)
  qed
  ultimately show ?thesis unfolding numbered_def by blast
qed

lemma tables_inv_render:
  assumes "tables_inv s sent" shows "tables_inv (render s) sent"
  unfolding tables_inv_def
proof (intro conjI ballI allI impI)
  note i = assms [unfolded tables_inv_def]
  show "fl_card f < ws_counter (render s)" if "f \<in> set sent" for f
    using i that render_counter [of s] by (meson less_le_trans)
  show "fl_application f = snd k"
    if "card_of (render s) k n c" "f \<in> set sent" "fl_card f = n" for k n c f
    using render_cards [OF that(1)] that(2,3) i leD by blast
  show "\<exists>f \<in> set sent. fl_card f = n \<and> fl_operation f = operation \<and> fl_key f = key"
    if "card_of (render s) k n c" "map_of (kd_keys c) operation = Some key" for k n c operation key
    using render_cards [OF that(1)] that(2) i by fastforce
qed

lemma app_inv_render: "app_inv s sent \<Longrightarrow> app_inv (render s) sent"
  by (simp add: app_inv_def numbered_render tables_inv_render)

lemma flight_inv_render:
  assumes "flight_inv s" and "numbered s" shows "flight_inv (render s)"
  unfolding flight_inv_def
proof (intro conjI ballI allI impI)
  note i = assms(1) [unfolded flight_inv_def]
  show "distinct (map fl_card (ws_flying (render s)))" using i by simp
  show "fl_card f < ws_counter (render s)" if "f \<in> set (ws_flying (render s))" for f
    using i that render_counter [of s] by (auto intro: less_le_trans)
  fix k n c assume c: "card_of (render s) k n c"
  have "(kd_pending c \<noteq> None \<longleftrightarrow> n \<in> fl_card ` set (ws_flying s)) \<and> kd_pending c \<noteq> Some []"
    using render_cards [OF c]
  proof (elim disjE conjE exE)
    assume "card_of s k n c"
    with i show ?thesis by blast
  next
    fix a assume "ws_counter s \<le> n" "c = initial_card a"
    with i show ?thesis by (auto simp: leD)
  qed
  then show "(kd_pending c \<noteq> None) = (n \<in> fl_card ` set (ws_flying (render s)))" "kd_pending c \<noteq> Some []"
    by simp_all
qed

text \<open>Changes of one card.\<close>

lemma update_card_member:
  "(k, m, c') \<in> set (update_card n f cs) \<longleftrightarrow> (\<exists>c. (k, m, c) \<in> set cs \<and> c' = (if m = n then f c else c))"
  by (force simp: update_card_def)

lemma tablesD:
  assumes "tables_inv s sent"
  shows "f \<in> set sent \<Longrightarrow> fl_card f < ws_counter s"
    and "card_of s k n c \<Longrightarrow> f \<in> set sent \<Longrightarrow> fl_card f = n \<Longrightarrow> fl_application f = snd k"
    and "card_of s k n c \<Longrightarrow> map_of (kd_keys c) operation = Some key \<Longrightarrow>
      \<exists>f \<in> set sent. fl_card f = n \<and> fl_operation f = operation \<and> fl_key f = key"
  using assms unfolding tables_inv_def by blast+

lemma numberedD:
  assumes "numbered s"
  shows "card_of s k n c \<Longrightarrow> n < ws_counter s"
    and "card_of s k n c \<Longrightarrow> card_of s k' n c' \<Longrightarrow> k = k' \<and> c = c'"
  using assms unfolding numbered_def by blast+

lemma sentD:
  assumes "sent_inv sent" and "f \<in> set sent" "g \<in> set sent"
  shows "fl_key f = fl_key g \<Longrightarrow> fl_card f = fl_card g \<and> fl_operation f = fl_operation g"
    and "fl_card f = fl_card g \<Longrightarrow> fl_application f = fl_application g"
    and "\<exists>req. names_request (fl_application f) (fl_operation f) req \<and> fl_request f = req (fl_key f)"
  using assms unfolding sent_inv_def by blast+

lemma numbered_update:
  assumes "numbered s" and "ws_cards s' = update_card n f (ws_cards s)" "ws_counter s' = ws_counter s"
  shows "numbered s'"
  using assms unfolding numbered_def assms(2,3) update_card_member by blast

lemma tables_inv_update:
  assumes "tables_inv s sent" and "ws_cards s' = update_card n f (ws_cards s)" "ws_counter s' = ws_counter s"
    and f: "\<And>c operation key. map_of (kd_keys (f c)) operation = Some key \<Longrightarrow> map_of (kd_keys c) operation = Some key"
  shows "tables_inv s' sent"
  unfolding tables_inv_def
proof (intro conjI ballI allI impI)
  note i = tablesD [OF assms(1)]
  show "fl_card g < ws_counter s'" if "g \<in> set sent" for g
    using i(1) [OF that] assms(3) by simp
  have old: "\<exists>c0. card_of s k m c0 \<and> c = (if m = n then f c0 else c0)" if "card_of s' k m c" for k m c
    using that unfolding assms(2) update_card_member .
  show "fl_application g = snd k" if "card_of s' k m c" "g \<in> set sent" "fl_card g = m" for k m c g
    using old [OF that(1)] i(2) that(2,3) by blast
  show "\<exists>g \<in> set sent. fl_card g = m \<and> fl_operation g = operation \<and> fl_key g = key"
    if c: "card_of s' k m c" "map_of (kd_keys c) operation = Some key" for k m c operation key
  proof -
    obtain c0 where c0: "card_of s k m c0" "c = (if m = n then f c0 else c0)"
      using old [OF c(1)] by blast
    then have "map_of (kd_keys c0) operation = Some key"
      using c(2) f [of c0 operation key] by (cases "m = n") simp_all
    with c0(1) show ?thesis by (rule i(3))
  qed
qed

lemma app_inv_update:
  assumes "app_inv s sent" and "ws_cards s' = update_card n f (ws_cards s)" "ws_counter s' = ws_counter s"
    and "\<And>c operation key. map_of (kd_keys (f c)) operation = Some key \<Longrightarrow> map_of (kd_keys c) operation = Some key"
  shows "app_inv s' sent"
  using assms numbered_update tables_inv_update unfolding app_inv_def by blast

lemma app_inv_edit:
  assumes "app_inv s sent" and "\<And>c. kd_keys (f c) = kd_keys c"
  shows "app_inv (edit_card k f s) sent"
proof (cases "map_of (ws_cards s) k")
  case (Some nc)
  then show ?thesis
    by (cases nc) (auto simp: edit_card_def assms(2) intro!: app_inv_update [OF assms(1)])
qed (simp add: edit_card_def assms(1))

lemma app_inv_finish:
  assumes "app_inv s sent" shows "app_inv (mutate_finish b f answer s) sent"
proof (cases "if fl_request f = None then Inl Uri_Error else answer")
  case (Inl e)
  then show ?thesis
    by (auto simp: mutate_finish_def intro!: app_inv_update [OF assms])
next
  case (Inr new)
  have "app_inv (s\<lparr>ws_applications := replaceApplication new (ws_applications s),
      ws_cards := update_card (fl_card f) (settle_ok (fl_operation f)) (ws_cards s)\<rparr>) sent"
    by (rule app_inv_update [OF assms, where n = "fl_card f" and f = "settle_ok (fl_operation f)"])
       (auto split: if_splits)
  from app_inv_render [OF this] show ?thesis by (simp add: mutate_finish_def Inr)
qed

text \<open>A control that starts a request.\<close>

lemma mutate_start_cases:
  assumes "mutate_start b k act fresh s = (s', fs)"
  obtains (idle) "s' = s" "fs = []"
    | (sent) n c a operation label req c' key where
      "map_of (ws_cards s) k = Some (n, c)" "app_id a = snd k"
      "card_call b a c act = Some (operation, label, req)"
      "begin_keyed operation label fresh c = Some (c', key)"
      "fs = [\<lparr>fl_card = n, fl_application = snd k, fl_operation = operation,
              fl_request = req key, fl_key = key\<rparr>]"
      "s' = s\<lparr>ws_cards := update_card n (\<lambda>_. c') (ws_cards s), ws_flying := ws_flying s @ fs\<rparr>"
proof (cases "map_of (ws_cards s) k")
  case None
  with assms idle show ?thesis by (simp add: mutate_start_def)
next
  case (Some nc)
  obtain n c where nc: "nc = (n, c)" by (cases nc)
  show ?thesis
  proof (cases "find (\<lambda>a. app_id a = snd k) (ws_applications s)")
    case None
    with assms idle Some nc show ?thesis by (simp add: mutate_start_def)
  next
    case (Some a)
    then have a: "app_id a = snd k" by (auto simp: find_Some_iff)
    show ?thesis
    proof (cases "card_call b a c act")
      case None
      with assms idle Some nc \<open>map_of _ _ = _\<close> show ?thesis by (simp add: mutate_start_def)
    next
      case (Some call)
      obtain operation label req where call: "call = (operation, label, req)" by (cases call)
      show ?thesis
      proof (cases "begin_keyed operation label fresh c")
        case None
        with assms idle Some nc call \<open>map_of _ _ = _\<close> \<open>find _ _ = _\<close> show ?thesis
          by (simp add: mutate_start_def)
      next
        case (Some ck)
        obtain c' key where "ck = (c', key)" by (cases ck)
        with assms Some nc call a \<open>map_of _ _ = _\<close> \<open>find _ _ = _\<close> \<open>card_call _ _ _ _ = _\<close>
        show ?thesis
          by (intro sent [of n c a operation label req c' key]) (auto simp: mutate_start_def Let_def)
      qed
    qed
  qed
qed

lemma sent_inv_snoc:
  assumes "sent_inv sent"
    and "\<And>g. g \<in> set sent \<Longrightarrow> fl_key g = fl_key f \<Longrightarrow> fl_card g = fl_card f \<and> fl_operation g = fl_operation f"
    and "\<And>g. g \<in> set sent \<Longrightarrow> fl_card g = fl_card f \<Longrightarrow> fl_application g = fl_application f"
    and "\<exists>req. names_request (fl_application f) (fl_operation f) req \<and> fl_request f = req (fl_key f)"
  shows "sent_inv (sent @ [f])"
proof -
  have ins: "set (sent @ [f]) = insert f (set sent)" by simp
  have "fl_card x = fl_card y \<and> fl_operation x = fl_operation y"
    if "x \<in> insert f (set sent)" "y \<in> insert f (set sent)" "fl_key x = fl_key y" for x y
    using that sentD(1) [OF assms(1), of x y] assms(2) [of x] assms(2) [of y] by fastforce
  moreover have "fl_application x = fl_application y"
    if "x \<in> insert f (set sent)" "y \<in> insert f (set sent)" "fl_card x = fl_card y" for x y
    using that sentD(2) [OF assms(1), of x y] assms(3) [of x] assms(3) [of y] by fastforce
  moreover have "\<exists>req. names_request (fl_application x) (fl_operation x) req \<and> fl_request x = req (fl_key x)"
    if "x \<in> insert f (set sent)" for x
    using that sentD(3) [OF assms(1), of x x] assms(4) by blast
  ultimately show ?thesis unfolding sent_inv_def ins by blast
qed

lemma app_inv_start:
  assumes i: "app_inv s sent" and start: "mutate_start b k act fresh s = (s', fs)"
    and fresh: "fresh \<notin> fl_key ` set sent"
  shows "app_inv s' (sent @ fs)" and "\<forall>f \<in> set fs. fl_key f = fresh \<or> fl_key f \<in> fl_key ` set sent"
proof -
  have si: "sent_inv sent" and nu: "numbered s" and ta: "tables_inv s sent"
    using i by (simp_all add: app_inv_def)
  have "app_inv s' (sent @ fs) \<and> (\<forall>f \<in> set fs. fl_key f = fresh \<or> fl_key f \<in> fl_key ` set sent)"
    using start
  proof (cases rule: mutate_start_cases)
    case idle
    then show ?thesis using i by simp
  next
    case (sent n c a operation label req c' key)
    let ?f = "\<lparr>fl_card = n, fl_application = snd k, fl_operation = operation,
                fl_request = req key, fl_key = key\<rparr>"
    have c: "card_of s k n c" using sent(1) by (rule map_of_SomeD)
    have key: "key = or_else (map_of (kd_keys c) operation) fresh"
      and c': "map_of (kd_keys c') = (map_of (kd_keys c))(operation \<mapsto> key)"
      using sent(4) by (auto simp: begin_keyed_Some)
    note tab = tablesD(3) [OF ta c] and owner = tablesD(2) [OF ta c]
    have same: "fl_card g = n \<and> fl_operation g = operation" if g: "g \<in> set sent" "fl_key g = key" for g
    proof (cases "map_of (kd_keys c) operation")
      case None
      with key g fresh show ?thesis by (auto simp: or_else_def)
    next
      case (Some v)
      with key have "v = key" by (simp add: or_else_def)
      with tab [OF Some] g sentD(1) [OF si] show ?thesis by metis
    qed
    have named: "names_request (snd k) operation req"
      using card_call_names [OF sent(3)] sent(2) by simp
    have new: "sent_inv (sent @ [?f])"
    proof (rule sent_inv_snoc [OF si])
      show "fl_card g = fl_card ?f \<and> fl_operation g = fl_operation ?f" if "g \<in> set sent" "fl_key g = fl_key ?f" for g
        using same [of g] that by simp
      show "fl_application g = fl_application ?f" if "g \<in> set sent" "fl_card g = fl_card ?f" for g
        using owner [of g] that by simp
      show "\<exists>req. names_request (fl_application ?f) (fl_operation ?f) req \<and> fl_request ?f = req (fl_key ?f)"
        using named by auto
    qed
    have "numbered s'"
      by (rule numbered_update [OF nu]) (simp_all add: sent(6))
    moreover have "tables_inv s' (sent @ [?f])"
      unfolding tables_inv_def
    proof (intro conjI ballI allI impI)
      have old: "\<exists>d0. card_of s k' m d0 \<and> d = (if m = n then c' else d0)" if "card_of s' k' m d" for k' m d
        using that by (simp add: sent(6) update_card_member)
      show "fl_card g < ws_counter s'" if "g \<in> set (sent @ [?f])" for g
        using that tablesD(1) [OF ta, of g] numberedD(1) [OF nu c] sent(6) by (cases "g = ?f") simp_all
      show "fl_application g = snd k'" if d: "card_of s' k' m d" and g: "g \<in> set (sent @ [?f])" "fl_card g = m" for k' m d g
      proof -
        obtain d0 where d0: "card_of s k' m d0" using old [OF d] by blast
        show ?thesis
        proof (cases "g = ?f")
          case True
          with g(2) d0 numberedD(2) [OF nu c, of k' d0] show ?thesis by simp
        next
          case False
          with g tablesD(2) [OF ta d0, of g] show ?thesis by simp
        qed
      qed
      show "\<exists>g \<in> set (sent @ [?f]). fl_card g = m \<and> fl_operation g = o' \<and> fl_key g = v"
        if d: "card_of s' k' m d" "map_of (kd_keys d) o' = Some v" for k' m d o' v
      proof (cases "m = n")
        case True
        then have "d = c'" using old [OF d(1)] by auto
        with d(2) c' tab [of o' v] True show ?thesis by (cases "o' = operation") auto
      next
        case False
        then have "card_of s k' m d" using old [OF d(1)] by auto
        from tablesD(3) [OF ta this d(2)] show ?thesis by auto
      qed
    qed
    moreover have "key = fresh \<or> key \<in> fl_key ` set sent"
      using key tab by (cases "map_of (kd_keys c) operation") (auto simp: or_else_def)
    ultimately show ?thesis using new sent(5) by (simp add: app_inv_def)
  qed
  then show "app_inv s' (sent @ fs)" "\<forall>f \<in> set fs. fl_key f = fresh \<or> fl_key f \<in> fl_key ` set sent"
    by simp_all
qed

text \<open>Every event keeps the invariants.\<close>

fun fresh_keys :: "app_event list \<Rightarrow> jsstring list" where
  "fresh_keys [] = []"
| "fresh_keys (Press k act fresh # es) = fresh # fresh_keys es"
| "fresh_keys (e # es) = fresh_keys es"

lemma app_inv_cong:
  "ws_cards s' = ws_cards s \<Longrightarrow> ws_counter s' = ws_counter s \<Longrightarrow> app_inv s' sent = app_inv s sent"
  by (simp add: app_inv_def numbered_def tables_inv_def)

lemma type_notes_keyed [simp]:
  "kd_keys (type_notes value c) = kd_keys c" "kd_pending (type_notes value c) = kd_pending c"
  by (simp_all add: type_notes_def)

lemma app_inv_step:
  assumes i: "app_inv s sent" and step: "app_step b e s = (s', fs)"
    and fresh: "set (fresh_keys [e]) \<inter> fl_key ` set sent = {}"
  shows "app_inv s' (sent @ fs) \<and> fl_key ` set fs \<subseteq> set (fresh_keys [e]) \<union> fl_key ` set sent"
proof (cases e)
  case (Press k act fr)
  with step have start: "mutate_start b k act fr s = (s', fs)" by simp
  have "fr \<notin> fl_key ` set sent" using fresh Press by simp
  note r = app_inv_start [OF i start this]
  have "fl_key ` set fs \<subseteq> {fr} \<union> fl_key ` set sent" using r(2) by blast
  with r(1) Press show ?thesis by simp
next
  case (Type_Notes k x)
  have "s' = edit_card k (type_notes x) s" "fs = []" using step Type_Notes by simp_all
  with app_inv_edit [OF i, of "type_notes x" k] show ?thesis by simp
next
  case (Type_Reminder k x)
  have "s' = edit_card k (card_draft_update (\<lambda>_. Some (app_source s k, x))) s" "fs = []"
    using step Type_Reminder by simp_all
  with app_inv_edit [OF i, of "card_draft_update (\<lambda>_. Some (app_source s k, x))" k] show ?thesis
    by simp
next
  case (Show v)
  have "app_inv (s\<lparr>ws_view := v\<rparr>) sent" using i by (simp add: app_inv_cong [of "s\<lparr>ws_view := v\<rparr>" s])
  from app_inv_render [OF this] step Show show ?thesis by simp
next
  case (Answer n answer)
  let ?s = "s\<lparr>ws_flying := remove_at n (ws_flying s)\<rparr>"
  have "app_inv ?s sent" using i by (simp add: app_inv_cong [of ?s s])
  from app_inv_finish [OF this, of b "ws_flying s ! n" answer] i step Answer
  show ?thesis by (auto split: if_splits)
qed

lemma app_inv_run:
  "app_inv s sent \<Longrightarrow> distinct (fresh_keys es) \<Longrightarrow> set (fresh_keys es) \<inter> fl_key ` set sent = {} \<Longrightarrow>
     app_inv (fst (app_run b es s)) (sent @ snd (app_run b es s))"
proof (induction es arbitrary: s sent)
  case (Cons e es)
  obtain s' fs where step: "app_step b e s = (s', fs)" by fastforce
  have split: "fresh_keys (e # es) = fresh_keys [e] @ fresh_keys es"
    by (cases e) simp_all
  have now: "app_inv s' (sent @ fs)" "fl_key ` set fs \<subseteq> set (fresh_keys [e]) \<union> fl_key ` set sent"
    using app_inv_step [OF Cons.prems(1) step] Cons.prems(3) split by auto
  have "set (fresh_keys es) \<inter> fl_key ` set (sent @ fs) = {}"
    using now(2) Cons.prems(2,3) split by auto
  from Cons.IH [OF now(1) _ this] Cons.prems(2) show ?case
    by (cases "app_run b es s'") (simp add: step split)
qed simp

lemma app_inv_initial: "app_inv (initial_workspace page) []"
  unfolding initial_workspace_def
  by (rule app_inv_render) (simp add: app_inv_def sent_inv_def numbered_def tables_inv_def)

text \<open>Requests in flight and pending cards.\<close>

lemma flightD:
  assumes "flight_inv s"
  shows "distinct (map fl_card (ws_flying s))"
    and "f \<in> set (ws_flying s) \<Longrightarrow> fl_card f < ws_counter s"
    and "card_of s k n c \<Longrightarrow> kd_pending c \<noteq> None \<longleftrightarrow> n \<in> fl_card ` set (ws_flying s)"
    and "card_of s k n c \<Longrightarrow> kd_pending c \<noteq> Some []"
  using assms unfolding flight_inv_def by blast+

lemma flight_inv_edit:
  assumes i: "flight_inv s" and f: "\<And>c. kd_pending (f c) = kd_pending c"
  shows "flight_inv (edit_card k f s)"
proof (cases "map_of (ws_cards s) k")
  case (Some nc)
  obtain n c where nc: "nc = (n, c)" by (cases nc)
  let ?s = "s\<lparr>ws_cards := update_card n f (ws_cards s)\<rparr>"
  have "(kd_pending d \<noteq> None \<longleftrightarrow> m \<in> fl_card ` set (ws_flying s)) \<and> kd_pending d \<noteq> Some []"
    if "card_of ?s k' m d" for k' m d
  proof -
    have "(k', m, d) \<in> set (update_card n f (ws_cards s))" using that by simp
    then obtain d0 where d0: "card_of s k' m d0" "d = (if m = n then f d0 else d0)"
      unfolding update_card_member by blast
    then have "kd_pending d = kd_pending d0" using f by simp
    with flightD(3,4) [OF i d0(1)] show ?thesis by simp
  qed
  then have "flight_inv ?s"
    using flightD(1,2) [OF i] unfolding flight_inv_def by auto
  with Some nc show ?thesis by (simp add: edit_card_def)
qed (simp add: edit_card_def i)

lemma flight_inv_start:
  assumes i: "flight_inv s" and nu: "numbered s" and start: "mutate_start b k act fresh s = (s', fs)"
  shows "flight_inv s'"
  using start
proof (cases rule: mutate_start_cases)
  case idle
  then show ?thesis using i by simp
next
  case (sent n c a operation label req c' key)
  have c: "card_of s k n c" using sent(1) by (rule map_of_SomeD)
  have idle: "n \<notin> fl_card ` set (ws_flying s)"
    using flightD(3) [OF i c] card_call_facts(1) [OF sent(3)] by simp
  have c': "kd_pending c' = Some label" "label \<noteq> []"
    using sent(4) card_call_facts(2) [OF sent(3)] by (auto simp: begin_keyed_Some)
  have cards: "fl_card ` set (ws_flying s') = insert n (fl_card ` set (ws_flying s))"
    using sent(5,6) by simp
  show ?thesis
    unfolding flight_inv_def
  proof (intro conjI ballI allI impI)
    show "distinct (map fl_card (ws_flying s'))"
      using flightD(1) [OF i] idle sent(5,6) by simp
    show "fl_card f < ws_counter s'" if "f \<in> set (ws_flying s')" for f
      using that flightD(2) [OF i, of f] numberedD(1) [OF nu c] sent(5,6) by auto
    fix k' m d assume "card_of s' k' m d"
    then obtain d0 where d0: "card_of s k' m d0" "d = (if m = n then c' else d0)"
      using sent(6) by (auto simp: update_card_member)
    show "(kd_pending d \<noteq> None) = (m \<in> fl_card ` set (ws_flying s'))" "kd_pending d \<noteq> Some []"
      using d0(2) c' flightD(3,4) [OF i d0(1)] unfolding cards by auto
  qed
qed

lemma mset_remove_at: "i < length xs \<Longrightarrow> mset xs = add_mset (xs ! i) (mset (remove_at i xs))"
proof -
  assume "i < length xs"
  then have "xs = take i xs @ xs ! i # drop (Suc i) xs" by (simp add: id_take_nth_drop)
  then have "mset xs = mset (take i xs @ xs ! i # drop (Suc i) xs)" by simp
  then show ?thesis by (simp add: remove_at_def)
qed

lemma set_remove_at:
  assumes "i < length xs" and "distinct (map f xs)"
  shows "f ` set (remove_at i xs) = f ` set xs - {f (xs ! i)}" and "distinct (map f (remove_at i xs))"
proof -
  have xs: "xs = take i xs @ xs ! i # drop (Suc i) xs" using assms(1) by (simp add: id_take_nth_drop)
  have d: "distinct (map f (take i xs @ xs ! i # drop (Suc i) xs))" using assms(2) xs by simp
  have s: "set xs = set (take i xs @ xs ! i # drop (Suc i) xs)" using xs by simp
  show "f ` set (remove_at i xs) = f ` set xs - {f (xs ! i)}"
    unfolding s remove_at_def using d by (auto simp: image_iff)
  show "distinct (map f (remove_at i xs))"
    unfolding remove_at_def using d by auto
qed

lemma flight_inv_settle:
  assumes i: "flight_inv s" and n: "j < length (ws_flying s)" and f: "f = ws_flying s ! j"
    and "ws_cards s' = update_card (fl_card f) g (ws_cards s)" "ws_counter s' = ws_counter s"
    and "ws_flying s' = remove_at j (ws_flying s)" and g: "\<And>c. kd_pending (g c) = None"
  shows "flight_inv s'"
  unfolding flight_inv_def
proof (intro conjI ballI allI impI)
  note r = set_remove_at [OF n flightD(1) [OF i]]
  show "distinct (map fl_card (ws_flying s'))" using r(2) assms(6) by simp
  show "fl_card h < ws_counter s'" if "h \<in> set (ws_flying s')" for h
    using that flightD(2) [OF i, of h] assms(5,6) by (auto simp: remove_at_def dest: in_set_takeD in_set_dropD)
  fix k m d assume "card_of s' k m d"
  then obtain d0 where d0: "card_of s k m d0" "d = (if m = fl_card f then g d0 else d0)"
    unfolding assms(4) update_card_member by blast
  have c: "fl_card ` set (ws_flying s') = fl_card ` set (ws_flying s) - {fl_card f}"
    using r(1) assms(6) f by simp
  show "(kd_pending d \<noteq> None) = (m \<in> fl_card ` set (ws_flying s'))" "kd_pending d \<noteq> Some []"
    using d0(2) g [of d0] flightD(3,4) [OF i d0(1)] unfolding c by auto
qed

lemma settle_pending [simp]: "kd_pending (settle_ok operation c) = None" "kd_pending (settle_error m c) = None"
  by (simp_all add: settle_ok_def settle_error_def)

lemma flight_inv_step:
  assumes i: "flight_inv s" and nu: "numbered s"
  shows "flight_inv (fst (app_step b e s))"
proof (cases e)
  case (Press k act fr)
  obtain s' fs where "mutate_start b k act fr s = (s', fs)" by fastforce
  with flight_inv_start [OF i nu this] Press show ?thesis by simp
next
  case (Show v)
  have "flight_inv (s\<lparr>ws_view := v\<rparr>)" "numbered (s\<lparr>ws_view := v\<rparr>)"
    using i nu by (simp_all add: flight_inv_def numbered_def)
  from flight_inv_render [OF this] Show show ?thesis by simp
next
  case (Answer j answer)
  show ?thesis
  proof (cases "j < length (ws_flying s)")
    case j: True
    let ?f = "ws_flying s ! j" and ?s = "s\<lparr>ws_flying := remove_at j (ws_flying s)\<rparr>"
    show ?thesis
    proof (cases "if fl_request ?f = None then Inl Uri_Error else answer")
      case (Inl e)
      then show ?thesis
        using j by (auto simp: Answer mutate_finish_def
            intro!: flight_inv_settle [OF i j refl, where g = "settle_error (application_error b e)"])
    next
      case (Inr new)
      let ?t = "?s\<lparr>ws_applications := replaceApplication new (ws_applications s),
         ws_cards := update_card (fl_card ?f) (settle_ok (fl_operation ?f)) (ws_cards s)\<rparr>"
      have "flight_inv ?t"
        by (rule flight_inv_settle [OF i j refl, where g = "settle_ok (fl_operation ?f)"]) simp_all
      moreover have "numbered ?t"
        by (rule numbered_update [OF nu]) simp_all
      ultimately show ?thesis
        using j Inr flight_inv_render [of ?t] by (simp add: Answer mutate_finish_def)
    qed
  qed (use i Answer in simp)
qed (use i in \<open>simp_all add: flight_inv_edit\<close>)

lemma numbered_step:
  assumes nu: "numbered s" shows "numbered (fst (app_step b e s))"
proof (cases e)
  case (Press k act fr)
  obtain s' fs where start: "mutate_start b k act fr s = (s', fs)" by fastforce
  then have "numbered s'"
    by (cases rule: mutate_start_cases) (simp_all add: nu numbered_update [OF nu])
  with start Press show ?thesis by simp
next
  case (Show v)
  have "numbered (s\<lparr>ws_view := v\<rparr>)" using nu by (simp add: numbered_def)
  from numbered_render [OF this] Show show ?thesis by simp
next
  case (Answer j answer)
  show ?thesis
    by (auto simp: Answer mutate_finish_def nu split: sum.split intro!: numbered_render intro: numbered_update [OF nu])
qed (auto simp: edit_card_def nu split: option.split intro: numbered_update [OF nu])

lemma flight_inv_run:
  "flight_inv s \<Longrightarrow> numbered s \<Longrightarrow> flight_inv (fst (app_run b es s))"
proof (induction es arbitrary: s)
  case (Cons e es)
  obtain s' fs where step: "app_step b e s = (s', fs)" by fastforce
  with flight_inv_step [OF Cons.prems, of b e] numbered_step [OF Cons.prems(2), of b e]
  have "flight_inv s'" "numbered s'" by simp_all
  from Cons.IH [OF this] show ?case by (cases "app_run b es s'") (simp add: step)
qed simp

lemma flight_inv_initial: "flight_inv (initial_workspace page)"
  unfolding initial_workspace_def
  by (rule flight_inv_render) (simp_all add: flight_inv_def numbered_def)

section \<open>The cards provide the keyed-request interface\<close>

text \<open>
  \<open>mutate\<close> of one card, with the call its control made and the answer it got: the key of an
  operation is kept until it has succeeded.
\<close>

definition card_start ::
  "(jsstring \<times> jsstring) \<Rightarrow> jsstring \<Rightarrow> card \<Rightarrow> (card \<times> jsstring) option" where
  "card_start call fresh c =
     (if snd call = [] then None else begin_keyed (fst call) (snd call) fresh c)"

definition card_finish ::
  "browser \<Rightarrow> (jsstring \<times> jsstring) \<Rightarrow> thrown + ApplicationResponse \<Rightarrow> card \<Rightarrow> card" where
  "card_finish b call answer =
     (case answer of Inr _ \<Rightarrow> settle_ok (fst call) | Inl e \<Rightarrow> settle_error (application_error b e))"

interpretation mutate: keyed_requests is_busy "\<lambda>c. map_of (kd_keys c)" fst "\<lambda>_. isl" card_start "card_finish b"
  for b
proof
  show "card_start a fresh s = None" if "is_busy s" for s :: card and a fresh
    using that by (simp add: card_start_def begin_keyed_None)
  show "is_busy s' \<and> key = or_else (map_of (kd_keys s) (fst a)) fresh \<and>
      map_of (kd_keys s') = (map_of (kd_keys s))(fst a \<mapsto> key)"
    if "card_start a fresh s = Some (s', key)" for s s' :: card and a fresh key
    using that by (auto simp: card_start_def begin_keyed_Some split: if_splits)
  show "\<not> is_busy (card_finish b a r s)" for a r s
    by (cases r) (simp_all add: card_finish_def)
  show "map_of (kd_keys (card_finish b a r s)) =
      (if isl r then map_of (kd_keys s) else (map_of (kd_keys s))(fst a := None))" for a r s
    by (cases r) (simp_all add: card_finish_def)
qed

section \<open>Properties\<close>

definition sample_scholarship :: ScholarshipResponse where
  "sample_scholarship =
     \<lparr>sch_id = js ''s1'', sch_title = js ''Award'', sch_provider = js ''Fund'', sch_description = None,
      sch_amount = None, sch_currency = None, sch_funding_type = FundingFull, sch_funding_summary = None,
      sch_study_levels = [], sch_fields_of_study = [], sch_destination_countries = [],
      sch_nationality_requirements = [], sch_residency_requirements = [], sch_deadline = None,
      sch_eligibility_summary = None,
      sch_eligibility = \<lparr>elig_status = EligibilityUnknown, elig_summary = [], elig_reasons = [], elig_missing_facts = []\<rparr>,
      sch_requirements = [], sch_required_documents = [], sch_source_url = js ''https://fund.org'',
      sch_application_url = None,
      sch_provenance = \<lparr>prov_source_name = [], prov_source_url = [], prov_ingested_at = [], prov_last_checked_at = []\<rparr>,
      sch_verified_at = None, sch_saved = False, sch_status = Published, sch_created_at = [], sch_updated_at = []\<rparr>"

definition sample_application :: "string \<Rightarrow> ApplicationStatus \<Rightarrow> ApplicationStatus list \<Rightarrow> ApplicationResponse" where
  "sample_application i status transitions =
     \<lparr>app_id = js i, app_scholarship_id = js ''s1'', app_scholarship = sample_scholarship, app_status = status,
      app_allowed_transitions = transitions, app_checklist = [], app_document_readiness = [],
      app_status_history = [], app_reminder = None, app_notes = None, app_deadline_at = None,
      app_deadline_timezone = None, app_submitted_at = None, app_created_at = [], app_updated_at = []\<rparr>"

definition sample_browser :: browser where
  "sample_browser =
     \<lparr>bw_timezone = js ''UTC'', bw_local = (\<lambda>_. None), bw_parts = (\<lambda>_ _. []), bw_format = (\<lambda>_ _. []),
      bw_format_day = (\<lambda>_. []), bw_message = (\<lambda>_. None)\<rparr>"

text \<open>
  C8: An idempotency key stands for one change: in any run of the workspace, with any
  interleaving of controls and answers, two requests with the same key come from the same
  card and are the same request.
\<close>

theorem same_key_same_request:
  assumes "distinct (fresh_keys es)"
    and "f \<in> set (snd (app_run b es (initial_workspace page)))"
    and "g \<in> set (snd (app_run b es (initial_workspace page)))"
    and "fl_key f = fl_key g"
  shows "fl_card f = fl_card g \<and> fl_application f = fl_application g \<and>
    fl_operation f = fl_operation g \<and> fl_request f = fl_request g"
proof -
  have "app_inv (fst (app_run b es (initial_workspace page))) ([] @ snd (app_run b es (initial_workspace page)))"
    using app_inv_run [OF app_inv_initial assms(1)] by simp
  then have "sent_inv (snd (app_run b es (initial_workspace page)))"
    by (simp add: app_inv_def)
  note s = sentD [OF this assms(2,3)] sentD(3) [OF this assms(3,2)]
  have same: "fl_card f = fl_card g" "fl_operation f = fl_operation g" "fl_application f = fl_application g"
    using s(1) [OF assms(4)] s(2) by auto
  with s(3,4) assms(4) names_request_unique have "fl_request f = fl_request g" by metis
  with same show ?thesis by simp
qed

text \<open>The run of the next theorem: two tries on the board, one more after switching to the table.\<close>

definition three_tries ::
  "ApplicationResponse \<Rightarrow> ApplicationStatus \<Rightarrow> thrown \<Rightarrow> jsstring \<Rightarrow> jsstring \<Rightarrow> jsstring \<Rightarrow> app_event list" where
  "three_tries a status e k1 k2 k3 =
     [Press (In_Column (app_status a), app_id a) (Set_Status status) k1, Answer 0 (Inl e),
      Press (In_Column (app_status a), app_id a) (Set_Status status) k2, Answer 0 (Inl e),
      Show Table, Press (In_Table, app_id a) (Set_Status status) k3]"

lemma single_card:
  "initial_workspace (sample_page [a]) =
     \<lparr>ws_applications = [a], ws_view = Board,
      ws_cards = [((In_Column (app_status a), app_id a), 0, initial_card a)], ws_counter = 1, ws_flying = []\<rparr>"
  by (simp add: initial_workspace_def render_def place_of_def sample_page_def Let_def)

theorem same_key_same_request_witness:
  "\<exists>f g h. snd (app_run sample_browser
      (three_tries (sample_application ''a1'' AppSaved [AppPreparing]) AppPreparing Syntax_Error
        (js ''k1'') (js ''k2'') (js ''k3''))
      (initial_workspace (sample_page [sample_application ''a1'' AppSaved [AppPreparing]]))) = [f, g, h] \<and>
    fl_key f = js ''k1'' \<and> fl_key g = js ''k1'' \<and> fl_request g = fl_request f \<and> fl_request f \<noteq> None"
proof -
  let ?a = "sample_application ''a1'' AppSaved [AppPreparing]"
  let ?es = "three_tries ?a AppPreparing Syntax_Error (js ''k1'') (js ''k2'') (js ''k3'')"
  let ?sent = "snd (app_run sample_browser ?es (initial_workspace (sample_page [?a])))"
  have d: "distinct (fresh_keys ?es)" by (simp add: three_tries_def)
  have sent: "\<exists>f g h. ?sent = [f, g, h] \<and> fl_key f = js ''k1'' \<and> fl_key g = js ''k1'' \<and> fl_request f \<noteq> None"
    by (simp add: three_tries_def single_card mutate_start_def card_call_def begin_keyed_def is_busy_def
      non_empty_def initial_card_def or_else_def mutate_finish_def settle_error_def update_card_def
      remove_at_def render_def place_of_def Let_def sample_application_def updateApplication_def id_path_def
      encodeURIComponent_def)
  then obtain f g h where s: "?sent = [f, g, h]" "fl_key f = js ''k1''" "fl_key g = js ''k1''" "fl_request f \<noteq> None"
    by blast
  then have m: "f \<in> set ?sent" "g \<in> set ?sent" by simp_all
  have "fl_request f = fl_request g"
    using same_key_same_request [OF d m] s by simp
  with s show ?thesis by metis
qed

text \<open>
  C37: A failed status change is tried again with its key as long as the card stays mounted;
  switching between board and table mounts a new card, and the retry goes out with a new key,
  so that the server cannot recognise it as the same change.
\<close>

theorem retry_after_view_switch:
  assumes "status \<in> set (app_allowed_transitions a)"
  shows "map (\<lambda>f. (fl_application f, fl_operation f, fl_key f))
      (snd (app_run b (three_tries a status e k1 k2 k3) (initial_workspace (sample_page [a])))) =
    [(app_id a, js ''status-'' @ application_status_name status, k1),
     (app_id a, js ''status-'' @ application_status_name status, k1),
     (app_id a, js ''status-'' @ application_status_name status, k3)]"
  using assms
  by (simp add: three_tries_def single_card mutate_start_def card_call_def begin_keyed_def is_busy_def
      non_empty_def initial_card_def or_else_def mutate_finish_def settle_error_def update_card_def
      remove_at_def render_def place_of_def Let_def)

theorem retry_after_view_switch_witness:
  "map fl_key (snd (app_run sample_browser
      (three_tries (sample_application ''a1'' AppSaved [AppPreparing]) AppPreparing Syntax_Error
        (js ''k1'') (js ''k2'') (js ''k3''))
      (initial_workspace (sample_page [sample_application ''a1'' AppSaved [AppPreparing]])))) =
    [js ''k1'', js ''k1'', js ''k3'']"
proof -
  have "AppPreparing \<in> set (app_allowed_transitions (sample_application ''a1'' AppSaved [AppPreparing]))"
    by (simp add: sample_application_def)
  from arg_cong [where f = "map (\<lambda>x. snd (snd x))", OF retry_after_view_switch
      [OF this, of sample_browser Syntax_Error "js ''k1''" "js ''k2''" "js ''k3''"]]
  show ?thesis by (simp add: comp_def)
qed

text \<open>
  In any run a card has at most one request in flight, and it shows itself as pending
  exactly while its request is unanswered, so a card never stays disabled.
\<close>

theorem pending_while_in_flight:
  "distinct (map fl_card (ws_flying (fst (app_run b es (initial_workspace page))))) \<and>
   list_all (\<lambda>(k, n, c). kd_pending c \<noteq> None \<longleftrightarrow>
       n \<in> fl_card ` set (ws_flying (fst (app_run b es (initial_workspace page)))))
     (ws_cards (fst (app_run b es (initial_workspace page))))"
proof -
  have "numbered (initial_workspace page)" using app_inv_initial by (simp add: app_inv_def)
  note i = flight_inv_run [OF flight_inv_initial this, of b es]
  show ?thesis
    using flightD(1) [OF i] unfolding list_all_iff
    by (intro conjI ballI) (simp_all only: split_paired_all prod.case flightD(3) [OF i])
qed

lemma board_filter: "mset (concat (map (\<lambda>s. filter (\<lambda>x. f x = s) xs) ss)) = filter_mset (\<lambda>x. f x \<in> set ss) (mset xs)"
  if "distinct ss"
  using that
proof (induction ss)
  case (Cons s ss)
  have "filter_mset (\<lambda>x. f x \<in> set (s # ss)) (mset xs) =
      filter_mset (\<lambda>x. f x = s) (mset xs) + filter_mset (\<lambda>x. f x \<in> set ss) (mset xs)"
    using Cons.prems by (induction xs) auto
  with Cons show ?case by (simp add: mset_filter)
qed simp

lemma STATUSES_all: "status \<in> set STATUSES" "distinct STATUSES"
  by (cases status) (simp_all add: STATUSES_def)

text \<open>
  C33: The board shows every application exactly once: its columns hold, together, the
  applications of the workspace; and no answer adds, drops or reorders an application.
\<close>

theorem board_shows_all_once:
  "mset (concat (map snd (board_columns applications))) = mset applications \<and>
   map app_id (ws_applications (fst (app_run b es (initial_workspace page)))) = map app_id (page_data page)"
proof
  have "map snd (board_columns applications) = map (\<lambda>s. filter (\<lambda>x. app_status x = s) applications) STATUSES"
    by (simp add: board_columns_def comp_def)
  then show "mset (concat (map snd (board_columns applications))) = mset applications"
    using board_filter [OF STATUSES_all(2), of app_status applications] STATUSES_all(1) by simp
  have start: "ws_applications (fst (mutate_start b k act fr s)) = ws_applications s" for k act fr s
  proof -
    obtain s' fs where m: "mutate_start b k act fr s = (s', fs)" by fastforce
    from m show ?thesis by (cases rule: mutate_start_cases) (simp_all add: m)
  qed
  have step: "map app_id (ws_applications (fst (app_step b e s))) = map app_id (ws_applications s)" for e s
    by (cases e) (simp_all add: start edit_card_def mutate_finish_def replaceApplication_def
        split: option.split sum.split)
  have "map app_id (ws_applications (fst (app_run b es s))) = map app_id (ws_applications s)" for s
  proof (induction es arbitrary: s)
    case (Cons e es)
    obtain s' fs where e: "app_step b e s = (s', fs)" by fastforce
    with Cons [of s'] step [of e s] show ?case by (cases "app_run b es s'") simp
  qed simp
  then show "map app_id (ws_applications (fst (app_run b es (initial_workspace page)))) = map app_id (page_data page)"
    by (simp add: initial_workspace_def)
qed

text \<open>
  Moving an application to another column mounts a new card there: the notes the student
  had typed but not saved are replaced by the saved ones.
\<close>

theorem status_move_drops_notes:
  assumes "app_status new \<noteq> app_status a" and "app_id new = app_id a"
    and "status \<in> set (app_allowed_transitions a)" and "length notes \<le> 10000"
    and "updateApplication (app_id a) \<lparr>aupd_status = Some status, aupd_notes = None\<rparr> k1 \<noteq> None"
  shows "map (\<lambda>(_, _, c). card_notes c) (ws_cards (fst (app_run b
      [Type_Notes (In_Column (app_status a), app_id a) notes,
       Press (In_Column (app_status a), app_id a) (Set_Status status) k1, Answer 0 (Inr new)]
      (initial_workspace (sample_page [a]))))) = [or_else (app_notes new) []]"
proof -
  obtain y where "updateApplication (app_id a) \<lparr>aupd_status = Some status, aupd_notes = None\<rparr> k1 = Some y"
    using assms(5) by blast
  with assms(1-4) show ?thesis
  by (simp add: single_card edit_card_def type_notes_def mutate_start_def card_call_def begin_keyed_def
      is_busy_def non_empty_def initial_card_def mutate_finish_def update_card_def remove_at_def
      render_def place_of_def replaceApplication_def replace_by_def Let_def or_else_def le_max_iff_disj)
qed

theorem status_move_drops_notes_witness:
  "map (\<lambda>(_, _, c). card_notes c) (ws_cards (fst (app_run sample_browser
      [Type_Notes (In_Column AppSaved, js ''a1'') (js ''ask for references''),
       Press (In_Column AppSaved, js ''a1'') (Set_Status AppPreparing) (js ''k1''),
       Answer 0 (Inr (sample_application ''a1'' AppPreparing []))]
      (initial_workspace (sample_page [sample_application ''a1'' AppSaved [AppPreparing]]))))) = [[]]"
  using status_move_drops_notes [of "sample_application ''a1'' AppPreparing []"
      "sample_application ''a1'' AppSaved [AppPreparing]" AppPreparing "js ''ask for references''" "js ''k1''"]
  by (simp add: sample_application_def updateApplication_def id_path_def encodeURIComponent_def or_else_def)

end
