(* ===== verification/Upload.thy ===== *)
theory Upload
  imports Keyed_Requests Js_Date
begin

text \<open>
  Private uploads, \<^verbatim>\<open>app/lib/documents/upload.ts\<close>: the check of a file against the policy, the
  request an upload makes, and the promise around the \<open>XMLHttpRequest\<close>, driven by the events the
  browser fires.
\<close>

section \<open>Files and policy\<close>

record File =
  file_name :: jsstring
  file_type :: jsstring
  file_size :: nat
  file_modified :: int

text \<open>
  A size in tenths of a megabyte, as the template prints it.  The quotient and the product are
  exact in doubles for sizes below \<open>2 ^ 49\<close>.
\<close>

definition tenths :: "int \<Rightarrow> jsstring" where
  "tenths n =
     js_of_int (n div 10) @ (if n mod 10 = 0 then [] else js ''.'' @ js_of_int (n mod 10))"

definition formatBytes :: "nat \<Rightarrow> jsstring" where
  "formatBytes bytes = tenths (math_round (of_nat bytes / 1024 / 1024 * 10)) @ js '' MB''"

fun join :: "jsstring \<Rightarrow> jsstring list \<Rightarrow> jsstring" where
  "join sep [] = []"
| "join sep [x] = x"
| "join sep (x # y # xs) = x @ sep @ join sep (y # xs)"

definition validateDocumentFile :: "File \<Rightarrow> DocumentUploadPolicy \<Rightarrow> jsstring option" where
  "validateDocumentFile f policy =
     (if file_size f > policy_max_size_bytes policy
      then Some (js ''Choose a file smaller than '' @ formatBytes (policy_max_size_bytes policy) @ js ''.'')
      else if file_type f \<notin> set (policy_allowed_mime_types policy)
      then Some (js ''Choose an approved file type: '' @ join (js '', '') (policy_accepted_extensions policy) @ js ''.'')
      else None)"

definition isSignedUrlExpired :: "(jsstring \<Rightarrow> int option) \<Rightarrow> jsstring \<Rightarrow> int \<Rightarrow> bool" where
  "isSignedUrlExpired engine expiresAt now =
     (case date_parse engine expiresAt of None \<Rightarrow> True | Some expires \<Rightarrow> expires \<le> now + 5000)"

section \<open>The request\<close>

record UploadInput =
  up_file :: File
  up_documentType :: "DocumentType option"
  up_documentId :: "jsstring option"
  up_key :: jsstring

record upload_body =
  form_document_type :: "jsstring option"
  form_file :: File

record xhr_request =
  xhr_method :: http_method
  xhr_url :: jsstring
  xhr_headers :: "(jsstring, jsstring) dict"
  xhr_body :: upload_body

definition xhr_headers_of :: "jsstring \<Rightarrow> jsstring \<Rightarrow> (jsstring, jsstring) dict" where
  "xhr_headers_of accessToken idempotencyKey =
     [(js ''Accept'', js ''application/json''), (js ''Authorization'', js ''Bearer '' @ accessToken),
      (js ''Idempotency-Key'', idempotencyKey)]"

text \<open>
  \<open>uploadPrivateDocument\<close> up to the request it sends: \<open>env\<close> is the result of \<open>getPublicEnv\<close>
  (a failure names the missing variable), \<open>token\<close> the session's access token.
\<close>

definition uploadPrivateDocument ::
  "jsstring + PublicEnv \<Rightarrow> jsstring option \<Rightarrow> UploadInput \<Rightarrow> caught + xhr_request" where
  "uploadPrivateDocument env token input =
     (case non_empty token of
        None \<Rightarrow> Inl (Plain_Error (js ''Your session has expired. Sign in again to upload.''))
      | Some accessToken \<Rightarrow>
        (let replacing = non_empty (up_documentId input);
             suffix = (case replacing of
                         None \<Rightarrow> Some []
                       | Some i \<Rightarrow> map_option (\<lambda>e. js ''/'' @ e) (encodeURIComponent i))
         in case suffix of
              None \<Rightarrow> Inl (Client Uri_Error)
            | Some s \<Rightarrow>
              (case env of
                 Inl name \<Rightarrow> Inl (Plain_Error name)
               | Inr e \<Rightarrow>
                   Inr \<lparr>xhr_method = (if replacing = None then POST else PUT),
                        xhr_url = strip_slash (apiBaseUrl e) @ js ''/profile/documents'' @ s,
                        xhr_headers = xhr_headers_of accessToken (up_key input),
                        xhr_body = \<lparr>form_document_type = map_option document_type_name (up_documentType input),
                                    form_file = up_file input\<rparr>\<rparr>)))"

section \<open>The promise\<close>

datatype xhr_event =
    Upload_Progress bool nat nat
  | Load nat jsstring
  | Network_Error
  | Aborted

text \<open>
  \<open>new Response(text, {status})\<close> throws outside 200 to 599 and, since the text is never null,
  for the statuses that allow no body.
\<close>

definition response_throws :: "nat \<Rightarrow> bool" where
  "response_throws status \<longleftrightarrow> status < 200 \<or> 599 < status \<or> status \<in> {204, 205, 304}"

text \<open>A promise and the progress it has reported; a promise settles at most once.\<close>

record 'a xhr_upload =
  upload_result :: "(ApiError + 'a) option"
  upload_progress :: "int list"

definition settle :: "ApiError + 'a \<Rightarrow> 'a xhr_upload \<Rightarrow> 'a xhr_upload" where
  "settle r u = (if upload_result u = None then u\<lparr>upload_result := Some r\<rparr> else u)"

definition report :: "int \<Rightarrow> 'a xhr_upload \<Rightarrow> 'a xhr_upload" where
  "report p u = u\<lparr>upload_progress := upload_progress u @ [p]\<rparr>"

text \<open>
  The listeners.  \<open>read\<close> reads a JSON error body, \<open>parse\<close> the document of a success; what the
  \<open>load\<close> listener throws is lost, since nothing awaits it.
\<close>

fun xhr_listener ::
  "(jsstring \<Rightarrow> json option) \<Rightarrow> (jsstring \<Rightarrow> 'a option) \<Rightarrow> xhr_event \<Rightarrow> 'a xhr_upload \<Rightarrow> 'a xhr_upload" where
  "xhr_listener read parse (Upload_Progress computable loaded size_all) u =
     (if computable then report (math_round (of_nat loaded / of_nat size_all * 100)) u else u)"
| "xhr_listener read parse (Load status text) u =
     (if response_throws status then u
      else if \<not> response_ok status
      then settle (Inl (apiErrorFromResponse
             \<lparr>res_status = status, res_retry_after = None, res_json = read text, res_text = Some text\<rparr>)) u
      else (case parse text of
              None \<Rightarrow> report 100 u
            | Some d \<Rightarrow> settle (Inr d) (report 100 u)))"
| "xhr_listener read parse Network_Error u = settle (Inl (apiErrorFromNetwork False)) u"
| "xhr_listener read parse Aborted u = settle (Inl (apiErrorFromNetwork True)) u"

definition xhrUpload ::
  "(jsstring \<Rightarrow> json option) \<Rightarrow> (jsstring \<Rightarrow> 'a option) \<Rightarrow> xhr_event list \<Rightarrow> 'a xhr_upload" where
  "xhrUpload read parse events =
     fold (xhr_listener read parse) events \<lparr>upload_result = None, upload_progress = []\<rparr>"

text \<open>The events of one request: progress, then one event that ends it.\<close>

definition request_events :: "xhr_event list \<Rightarrow> bool" where
  "request_events events \<longleftrightarrow>
     events \<noteq> [] \<and> (case last events of Upload_Progress _ _ _ \<Rightarrow> False | _ \<Rightarrow> True) \<and>
     list_all (\<lambda>e. case e of Upload_Progress _ loaded size_all \<Rightarrow> loaded \<le> size_all \<and> 0 < size_all | _ \<Rightarrow> False)
       (butlast events)"

section \<open>Lemmas\<close>

lemma upload_simps [simp]:
  "upload_result (report p u) = upload_result u"
  "upload_progress (settle r u) = upload_progress u"
  "upload_progress (report p u) = upload_progress u @ [p]"
  "upload_result (settle r u) = (if upload_result u = None then Some r else upload_result u)"
  by (simp_all add: report_def settle_def)

lemma upload_percent:
  assumes "loaded \<le> size_all" and "0 < size_all"
  shows "0 \<le> math_round (of_nat loaded / of_nat size_all * 100)" "math_round (of_nat loaded / of_nat size_all * 100) \<le> 100"
proof -
  have q: "(0 :: rat) \<le> of_nat loaded / of_nat size_all * 100" "(of_nat loaded / of_nat size_all * 100 :: rat) \<le> 100"
    using assms by (simp_all add: divide_le_eq)
  have "math_round (0 :: rat) = 0" "math_round (100 :: rat) = 100"
    using math_round_of_int [of 0] math_round_of_int [of 100] by simp_all
  with math_round_mono [OF q(1)] math_round_mono [OF q(2)]
  show "0 \<le> math_round (of_nat loaded / of_nat size_all * 100)" "math_round (of_nat loaded / of_nat size_all * 100) \<le> 100"
    by simp_all
qed

lemma progress_events:
  assumes "list_all (\<lambda>e. case e of Upload_Progress _ loaded size_all \<Rightarrow> loaded \<le> size_all \<and> 0 < size_all | _ \<Rightarrow> False) es"
  shows "upload_result (fold (xhr_listener read parse) es u) = upload_result u \<and>
    (\<forall>p \<in> set (upload_progress (fold (xhr_listener read parse) es u)).
       p \<in> set (upload_progress u) \<or> (0 \<le> p \<and> p \<le> 100))"
  using assms
proof (induction es arbitrary: u)
  case (Cons e es)
  then obtain c l t where e: "e = Upload_Progress c l t" "l \<le> t" "0 < t"
    by (auto split: xhr_event.splits)
  have es: "list_all (\<lambda>e. case e of Upload_Progress _ loaded size_all \<Rightarrow> loaded \<le> size_all \<and> 0 < size_all | _ \<Rightarrow> False) es"
    using Cons.prems by simp
  show ?case
    using Cons.IH [OF es, of "xhr_listener read parse e u"] upload_percent [OF e(2,3)] e(1) by auto
qed simp

section \<open>Properties\<close>



end
