(* ===== verification/Documents.thy ===== *)
theory Documents
  imports Upload
begin

text \<open>
  The document manager, \<^verbatim>\<open>app/components/documents/document-manager.tsx\<close>: the private library
  with uploads, replacements, renames, downloads through short-lived links and deletions, all of
  them through \<open>run\<close>, one at a time; and the readiness panel.
\<close>

section \<open>Texts\<close>

fun documentStatusCopy :: "DocumentStatus \<Rightarrow> jsstring" where
  "documentStatusCopy DocumentPending = js ''Waiting to scan''"
| "documentStatusCopy DocumentScanning = js ''Security scan''"
| "documentStatusCopy DocumentProcessing = js ''Processing''"
| "documentStatusCopy DocumentReady = js ''Ready''"
| "documentStatusCopy DocumentRejected = js ''Rejected''"
| "documentStatusCopy DocumentFailed = js ''Processing failed''"

datatype icon = Check_Icon | Cross_Icon | Shield_Icon

definition documentStatusIcon :: "DocumentStatus \<Rightarrow> icon" where
  "documentStatusIcon status =
     (if status = DocumentReady then Check_Icon
      else if status = DocumentFailed \<or> status = DocumentRejected then Cross_Icon else Shield_Icon)"

definition documentTypeLabel :: "DocumentType \<Rightarrow> jsstring" where
  "documentTypeLabel t =
     join (js '' '') (map (\<lambda>part. to_upper (take 1 part) @ drop 1 part) (split_on 0x5F (document_type_name t)))"

definition library_bytes :: "nat \<Rightarrow> jsstring" where
  "library_bytes bytes =
     (if 1024 * 1024 \<le> bytes then tenths (math_round (of_nat bytes / 1024 / 1024 * 10)) @ js '' MB''
      else js_of_int (max 1 (math_round (of_nat bytes / 1024))) @ js '' KB'')"

definition fileOperationId :: "jsstring \<Rightarrow> File \<Rightarrow> DocumentType option \<Rightarrow> jsstring" where
  "fileOperationId before f t =
     join (js '':'')
       ([before] @ (case t of None \<Rightarrow> [] | Some d \<Rightarrow> [document_type_name d])
        @ [file_name f, file_type f, js_of_nat (file_size f), js_of_int (file_modified f)])"

definition document_error :: "(thrown \<Rightarrow> jsstring option) \<Rightarrow> caught \<Rightarrow> jsstring" where
  "document_error engine e =
     (case e of
        Plain_Error m \<Rightarrow> m
      | Client c \<Rightarrow> error_text engine (js ''That document action failed. Try again.'') c)"

section \<open>State\<close>

text \<open>What is being awaited, and what an answer can be.\<close>

datatype doc_job =
    Upload_Job
  | Replace_Job
  | Rename_Job
  | Download_Job jsstring
  | Delete_Job jsstring

datatype doc_answer =
    Failed caught
  | Got_Document DocumentResponse
  | Got_Link SignedDocumentUrlResponse int
  | Deleted

datatype doc_effect =
    Sent "jsstring \<times> jsstring" jsstring "RequestOptions option"
  | Uploading "jsstring \<times> jsstring" UploadInput
  | Opened jsstring int SignedDocumentUrlResponse

record manager = keyed +
  dm_documents :: "DocumentResponse list"
  dm_documentType :: "DocumentType option"
  dm_file :: "File option"
  dm_progress :: "int option"
  dm_confirmingDelete :: "jsstring option"
  dm_signedUrls :: "(jsstring, SignedDocumentUrlResponse) dict"
  dm_awaiting :: "(doc_job \<times> jsstring) option"
  dm_rows :: "(jsstring, bool \<times> jsstring) dict"

text \<open>The rename control of a row is mounted with the name the document has then.\<close>

definition mount_rows ::
  "DocumentResponse list \<Rightarrow> (jsstring, bool \<times> jsstring) dict \<Rightarrow> (jsstring, bool \<times> jsstring) dict" where
  "mount_rows documents old =
     map (\<lambda>d. (doc_id d, or_else (map_of old (doc_id d)) (False, doc_display_name d))) documents"

definition set_documents :: "DocumentResponse list \<Rightarrow> manager \<Rightarrow> manager" where
  "set_documents documents s = s\<lparr>dm_documents := documents, dm_rows := mount_rows documents (dm_rows s)\<rparr>"

definition replaceDocument :: "DocumentResponse \<Rightarrow> manager \<Rightarrow> manager" where
  "replaceDocument new s = set_documents (upsert_by doc_id new (dm_documents s)) s"

definition initial_manager :: "DocumentPage \<Rightarrow> DocumentUploadPolicy \<Rightarrow> manager" where
  "initial_manager page policy =
     \<lparr>kd_pending = None, kd_error = None, kd_keys = [], dm_documents = page_data page,
      dm_documentType = (case policy_allowed_document_types policy of [] \<Rightarrow> None | t # _ \<Rightarrow> Some t),
      dm_file = None, dm_progress = None, dm_confirmingDelete = None, dm_signedUrls = [],
      dm_awaiting = None, dm_rows = mount_rows (page_data page) []\<rparr>"

section \<open>Operations\<close>

text \<open>The browser and the caller: the reading of dates without a zone, the messages of errors.\<close>

record doc_env =
  de_policy :: DocumentUploadPolicy
  de_local :: "jsstring \<Rightarrow> int option"
  de_message :: "thrown \<Rightarrow> jsstring option"

definition validate_file :: "doc_env \<Rightarrow> File \<Rightarrow> manager \<Rightarrow> manager \<times> bool" where
  "validate_file e f s =
     (let message = validateDocumentFile f (de_policy e)
      in (s\<lparr>kd_error := message\<rparr>, non_empty message = None))"

text \<open>\<open>run\<close> up to the first \<open>await\<close> of its action, and from the answer on.\<close>

definition run_start ::
  "(jsstring \<times> jsstring) \<Rightarrow> jsstring \<Rightarrow> manager \<Rightarrow> (manager \<times> jsstring) option" where
  "run_start call fresh s = (if snd call = [] then None else begin_keyed (fst call) (snd call) fresh s)"

definition expired_message :: jsstring where
  "expired_message = js ''The download link expired before it could be used. Try again.''"

definition run_finish :: "doc_env \<Rightarrow> (jsstring \<times> jsstring) \<Rightarrow> doc_answer \<Rightarrow> manager \<Rightarrow> manager" where
  "run_finish e call answer s =
     (case answer of
        Failed c \<Rightarrow> settle_error (document_error (de_message e) c) s
      | Got_Link link now \<Rightarrow>
          if isSignedUrlExpired (de_local e) (signed_expires_at link) now
          then settle_error expired_message (s\<lparr>kd_keys := dict_delete (fst call) (kd_keys s)\<rparr>)
          else settle_ok (fst call) s
      | _ \<Rightarrow> settle_ok (fst call) s)"

text \<open>What the action does with its answer, before \<open>run\<close> goes on.\<close>

definition action_finish ::
  "doc_env \<Rightarrow> doc_job \<Rightarrow> doc_answer \<Rightarrow> manager \<Rightarrow> manager \<times> doc_effect list" where
  "action_finish e job answer s =
     (case (job, answer) of
        (Upload_Job, Got_Document d) \<Rightarrow> ((replaceDocument d s)\<lparr>dm_file := None, dm_progress := None\<rparr>, [])
      | (Replace_Job, Got_Document d) \<Rightarrow> ((replaceDocument d s)\<lparr>dm_progress := None\<rparr>, [])
      | (Rename_Job, Got_Document d) \<Rightarrow> (replaceDocument d s, [])
      | (Download_Job i, Got_Link link now) \<Rightarrow>
          if isSignedUrlExpired (de_local e) (signed_expires_at link) now then (s, [])
          else (s\<lparr>dm_signedUrls := dict_set i link (dm_signedUrls s)\<rparr>, [Opened i now link])
      | (Delete_Job i, Deleted) \<Rightarrow>
          (set_documents (filter (\<lambda>d. doc_id d \<noteq> i) (dm_documents s)) (s\<lparr>dm_confirmingDelete := None\<rparr>), [])
      | _ \<Rightarrow> (s, []))"

text \<open>An answer that fits what is awaited.\<close>

fun answers :: "doc_job \<Rightarrow> doc_answer \<Rightarrow> bool" where
  "answers job (Failed _) = True"
| "answers Upload_Job (Got_Document _) = True"
| "answers Replace_Job (Got_Document _) = True"
| "answers Rename_Job (Got_Document _) = True"
| "answers (Download_Job _) (Got_Link _ _) = True"
| "answers (Delete_Job _) Deleted = True"
| "answers _ _ = False"

definition begin_job ::
  "doc_job \<Rightarrow> (jsstring \<times> jsstring) \<Rightarrow> jsstring \<Rightarrow> (manager \<Rightarrow> manager) \<Rightarrow> (jsstring \<Rightarrow> doc_effect) \<Rightarrow>
     manager \<Rightarrow> manager \<times> doc_effect list" where
  "begin_job job call fresh prepare effect s =
     (case run_start call fresh s of
        None \<Rightarrow> (s, [])
      | Some (s', key) \<Rightarrow> ((prepare s')\<lparr>dm_awaiting := Some (job, fst call)\<rparr>, [effect key]))"

definition upload :: "doc_env \<Rightarrow> jsstring \<Rightarrow> manager \<Rightarrow> manager \<times> doc_effect list" where
  "upload e fresh s =
     (case dm_file s of
        None \<Rightarrow> (s, [])
      | Some f \<Rightarrow>
        (case validate_file e f s of
           (s1, False) \<Rightarrow> (s1, [])
         | (s1, True) \<Rightarrow>
             (let call = (fileOperationId (js ''upload'') f (dm_documentType s), js ''upload'')
              in begin_job Upload_Job call fresh (\<lambda>s2. s2\<lparr>dm_progress := Some 0\<rparr>)
                   (\<lambda>key. Uploading call \<lparr>up_file = f, up_documentType = dm_documentType s,
                                          up_documentId = None, up_key = key\<rparr>) s1)))"

definition replace_file ::
  "doc_env \<Rightarrow> DocumentResponse \<Rightarrow> File \<Rightarrow> jsstring \<Rightarrow> manager \<Rightarrow> manager \<times> doc_effect list" where
  "replace_file e d nextFile fresh s =
     (case validate_file e nextFile s of
        (s1, False) \<Rightarrow> (s1, [])
      | (s1, True) \<Rightarrow>
          (let call = (fileOperationId (js ''replace-'' @ doc_id d) nextFile None, js ''replace-'' @ doc_id d)
           in begin_job Replace_Job call fresh (\<lambda>s2. s2\<lparr>dm_progress := Some 0\<rparr>)
                (\<lambda>key. Uploading call \<lparr>up_file = nextFile, up_documentType = None,
                                       up_documentId = Some (doc_id d), up_key = key\<rparr>) s1))"

definition rename :: "DocumentResponse \<Rightarrow> jsstring \<Rightarrow> jsstring \<Rightarrow> manager \<Rightarrow> manager \<times> doc_effect list" where
  "rename d displayName fresh s =
     (let call = (js ''rename-'' @ doc_id d @ js ''-'' @ displayName, js ''rename-'' @ doc_id d)
      in begin_job Rename_Job call fresh id (\<lambda>key. Sent call key (renameDocument (doc_id d) displayName key)) s)"

text \<open>
  \<open>download\<close>: a link that is still good is opened at once, which ends the operation; otherwise
  a new link is requested.
\<close>

definition download :: "doc_env \<Rightarrow> DocumentResponse \<Rightarrow> int \<Rightarrow> jsstring \<Rightarrow> manager \<Rightarrow> manager \<times> doc_effect list" where
  "download e d now fresh s =
     (let call = (js ''download-'' @ doc_id d, js ''download-'' @ doc_id d)
      in case run_start call fresh s of
           None \<Rightarrow> (s, [])
         | Some (s', key) \<Rightarrow>
           (case map_of (dm_signedUrls s) (doc_id d) of
              Some link \<Rightarrow>
                if isSignedUrlExpired (de_local e) (signed_expires_at link) now
                then (s'\<lparr>dm_awaiting := Some (Download_Job (doc_id d), fst call)\<rparr>,
                      [Sent call key (createDocumentDownloadUrl (doc_id d) key)])
                else (settle_ok (fst call) s', [Opened (doc_id d) now link])
            | None \<Rightarrow>
                (s'\<lparr>dm_awaiting := Some (Download_Job (doc_id d), fst call)\<rparr>,
                 [Sent call key (createDocumentDownloadUrl (doc_id d) key)])))"

definition delete_document :: "DocumentResponse \<Rightarrow> jsstring \<Rightarrow> manager \<Rightarrow> manager \<times> doc_effect list" where
  "delete_document d fresh s =
     (let call = (js ''delete-'' @ doc_id d, js ''delete-'' @ doc_id d)
      in begin_job (Delete_Job (doc_id d)) call fresh id (\<lambda>key. Sent call key (deleteDocument (doc_id d) key)) s)"

section \<open>Events\<close>

datatype doc_event =
    Choose_Type DocumentType
  | Choose_File "File option"
  | Press_Upload jsstring
  | Choose_Replacement jsstring File jsstring
  | Press_Rename jsstring
  | Edit_Name jsstring jsstring
  | Submit_Name jsstring jsstring
  | Cancel_Name jsstring
  | Press_Download jsstring int jsstring
  | Press_Delete jsstring
  | Keep_File
  | Confirm_Delete jsstring jsstring
  | Progressed int
  | Answered doc_answer

definition the_document :: "manager \<Rightarrow> jsstring \<Rightarrow> DocumentResponse option" where
  "the_document s i = find (\<lambda>d. doc_id d = i) (dm_documents s)"

text \<open>The rename form: it closes on submit and asks for a rename only when the name changes.\<close>

definition submit_name :: "DocumentResponse \<Rightarrow> jsstring \<Rightarrow> manager \<Rightarrow> manager \<times> doc_effect list" where
  "submit_name d fresh s =
     (case map_of (dm_rows s) (doc_id d) of
        Some (True, name) \<Rightarrow>
          (let trimmed = trim name;
               s' = s\<lparr>dm_rows := dict_set (doc_id d) (False, name) (dm_rows s)\<rparr>
           in if trimmed \<noteq> [] \<and> trimmed \<noteq> doc_display_name d then rename d trimmed fresh s' else (s', []))
      | _ \<Rightarrow> (s, []))"

definition edit_row :: "jsstring \<Rightarrow> (bool \<times> jsstring \<Rightarrow> bool \<times> jsstring) \<Rightarrow> manager \<Rightarrow> manager" where
  "edit_row i f s =
     (case map_of (dm_rows s) i of
        None \<Rightarrow> s | Some row \<Rightarrow> s\<lparr>dm_rows := dict_set i (f row) (dm_rows s)\<rparr>)"

definition answer_job :: "doc_env \<Rightarrow> doc_answer \<Rightarrow> manager \<Rightarrow> manager \<times> doc_effect list" where
  "answer_job e answer s =
     (case dm_awaiting s of
        Some (job, operation) \<Rightarrow>
          if answers job answer
          then (case action_finish e job answer (s\<lparr>dm_awaiting := None\<rparr>) of
                  (s', effects) \<Rightarrow> (run_finish e (operation, []) answer s', effects))
          else (s, [])
      | None \<Rightarrow> (s, []))"

definition with_document ::
  "jsstring \<Rightarrow> (DocumentResponse \<Rightarrow> manager \<times> doc_effect list) \<Rightarrow> manager \<Rightarrow> manager \<times> doc_effect list" where
  "with_document i f s = (case the_document s i of None \<Rightarrow> (s, []) | Some d \<Rightarrow> f d)"

fun doc_step :: "doc_env \<Rightarrow> doc_event \<Rightarrow> manager \<Rightarrow> manager \<times> doc_effect list" where
  "doc_step e (Choose_Type t) s =
     (if kd_pending s = None \<and> t \<in> set (policy_allowed_document_types (de_policy e))
      then (s\<lparr>dm_documentType := Some t\<rparr>, []) else (s, []))"
| "doc_step e (Choose_File selected) s =
     (if kd_pending s \<noteq> None then (s, [])
      else (case selected of
              None \<Rightarrow> (s\<lparr>dm_file := None\<rparr>, [])
            | Some f \<Rightarrow> (fst (validate_file e f (s\<lparr>dm_file := Some f\<rparr>)), [])))"
| "doc_step e (Press_Upload fresh) s = (if kd_pending s \<noteq> None then (s, []) else upload e fresh s)"
| "doc_step e (Choose_Replacement i f fresh) s =
     (if kd_pending s \<noteq> None then (s, []) else with_document i (\<lambda>d. replace_file e d f fresh s) s)"
| "doc_step e (Press_Rename i) s =
     (if kd_pending s \<noteq> None then (s, []) else (edit_row i (\<lambda>(_, name). (True, name)) s, []))"
| "doc_step e (Edit_Name i name) s =
     (if length name \<le> 200 then (edit_row i (\<lambda>(editing, old). (editing, if editing then name else old)) s, []) else (s, []))"
| "doc_step e (Submit_Name i fresh) s = with_document i (\<lambda>d. submit_name d fresh s) s"
| "doc_step e (Cancel_Name i) s = (edit_row i (\<lambda>(_, name). (False, name)) s, [])"
| "doc_step e (Press_Download i now fresh) s =
     with_document i (\<lambda>d. if kd_pending s \<noteq> None \<or> doc_status d \<noteq> DocumentReady then (s, [])
                          else download e d now fresh s) s"
| "doc_step e (Press_Delete i) s =
     (if kd_pending s \<noteq> None then (s, []) else (s\<lparr>dm_confirmingDelete := Some i\<rparr>, []))"
| "doc_step e Keep_File s = (s\<lparr>dm_confirmingDelete := None\<rparr>, [])"
| "doc_step e (Confirm_Delete i fresh) s =
     with_document i (\<lambda>d. if kd_pending s \<noteq> None \<or> dm_confirmingDelete s \<noteq> Some i then (s, [])
                          else delete_document d fresh s) s"
| "doc_step e (Progressed p) s =
     (case dm_awaiting s of
        Some (Upload_Job, _) \<Rightarrow> (s\<lparr>dm_progress := Some p\<rparr>, [])
      | Some (Replace_Job, _) \<Rightarrow> (s\<lparr>dm_progress := Some p\<rparr>, [])
      | _ \<Rightarrow> (s, []))"
| "doc_step e (Answered answer) s = answer_job e answer s"

definition doc_run :: "doc_env \<Rightarrow> doc_event list \<Rightarrow> manager \<Rightarrow> manager \<times> doc_effect list" where
  "doc_run e = run_steps (doc_step e)"

lemma doc_run_simps [simp]:
  "doc_run e [] s = (s, [])"
  "doc_run e (v # vs) s =
     (case doc_step e v s of (s', xs) \<Rightarrow> (case doc_run e vs s' of (s'', ys) \<Rightarrow> (s'', xs @ ys)))"
  by (simp_all add: doc_run_def)

section \<open>Readiness\<close>

definition item_ready :: "DocumentResponse list \<Rightarrow> DocumentReadinessItem \<Rightarrow> bool" where
  "item_ready documents item \<longleftrightarrow>
     readiness_ready item \<and>
     (\<exists>i \<in> set (readiness_matched_document_ids item).
        \<exists>d \<in> set documents. doc_id d = i \<and> doc_status d = DocumentReady)"

section \<open>The manager provides the keyed-request interface\<close>

definition keeps_key :: "doc_answer \<Rightarrow> bool" where
  "keeps_key answer = (case answer of Failed _ \<Rightarrow> True | _ \<Rightarrow> False)"

lemma settle_error_table [simp]: "kd_keys (settle_error m s) = kd_keys s"
  by (simp add: settle_error_def)

interpretation docs: keyed_requests is_busy "\<lambda>s. map_of (kd_keys s)" fst "\<lambda>_. keeps_key"
  run_start "run_finish e" for e
proof
  show "run_start a fresh s = None" if "is_busy s" for s :: manager and a fresh
    using that by (simp add: run_start_def begin_keyed_None)
  show "is_busy s' \<and> key = or_else (map_of (kd_keys s) (fst a)) fresh \<and>
      map_of (kd_keys s') = (map_of (kd_keys s))(fst a \<mapsto> key)"
    if "run_start a fresh s = Some (s', key)" for s s' :: manager and a fresh key
    using that by (auto simp: run_start_def begin_keyed_Some split: if_splits)
  show "\<not> is_busy (run_finish e a r s)" for a r s
    by (cases r) (simp_all add: run_finish_def)
  show "map_of (kd_keys (run_finish e a r s)) =
      (if keeps_key r then map_of (kd_keys s) else (map_of (kd_keys s))(fst a := None))" for a r s
    by (cases r) (simp_all add: run_finish_def keeps_key_def)
qed

section \<open>Steps\<close>

lemma replaceDocument_simps [simp]:
  "kd_pending (replaceDocument d s) = kd_pending s" "kd_keys (replaceDocument d s) = kd_keys s"
  "dm_awaiting (replaceDocument d s) = dm_awaiting s"
  by (simp_all add: replaceDocument_def set_documents_def)

lemma set_documents_simps [simp]:
  "kd_pending (set_documents ds s) = kd_pending s" "kd_keys (set_documents ds s) = kd_keys s"
  "dm_awaiting (set_documents ds s) = dm_awaiting s" "dm_documents (set_documents ds s) = ds"
  "map fst (dm_rows (set_documents ds s)) = map doc_id ds"
  by (simp_all add: set_documents_def mount_rows_def comp_def)

lemma edit_row_simps [simp]:
  "kd_pending (edit_row i f s) = kd_pending s" "kd_keys (edit_row i f s) = kd_keys s"
  "dm_awaiting (edit_row i f s) = dm_awaiting s" "dm_documents (edit_row i f s) = dm_documents s"
  by (simp_all add: edit_row_def split: option.split)

lemma is_busy_None [simp]: "kd_pending s = None \<Longrightarrow> \<not> is_busy s"
  by (simp add: is_busy_def non_empty_def)

text \<open>The operations and keys that have gone out with some effects.\<close>

fun sent_keys :: "doc_effect list \<Rightarrow> (jsstring \<times> jsstring) list" where
  "sent_keys [] = []"
| "sent_keys (Sent call key req # xs) = (fst call, key) # sent_keys xs"
| "sent_keys (Uploading call input # xs) = (fst call, up_key input) # sent_keys xs"
| "sent_keys (Opened i now link # xs) = sent_keys xs"

lemma sent_keys_append: "sent_keys (xs @ ys) = sent_keys xs @ sent_keys ys"
  by (induction xs rule: sent_keys.induct) simp_all

fun fresh_key :: "doc_event \<Rightarrow> jsstring list" where
  "fresh_key (Press_Upload k) = [k]"
| "fresh_key (Choose_Replacement _ _ k) = [k]"
| "fresh_key (Submit_Name _ k) = [k]"
| "fresh_key (Press_Download _ _ k) = [k]"
| "fresh_key (Confirm_Delete _ k) = [k]"
| "fresh_key _ = []"

text \<open>An effect that may happen: a file within the policy, a link that is still good.\<close>

definition safe_effect :: "doc_env \<Rightarrow> doc_effect \<Rightarrow> bool" where
  "safe_effect e x =
     (case x of
        Sent _ _ _ \<Rightarrow> True
      | Uploading _ input \<Rightarrow>
          file_size (up_file input) \<le> policy_max_size_bytes (de_policy e) \<and>
          file_type (up_file input) \<in> set (policy_allowed_mime_types (de_policy e))
      | Opened _ now link \<Rightarrow>
          (case date_parse (de_local e) (signed_expires_at link) of
             None \<Rightarrow> False | Some expires \<Rightarrow> now + 5000 < expires))"

text \<open>
  Every step does one of four things: nothing to the library and its keys; it starts an
  operation; it opens a link that is still good; or it settles the operation awaited.
\<close>

definition quiet :: "manager \<Rightarrow> manager \<Rightarrow> bool" where
  "quiet s s' \<longleftrightarrow>
     kd_pending s' = kd_pending s \<and> dm_awaiting s' = dm_awaiting s \<and> kd_keys s' = kd_keys s \<and>
     dm_documents s' = dm_documents s"

definition started :: "doc_event \<Rightarrow> manager \<Rightarrow> manager \<Rightarrow> doc_effect list \<Rightarrow> bool" where
  "started v s s' xs \<longleftrightarrow>
     kd_pending s = None \<and> kd_pending s' \<notin> {None, Some []} \<and> dm_awaiting s' \<noteq> None \<and>
     dm_documents s' = dm_documents s \<and>
     (\<exists>operation fresh key. fresh_key v = [fresh] \<and> sent_keys xs = [(operation, key)] \<and>
        key = or_else (map_of (kd_keys s) operation) fresh \<and>
        map_of (kd_keys s') = (map_of (kd_keys s))(operation \<mapsto> key))"

definition reopened :: "manager \<Rightarrow> manager \<Rightarrow> doc_effect list \<Rightarrow> bool" where
  "reopened s s' xs \<longleftrightarrow>
     kd_pending s = None \<and> kd_pending s' = None \<and> dm_awaiting s' = dm_awaiting s \<and> sent_keys xs = [] \<and>
     dm_documents s' = dm_documents s \<and>
     (\<exists>operation. map_of (kd_keys s') = (map_of (kd_keys s))(operation := None))"

definition settled :: "manager \<Rightarrow> manager \<Rightarrow> doc_effect list \<Rightarrow> bool" where
  "settled s s' xs \<longleftrightarrow>
     dm_awaiting s \<noteq> None \<and> dm_awaiting s' = None \<and> kd_pending s' = None \<and> sent_keys xs = [] \<and>
     (dm_documents s' = dm_documents s \<or>
      (\<exists>d. dm_documents s' = upsert_by doc_id d (dm_documents s)) \<or>
      (\<exists>i. dm_documents s' = filter (\<lambda>d. doc_id d \<noteq> i) (dm_documents s))) \<and>
     (map_of (kd_keys s') = map_of (kd_keys s) \<or>
      (\<exists>operation. map_of (kd_keys s') = (map_of (kd_keys s))(operation := None)))"

definition doc_moves :: "doc_env \<Rightarrow> doc_event \<Rightarrow> manager \<Rightarrow> manager \<times> doc_effect list \<Rightarrow> bool" where
  "doc_moves e v s r \<longleftrightarrow>
     list_all (safe_effect e) (snd r) \<and>
     (quiet s (fst r) \<and> snd r = [] \<or> started v s (fst r) (snd r) \<or> reopened s (fst r) (snd r) \<or>
      settled s (fst r) (snd r))"

lemma movesI_quiet: "quiet s s' \<Longrightarrow> doc_moves e v s (s', [])"
  by (simp add: doc_moves_def)

lemma quiet_refl [simp]: "quiet s s"
  by (simp add: quiet_def)

lemma message_not_empty: "validateDocumentFile f policy \<noteq> Some []"
  by (auto simp: validateDocumentFile_def)

lemma validate_file_True:
  "validate_file e f s = (s', True) \<Longrightarrow>
     file_size f \<le> policy_max_size_bytes (de_policy e) \<and>
     file_type f \<in> set (policy_allowed_mime_types (de_policy e)) \<and> quiet s s'"
  using message_not_empty [of f "de_policy e"]
  by (auto simp: validate_file_def Let_def quiet_def non_empty_def validateDocumentFile_def
      split: if_splits option.splits list.splits)

lemma validate_file_quiet: "validate_file e f s = (s', ok) \<Longrightarrow> quiet s s'"
  by (auto simp: validate_file_def Let_def quiet_def)

lemma run_start_Some:
  assumes "run_start call fresh s = Some (s', key)"
  shows "kd_pending s' = Some (snd call)" "snd call \<noteq> []" "key = or_else (map_of (kd_keys s) (fst call)) fresh"
    "map_of (kd_keys s') = (map_of (kd_keys s))(fst call \<mapsto> key)"
    "dm_documents s' = dm_documents s" "dm_awaiting s' = dm_awaiting s"
  using assms by (auto simp: run_start_def begin_keyed_Some split: if_splits)

text \<open>An operation that begins from a state like \<open>s\<close> with nothing pending.\<close>

lemma begin_job_moves:
  assumes "quiet s s1" and "kd_pending s = None" and "fresh_key v = [fresh]"
    and prepare: "\<And>x. kd_pending (prepare x) = kd_pending x \<and> kd_keys (prepare x) = kd_keys x \<and>
      dm_documents (prepare x) = dm_documents x"
    and effect: "\<And>key. sent_keys [effect key] = [(fst call, key)]" "\<And>key. safe_effect e (effect key)"
  shows "doc_moves e v s (begin_job job call fresh prepare effect s1)"
proof (cases "run_start call fresh s1")
  case None
  then show ?thesis using assms(1) by (simp add: begin_job_def movesI_quiet)
next
  case (Some r)
  obtain s2 key where r: "run_start call fresh s1 = Some (s2, key)" using Some by (cases r) simp
  note start = run_start_Some [OF r]
  have "started v s ((prepare s2)\<lparr>dm_awaiting := Some (job, fst call)\<rparr>) [effect key]"
    using assms(1-3) start prepare [of s2] effect(1) [of key] by (simp add: started_def quiet_def)
  then show ?thesis by (simp add: r begin_job_def doc_moves_def effect(2))
qed

lemma upload_moves:
  assumes "kd_pending s = None"
  shows "doc_moves e (Press_Upload fresh) s (upload e fresh s)"
proof (cases "dm_file s")
  case None
  then show ?thesis by (simp add: upload_def movesI_quiet)
next
  case (Some f)
  obtain s1 ok where v: "validate_file e f s = (s1, ok)" by fastforce
  show ?thesis
  proof (cases ok)
    case True
    with v have "validate_file e f s = (s1, True)" by simp
    note ok = validate_file_True [OF this]
    show ?thesis
      unfolding upload_def using Some v True ok assms
      by (simp add: Let_def) (rule begin_job_moves, simp_all add: safe_effect_def)
  next
    case False
    with Some v validate_file_quiet [OF v] show ?thesis by (simp add: upload_def movesI_quiet)
  qed
qed

lemma replace_moves:
  assumes "kd_pending s = None"
  shows "doc_moves e (Choose_Replacement i f fresh) s (replace_file e d f fresh s)"
proof -
  obtain s1 ok where v: "validate_file e f s = (s1, ok)" by fastforce
  show ?thesis
  proof (cases ok)
    case True
    with v have "validate_file e f s = (s1, True)" by simp
    note ok = validate_file_True [OF this]
    show ?thesis
      unfolding replace_file_def using v True ok assms
      by (simp add: Let_def) (rule begin_job_moves, simp_all add: safe_effect_def)
  next
    case False
    with v validate_file_quiet [OF v] show ?thesis by (simp add: replace_file_def movesI_quiet)
  qed
qed

lemma rename_moves:
  assumes "quiet s s1" and "kd_pending s = None" and "fresh_key v = [fresh]"
  shows "doc_moves e v s (rename d name fresh s1)"
  unfolding rename_def Let_def
  by (rule begin_job_moves [OF assms]) (simp_all add: safe_effect_def)

lemma delete_moves:
  assumes "kd_pending s = None"
  shows "doc_moves e (Confirm_Delete i fresh) s (delete_document d fresh s)"
  unfolding delete_document_def Let_def
  by (rule begin_job_moves) (simp_all add: safe_effect_def assms)

lemma pending_rename: "kd_pending s \<noteq> None \<Longrightarrow> kd_pending s \<noteq> Some [] \<Longrightarrow> rename d name fresh s = (s, [])"
  by (simp add: rename_def begin_job_def run_start_def begin_keyed_def is_busy_def non_empty_def Let_def
      split: option.splits list.splits)

lemma submit_moves:
  assumes "kd_pending s \<noteq> Some []"
  shows "doc_moves e (Submit_Name i fresh) s (submit_name d fresh s)"
proof -
  have "doc_moves e (Submit_Name i fresh) s (rename d t fresh (s\<lparr>dm_rows := rows\<rparr>))" for t rows
  proof (cases "kd_pending s")
    case None
    then show ?thesis by (intro rename_moves) (simp_all add: quiet_def)
  next
    case (Some l)
    with assms have "rename d t fresh (s\<lparr>dm_rows := rows\<rparr>) = (s\<lparr>dm_rows := rows\<rparr>, [])"
      by (intro pending_rename) simp_all
    then show ?thesis by (simp add: movesI_quiet quiet_def)
  qed
  then show ?thesis
    by (auto simp: submit_name_def Let_def movesI_quiet quiet_def split: option.split bool.split)
qed

lemma download_moves:
  assumes "kd_pending s = None"
  shows "doc_moves e (Press_Download i now fresh) s (download e d now fresh s)"
proof -
  let ?call = "(js ''download-'' @ doc_id d, js ''download-'' @ doc_id d)"
  obtain s' key where r: "run_start ?call fresh s = Some (s', key)"
    using assms by (auto simp: run_start_def begin_keyed_def js_Cons Let_def)
  note start = run_start_Some [OF r]
  have sent: "doc_moves e (Press_Download i now fresh) s
      (s'\<lparr>dm_awaiting := Some (job, operation)\<rparr>, [Sent ?call key req])" for job operation req
    using start assms by (simp add: doc_moves_def safe_effect_def started_def)
  show ?thesis
  proof (cases "map_of (dm_signedUrls s) (doc_id d)")
    case None
    then show ?thesis using sent r by (simp add: download_def Let_def)
  next
    case (Some link)
    show ?thesis
    proof (cases "isSignedUrlExpired (de_local e) (signed_expires_at link) now")
      case True
      then show ?thesis using sent r Some by (simp add: download_def Let_def)
    next
      case False
      have "map_of (kd_keys (settle_ok (fst ?call) s')) = (map_of (kd_keys s))(fst ?call := None)"
        using start(4) by simp
      moreover have "dm_awaiting (settle_ok (fst ?call) s') = dm_awaiting s"
        "dm_documents (settle_ok (fst ?call) s') = dm_documents s" "kd_pending (settle_ok (fst ?call) s') = None"
        using start(5,6) by (simp_all add: settle_ok_def)
      ultimately have "reopened s (settle_ok (fst ?call) s') [Opened (doc_id d) now link]"
        using assms unfolding reopened_def by (simp del: settle_keys) blast
      moreover have "safe_effect e (Opened (doc_id d) now link)"
        using False by (auto simp: safe_effect_def isSignedUrlExpired_def split: option.splits)
      ultimately show ?thesis using r Some False by (simp add: download_def Let_def doc_moves_def)
    qed
  qed
qed

lemma settle_frame [simp]:
  "dm_awaiting (settle_ok operation s) = dm_awaiting s" "dm_awaiting (settle_error m s) = dm_awaiting s"
  "dm_documents (settle_ok operation s) = dm_documents s" "dm_documents (settle_error m s) = dm_documents s"
  "kd_pending (settle_ok operation s) = None" "kd_pending (settle_error m s) = None"
  by (simp_all add: settle_ok_def settle_error_def)

lemma run_finish_simps [simp]:
  "dm_awaiting (run_finish e call answer s) = dm_awaiting s"
  "dm_documents (run_finish e call answer s) = dm_documents s"
  "kd_pending (run_finish e call answer s) = None"
  by (cases answer; simp add: run_finish_def)+

lemma distinct_map_filter': "distinct (map f xs) \<Longrightarrow> distinct (map f (filter P xs))"
  by (induction xs) auto

definition library_change :: "manager \<Rightarrow> manager \<Rightarrow> bool" where
  "library_change s s' \<longleftrightarrow>
     dm_documents s' = dm_documents s \<or>
     (\<exists>d. dm_documents s' = upsert_by doc_id d (dm_documents s)) \<or>
     (\<exists>i. dm_documents s' = filter (\<lambda>d. doc_id d \<noteq> i) (dm_documents s))"

lemma action_finish_frame:
  assumes "action_finish e job answer s = (s', xs)" and "answers job answer"
  shows "dm_awaiting s' = dm_awaiting s" "kd_keys s' = kd_keys s" "sent_keys xs = []"
    "list_all (safe_effect e) xs" "library_change s s'"
proof -
  have "dm_awaiting s' = dm_awaiting s \<and> kd_keys s' = kd_keys s \<and> sent_keys xs = [] \<and>
    list_all (safe_effect e) xs \<and> library_change s s'"
  proof (cases answer)
    case (Got_Link link now)
    then show ?thesis
      using assms by (cases job)
        (auto simp: action_finish_def library_change_def safe_effect_def isSignedUrlExpired_def split: if_splits option.splits)
  next
    case (Got_Document d)
    then show ?thesis
      using assms by (cases job)
        (auto simp: action_finish_def library_change_def replaceDocument_def set_documents_def)
  next
    case Deleted
    then show ?thesis
      using assms by (cases job) (auto simp: action_finish_def library_change_def set_documents_def)
  next
    case (Failed c)
    then show ?thesis
      using assms by (cases job) (auto simp: action_finish_def library_change_def)
  qed
  then show "dm_awaiting s' = dm_awaiting s" "kd_keys s' = kd_keys s" "sent_keys xs = []"
    "list_all (safe_effect e) xs" "library_change s s'"
    by simp_all
qed

lemma answer_moves: "doc_moves e (Answered answer) s (answer_job e answer s)"
proof (cases "dm_awaiting s")
  case None
  then show ?thesis by (simp add: answer_job_def movesI_quiet)
next
  case (Some jo)
  obtain job operation where jo: "jo = (job, operation)" by (cases jo)
  show ?thesis
  proof (cases "answers job answer")
    case False
    then show ?thesis using Some jo by (simp add: answer_job_def movesI_quiet)
  next
    case True
    obtain s' xs where a: "action_finish e job answer (s\<lparr>dm_awaiting := None\<rparr>) = (s', xs)" by fastforce
    note frame = action_finish_frame [OF a True]
    let ?t = "run_finish e (operation, []) answer s'"
    have "map_of (kd_keys ?t) = map_of (kd_keys s) \<or>
       (\<exists>operation. map_of (kd_keys ?t) = (map_of (kd_keys s))(operation := None))"
      using frame(2) docs.finish_table [of e "(operation, [])" answer s'] by (auto split: if_splits)
    moreover have "library_change s ?t"
      using frame(5) by (simp add: library_change_def)
    ultimately have "settled s ?t xs"
      using frame(1,3) Some unfolding settled_def library_change_def by simp
    then show ?thesis
      using Some jo True a frame(4) by (simp add: answer_job_def doc_moves_def)
  qed
qed

lemma doc_step_moves:
  assumes "kd_pending s \<noteq> Some []"
  shows "doc_moves e v s (doc_step e v s)"
proof (cases v)
  case (Choose_File selected)
  then show ?thesis
    using validate_file_quiet [of e _ "s\<lparr>dm_file := selected\<rparr>"]
    by (cases selected) (auto simp: quiet_def validate_file_def Let_def intro!: movesI_quiet)
next
  case (Progressed p)
  then show ?thesis
    by (auto simp: movesI_quiet quiet_def split: option.split doc_job.split)
qed (auto simp: with_document_def movesI_quiet quiet_def upload_moves replace_moves submit_moves assms
      download_moves delete_moves answer_moves edit_row_def split: option.split)

section \<open>Invariants\<close>

definition doc_inv :: "manager \<Rightarrow> bool" where
  "doc_inv s \<longleftrightarrow>
     (kd_pending s \<noteq> None \<longleftrightarrow> dm_awaiting s \<noteq> None) \<and> kd_pending s \<noteq> Some [] \<and>
     distinct (map doc_id (dm_documents s))"

lemma library_distinct:
  "library_change s s' \<Longrightarrow> distinct (map doc_id (dm_documents s)) \<Longrightarrow> distinct (map doc_id (dm_documents s'))"
  by (auto simp: library_change_def distinct_upsert_by distinct_map_filter')

lemma doc_step_inv:
  assumes i: "doc_inv s"
  shows "doc_inv (fst (doc_step e v s)) \<and> list_all (safe_effect e) (snd (doc_step e v s))"
    and "sends_key (map_of (kd_keys s)) (fresh_key v) (map_of (kd_keys (fst (doc_step e v s)))) (sent_keys (snd (doc_step e v s)))"
proof -
  obtain s' xs where step: "doc_step e v s = (s', xs)" by fastforce
  have moves: "doc_moves e v s (s', xs)"
    using doc_step_moves [of s e v] i step by (simp add: doc_inv_def)
  have drop: "m(x := None) \<subseteq>\<^sub>m m" for m :: "jsstring \<rightharpoonup> jsstring" and x
    by (simp add: map_le_def)
  from moves consider "quiet s s'" "xs = []" | "started v s s' xs" | "reopened s s' xs" | "settled s s' xs"
    by (auto simp: doc_moves_def)
  then have "doc_inv s' \<and> sends_key (map_of (kd_keys s)) (fresh_key v) (map_of (kd_keys s')) (sent_keys xs)"
  proof cases
    case 1
    with i show ?thesis by (simp add: doc_inv_def quiet_def sends_key_def)
  next
    case 2
    with i show ?thesis by (auto simp: doc_inv_def started_def sends_key_def)
  next
    case 3
    with i drop show ?thesis by (auto simp: doc_inv_def reopened_def sends_key_def)
  next
    case 4
    have "library_change s s'" using 4 by (simp add: settled_def library_change_def)
    from library_distinct [OF this] 4 i drop show ?thesis
      by (auto simp: doc_inv_def settled_def sends_key_def)
  qed
  with moves step show "doc_inv (fst (doc_step e v s)) \<and> list_all (safe_effect e) (snd (doc_step e v s))"
    "sends_key (map_of (kd_keys s)) (fresh_key v) (map_of (kd_keys (fst (doc_step e v s)))) (sent_keys (snd (doc_step e v s)))"
    by (simp_all add: doc_moves_def)
qed

interpretation doc_machine: keyed_machine "doc_step e" "\<lambda>s. map_of (kd_keys s)" sent_keys fresh_key doc_inv
  for e
  by unfold_locales (simp_all add: doc_step_inv sent_keys_append)

lemma doc_inv_initial:
  "distinct (map doc_id (page_data page)) \<Longrightarrow> doc_inv (initial_manager page policy)"
  by (simp add: doc_inv_def initial_manager_def)

section \<open>Properties\<close>

definition sample_document :: "string \<Rightarrow> DocumentStatus \<Rightarrow> DocumentResponse" where
  "sample_document i status =
     \<lparr>doc_id = js i, doc_document_type = DocCv, doc_display_name = js ''cv.pdf'', doc_original_filename = js ''cv.pdf'',
      doc_mime_type = js ''application/pdf'', doc_size_bytes = 1000, doc_status = status, doc_scan_status = ScanClean,
      doc_replaced_at = None, doc_created_at = [], doc_updated_at = []\<rparr>"

definition sample_doc_env :: doc_env where
  "sample_doc_env =
     \<lparr>de_policy = \<lparr>policy_max_size_bytes = 2000, policy_allowed_mime_types = [js ''application/pdf''],
                   policy_allowed_document_types = [DocCv], policy_accepted_extensions = [js ''.pdf'']\<rparr>,
      de_local = (\<lambda>_. None), de_message = (\<lambda>_. None)\<rparr>"

definition sample_file :: "nat \<Rightarrow> File" where
  "sample_file n = \<lparr>file_name = js ''new.pdf'', file_type = js ''application/pdf'', file_size = n, file_modified = 7\<rparr>"

definition sample_library :: DocumentPage where
  "sample_library = sample_page [sample_document ''d1'' DocumentReady]"

text \<open>An upload, a download that fails, its retry, and the link that answers it.\<close>

definition sample_doc_events :: "doc_event list" where
  "sample_doc_events =
     [Choose_File (Some (sample_file 1500)), Press_Upload (js ''k1''),
      Answered (Got_Document (sample_document ''d2'' DocumentPending)),
      Press_Download (js ''d1'') 0 (js ''k2''), Answered (Failed (Client Syntax_Error)),
      Press_Download (js ''d1'') 0 (js ''k3''),
      Answered (Got_Link \<lparr>signed_url = js ''https://s'', signed_expires_at = js ''1970-01-01T00:01:00Z''\<rparr> 1000)]"

text \<open>
  C6: In any run of the manager every upload that starts is of a file within the policy and
  every link opened is good for more than five seconds; the library never shows a document
  twice, and the manager is pending exactly while it awaits an answer.
\<close>

theorem document_runs_safe:
  assumes "distinct (map doc_id (page_data page))"
    and "doc_run e vs (initial_manager page policy) = (s, effects)"
  shows "list_all (safe_effect e) effects \<and> distinct (map doc_id (dm_documents s)) \<and>
    (kd_pending s \<noteq> None \<longleftrightarrow> dm_awaiting s \<noteq> None)"
  using run_steps_invariant [of doc_inv "doc_step e", OF doc_step_inv(1) doc_inv_initial [OF assms(1)], of vs policy] assms(2)
  by (simp add: doc_inv_def doc_run_def)

theorem document_runs_safe_witness:
  "list_all (safe_effect sample_doc_env)
     (snd (doc_run sample_doc_env sample_doc_events (initial_manager sample_library (de_policy sample_doc_env)))) \<and>
   length (snd (doc_run sample_doc_env sample_doc_events (initial_manager sample_library (de_policy sample_doc_env)))) = 4"
proof
  obtain s xs where r:
    "doc_run sample_doc_env sample_doc_events (initial_manager sample_library (de_policy sample_doc_env)) = (s, xs)"
    by fastforce
  have "distinct (map doc_id (page_data sample_library))"
    by code_simp
  from document_runs_safe [OF this r] r
  show "list_all (safe_effect sample_doc_env)
     (snd (doc_run sample_doc_env sample_doc_events (initial_manager sample_library (de_policy sample_doc_env))))"
    by simp
  show "length (snd (doc_run sample_doc_env sample_doc_events
      (initial_manager sample_library (de_policy sample_doc_env)))) = 4"
    by code_simp
qed

text \<open>
  C24: In any run of the manager an idempotency key is used for one operation only, however
  operations fail, expire or are tried again.
\<close>

theorem document_key_one_operation:
  assumes "distinct (map doc_id (page_data page))" and "distinct (concat (map fresh_key vs))"
    and "doc_run e vs (initial_manager page policy) = (s, effects)"
    and "(a, key) \<in> set (sent_keys effects)" and "(b, key) \<in> set (sent_keys effects)"
  shows "a = b"
proof (rule doc_machine.key_names_operation [OF doc_inv_initial [OF assms(1)], where key = key and e = e])
  show "map_of (kd_keys (initial_manager page policy)) = Map.empty"
    by (simp add: initial_manager_def)
  have "snd (run_steps (doc_step e) vs (initial_manager page policy)) = effects"
    using assms(3) by (simp add: doc_run_def)
  with assms(4,5)
  show "(a, key) \<in> set (sent_keys (snd (run_steps (doc_step e) vs (initial_manager page policy))))"
    "(b, key) \<in> set (sent_keys (snd (run_steps (doc_step e) vs (initial_manager page policy))))"
    by (simp_all only:)
qed (rule assms(2))

theorem document_key_one_operation_witness:
  "sent_keys (snd (doc_run sample_doc_env sample_doc_events (initial_manager sample_library (de_policy sample_doc_env)))) =
     [(js ''upload:cv:new.pdf:application/pdf:1500:7'', js ''k1''), (js ''download-d1'', js ''k2''),
      (js ''download-d1'', js ''k2'')] \<and>
   js ''download-d1'' = fst (sent_keys (snd (doc_run sample_doc_env sample_doc_events
      (initial_manager sample_library (de_policy sample_doc_env)))) ! 2)"
proof
  let ?r = "doc_run sample_doc_env sample_doc_events (initial_manager sample_library (de_policy sample_doc_env))"
  show k: "sent_keys (snd ?r) =
     [(js ''upload:cv:new.pdf:application/pdf:1500:7'', js ''k1''), (js ''download-d1'', js ''k2''),
      (js ''download-d1'', js ''k2'')]"
    by code_simp
  obtain s xs where r: "?r = (s, xs)" by fastforce
  have "distinct (map doc_id (page_data sample_library))" "distinct (concat (map fresh_key sample_doc_events))"
    by code_simp+
  note one = document_key_one_operation [OF this r]
  have "(js ''download-d1'', js ''k2'') \<in> set (sent_keys xs)" "(fst (sent_keys (snd ?r) ! 2), js ''k2'') \<in> set (sent_keys xs)"
    using k r by simp_all
  then show "js ''download-d1'' = fst (sent_keys (snd ?r) ! 2)" by (rule one)
qed

text \<open>Names of operations on files.\<close>

lemma split_last_colon:
  "x @ (0x3A :: code_unit) # y = x' @ 0x3A # y' \<Longrightarrow> 0x3A \<notin> set y \<Longrightarrow> 0x3A \<notin> set y' \<Longrightarrow> x = x' \<and> y = y'"
  by (auto simp: append_eq_append_conv2 Cons_eq_append_conv append_eq_Cons_conv)

lemma js_of_nat_inject [simp]: "js_of_nat n = js_of_nat m \<longleftrightarrow> n = m"
  by (simp add: js_of_nat_def)

lemma js_of_nat_units: "u \<in> {0x2D, 0x3A} \<Longrightarrow> u \<notin> set (js_of_nat n)"
  by (auto dest: decimal_units)

lemma js_of_int_inject [simp]: "js_of_int a = js_of_int b \<longleftrightarrow> a = b"
proof -
  have minus: "js ''-'' @ js_of_nat n \<noteq> js_of_nat m" for n m
  proof
    assume "js ''-'' @ js_of_nat n = js_of_nat m"
    moreover have "0x2D \<in> set (js ''-'' @ js_of_nat n)" by (simp add: js_Cons)
    ultimately show False using js_of_nat_units [of "0x2D" m] by simp
  qed
  show ?thesis
    using minus minus [symmetric] by (auto simp: js_of_int_def nat_eq_iff)
qed

lemma js_of_nat_colon: "0x3A \<notin> set (js_of_nat n)"
  using js_of_nat_units [of "0x3A"] by simp

lemma js_of_int_colon: "0x3A \<notin> set (js_of_int a)"
  using js_of_nat_units [of "0x3A"] by (simp add: js_of_int_def js_Cons)

lemma document_type_name_facts:
  "0x3A \<notin> set (document_type_name t)" "document_type_name t = document_type_name u \<longleftrightarrow> t = u"
  by (cases t; simp add: js_Cons) (cases t; cases u; simp)

text \<open>
  The name of an upload or a replacement identifies the kind chosen and the file's name,
  type, size and date, so that a kept key is never used for another file; the type of a file
  holds no colon.
\<close>

theorem file_operation_identifies:
  assumes "fileOperationId before f t = fileOperationId before g u" and "t = None \<longleftrightarrow> u = None"
    and "0x3A \<notin> set (file_type f)" and "0x3A \<notin> set (file_type g)"
  shows "f = g \<and> t = u"
proof -
  have shape: "fileOperationId before h v =
      ((((before @ (case v of None \<Rightarrow> [] | Some d \<Rightarrow> 0x3A # document_type_name d)) @ 0x3A # file_name h)
         @ 0x3A # file_type h) @ 0x3A # js_of_nat (file_size h)) @ 0x3A # js_of_int (file_modified h)" for h v
    by (simp add: fileOperationId_def js_Cons split: option.split)
  note eq = assms(1) [unfolded shape]
  note e1 = split_last_colon [OF eq js_of_int_colon js_of_int_colon]
  note e2 = split_last_colon [OF conjunct1 [OF e1] js_of_nat_colon js_of_nat_colon]
  note e3 = split_last_colon [OF conjunct1 [OF e2] assms(3,4)]
  have e4: "(case t of None \<Rightarrow> [] | Some d \<Rightarrow> 0x3A # document_type_name d) @ 0x3A # file_name f =
      (case u of None \<Rightarrow> [] | Some d \<Rightarrow> 0x3A # document_type_name d) @ 0x3A # file_name g"
    using conjunct1 [OF e3] by simp
  have "t = u \<and> file_name f = file_name g"
  proof (cases t)
    case None
    with assms(2) e4 show ?thesis by simp
  next
    case (Some d)
    with assms(2) obtain d' where u: "u = Some d'" by auto
    have first: "takeWhile (\<lambda>x. x \<noteq> 0x3A) (document_type_name k @ 0x3A # y) = document_type_name k" for k y
      using document_type_name_facts(1) [of k] by (subst takeWhile_append2) auto
    have "document_type_name d = document_type_name d'"
      using e4 Some u first [of d "file_name f"] first [of d' "file_name g"] by simp
    with e4 Some u document_type_name_facts(2) show ?thesis by simp
  qed
  with e1 e2 e3 show ?thesis by simp
qed

theorem file_operation_identifies_witness:
  "sample_file 10 = sample_file 10 \<and> Some DocCv = Some DocCv"
  using file_operation_identifies [of "js ''upload''" "sample_file 10" "Some DocCv" "sample_file 10" "Some DocCv"]
  by (simp add: sample_file_def js_Cons)

lemma replace_by_find:
  "x \<in> set xs \<Longrightarrow> key x = key new \<Longrightarrow> find (\<lambda>y. key y = key new) (replace_by key new xs) = Some new"
  by (induction xs) (auto simp: replace_by_def)

text \<open>
  C38: Replacing a file does not drop the link kept for its download: as long as that link is
  good, the next download opens it, and it was issued for the file that has been replaced.
\<close>

theorem replacement_keeps_link:
  assumes "kd_pending s = None" and "dm_awaiting s = None" and "the_document s i = Some d"
    and "map_of (dm_signedUrls s) i = Some link"
    and "\<not> isSignedUrlExpired (de_local e) (signed_expires_at link) now"
    and "validateDocumentFile f (de_policy e) = None" and "doc_id new = i" and "doc_status new = DocumentReady"
  shows "\<exists>call input. snd (doc_run e
      [Choose_Replacement i f k1, Answered (Got_Document new), Press_Download i now k2] s) =
      [Uploading call input, Opened i now link]"
proof -
  let ?call = "(fileOperationId (js ''replace-'' @ doc_id d) f None, js ''replace-'' @ doc_id d)"
  have d: "doc_id d = i" "d \<in> set (dm_documents s)"
    using assms(3) by (auto simp: the_document_def find_Some_iff)
  obtain s1 where v: "validate_file e f s = (s1, True)" "dm_signedUrls s1 = dm_signedUrls s" "kd_pending s1 = None"
    "dm_documents s1 = dm_documents s"
    using assms(1,6) by (simp add: validate_file_def Let_def non_empty_def)
  obtain s2 key where r: "run_start ?call k1 s1 = Some (s2, key)" "dm_signedUrls s2 = dm_signedUrls s"
      "dm_documents s2 = dm_documents s"
    using v by (auto simp: run_start_def begin_keyed_def js_Cons Let_def)
  let ?s3 = "s2\<lparr>dm_progress := Some 0, dm_awaiting := Some (Replace_Job, fst ?call)\<rparr>"
  have step1: "doc_step e (Choose_Replacement i f k1) s =
      (?s3, [Uploading ?call \<lparr>up_file = f, up_documentType = None, up_documentId = Some i, up_key = key\<rparr>])"
    using assms(1,3) v(1) r(1) d by (simp add: with_document_def replace_file_def begin_job_def Let_def)
  obtain s4 where step2: "doc_step e (Answered (Got_Document new)) ?s3 = (s4, [])"
      "dm_signedUrls s4 = dm_signedUrls s" "kd_pending s4 = None"
      "dm_documents s4 = upsert_by doc_id new (dm_documents s)"
    using r(2,3) by (simp add: answer_job_def action_finish_def run_finish_def replaceDocument_def set_documents_def settle_ok_def)
  have "find (\<lambda>x. doc_id x = i) (dm_documents s4) = Some new"
    using d assms(7) step2(4) replace_by_find [of d "dm_documents s" doc_id new]
    by (auto simp: upsert_by_def)
  moreover obtain s5 key' where "run_start (js ''download-'' @ i, js ''download-'' @ i) k2 s4 = Some (s5, key')"
    using step2(3) by (auto simp: run_start_def begin_keyed_def js_Cons Let_def)
  ultimately have step3: "snd (doc_step e (Press_Download i now k2) s4) = [Opened i now link]"
    using step2 assms(4,5,7,8) by (simp add: with_document_def the_document_def download_def Let_def)
  then obtain s6 where "doc_step e (Press_Download i now k2) s4 = (s6, [Opened i now link])"
    by (cases "doc_step e (Press_Download i now k2) s4") (simp del: doc_step.simps)
  then show ?thesis
    unfolding doc_run_simps step1 prod.case step2(1) by (simp del: doc_step.simps)
qed

theorem replacement_keeps_link_witness:
  "\<exists>call input. snd (doc_run sample_doc_env
      [Choose_Replacement (js ''d1'') (sample_file 10) (js ''k1''), Answered (Got_Document (sample_document ''d1'' DocumentReady)),
       Press_Download (js ''d1'') 0 (js ''k2'')]
      ((initial_manager sample_library (de_policy sample_doc_env))
         \<lparr>dm_signedUrls := [(js ''d1'', \<lparr>signed_url = js ''https://s'', signed_expires_at = js ''1970-01-01T00:01:00Z''\<rparr>)]\<rparr>)) =
      [Uploading call input,
       Opened (js ''d1'') 0 \<lparr>signed_url = js ''https://s'', signed_expires_at = js ''1970-01-01T00:01:00Z''\<rparr>]"
proof (rule replacement_keeps_link [where d = "sample_document ''d1'' DocumentReady"])
  have "iso_time (js ''1970-01-01T00:01:00Z'') = Some 60000" by code_simp
  then show "\<not> isSignedUrlExpired (de_local sample_doc_env)
      (signed_expires_at \<lparr>signed_url = js ''https://s'', signed_expires_at = js ''1970-01-01T00:01:00Z''\<rparr>) 0"
    by (simp add: isSignedUrlExpired_def date_parse_def)
qed (simp_all add: initial_manager_def sample_library_def sample_page_def the_document_def sample_document_def
       sample_doc_env_def sample_file_def validateDocumentFile_def)

end
