(* ===== verification/Admin_Shared.thy ===== *)
theory Admin_Shared
  imports Keyed_Requests Js_Date
begin

text \<open>
  What the administrative workspaces share: the check of external links
  (\<^verbatim>\<open>app/lib/admin/safe-source.ts\<close>), the dialog that asks for an exact name
  (\<^verbatim>\<open>app/components/admin/exact-confirmation.tsx\<close>), and their text helpers.
\<close>

section \<open>External links\<close>

text \<open>The platform's URL parser: \<open>None\<close> where \<open>new URL\<close> throws.\<close>

record parsed_url =
  url_protocol :: jsstring
  url_username :: jsstring
  url_password :: jsstring
  url_href :: jsstring

definition safeExternalSource :: "(jsstring \<Rightarrow> parsed_url option) \<Rightarrow> jsstring \<Rightarrow> jsstring option" where
  "safeExternalSource parse s =
     (if length s > 2048 then None
      else (case parse s of
              None \<Rightarrow> None
            | Some url \<Rightarrow>
                if url_protocol url \<noteq> js ''https:'' \<or> url_username url \<noteq> [] \<or> url_password url \<noteq> [] then None
                else Some (url_href url)))"

text \<open>A source as an administrative page shows it: a link, or a note that it is hidden.\<close>

datatype shown_source = Source_Link jsstring | Source_Hidden

definition SafeSourceLink :: "(jsstring \<Rightarrow> parsed_url option) \<Rightarrow> jsstring \<Rightarrow> shown_source" where
  "SafeSourceLink parse s =
     (case non_empty (safeExternalSource parse s) of Some href \<Rightarrow> Source_Link href | None \<Rightarrow> Source_Hidden)"

section \<open>Texts\<close>

definition spaced :: "jsstring \<Rightarrow> jsstring" where
  "spaced s = map (\<lambda>u. if u = 0x5F then 0x20 else u) s"

text \<open>\<open>.replace(/^./, upper)\<close>: the dot matches no line terminator; the labels are ASCII.\<close>

definition admin_label :: "jsstring \<Rightarrow> jsstring" where
  "admin_label s = (let t = spaced s in to_upper (take 1 t) @ drop 1 t)"

definition admin_format :: "(int \<Rightarrow> jsstring) \<Rightarrow> (jsstring \<Rightarrow> int option) \<Rightarrow> jsstring \<Rightarrow> jsstring option" where
  "admin_format intl engine s = map_option intl (date_parse engine s)"

definition nullable :: "jsstring option \<Rightarrow> jsstring option" where
  "nullable v = (let normalized = trim (or_else v []) in non_empty (Some normalized))"

section \<open>Exact confirmation\<close>

text \<open>The button is enabled only for the exact name, and not while the request is pending.\<close>

definition confirm_enabled :: "bool \<Rightarrow> jsstring \<Rightarrow> jsstring \<Rightarrow> bool" where
  "confirm_enabled pending typed targetName \<longleftrightarrow> \<not> pending \<and> typed = targetName"

datatype dialog_key = Escape | Tab bool | Other_Key

datatype key_outcome = Cancelled | Focus nat | Default

text \<open>
  \<open>handleKeyDown\<close> with \<open>controls\<close> focusable elements, of which \<open>active\<close> has the focus: Escape cancels
  unless pending, Tab wraps around at both ends.
\<close>

definition handleKeyDown :: "bool \<Rightarrow> nat \<Rightarrow> nat option \<Rightarrow> dialog_key \<Rightarrow> key_outcome" where
  "handleKeyDown pending controls active key =
     (case key of
        Escape \<Rightarrow> if pending then Default else Cancelled
      | Tab shift \<Rightarrow>
          if controls = 0 then Default
          else if shift \<and> active = Some 0 then Focus (controls - 1)
          else if \<not> shift \<and> active = Some (controls - 1) then Focus 0
          else Default
      | Other_Key \<Rightarrow> Default)"

text \<open>Where the focus is after a key: by default Tab moves it to the neighbour.\<close>

definition focus_after :: "bool \<Rightarrow> nat \<Rightarrow> nat \<Rightarrow> dialog_key \<Rightarrow> nat" where
  "focus_after pending controls active key =
     (case handleKeyDown pending controls (Some active) key of
        Focus i \<Rightarrow> i
      | _ \<Rightarrow> (case key of Tab True \<Rightarrow> active - 1 | Tab False \<Rightarrow> active + 1 | _ \<Rightarrow> active))"

lemma focus_stays_inside: "active < controls \<Longrightarrow> focus_after pending controls active key < controls"
  by (cases key) (auto simp: focus_after_def handleKeyDown_def split: bool.split)

section \<open>Operations with a key\<close>

text \<open>
  \<open>mutate\<close> in each of the workspaces: ignored while pending; the request of \<open>call\<close> goes out with
  its kept or its fresh key.
\<close>

datatype 'c admin_effect = Keyed 'c jsstring jsstring "RequestOptions option" | Unkeyed RequestOptions

definition admin_begin ::
  "jsstring \<Rightarrow> jsstring \<Rightarrow> (jsstring \<Rightarrow> RequestOptions option) \<Rightarrow> 'c \<Rightarrow> jsstring \<Rightarrow> 's keyed_scheme \<Rightarrow>
     ('s keyed_scheme \<times> 'c admin_effect list) option" where
  "admin_begin operation label req call fresh s =
     map_option (\<lambda>(s', key). (s', [Keyed call operation key (req key)])) (begin_keyed operation label fresh s)"

fun admin_issued :: "'c admin_effect list \<Rightarrow> (jsstring \<times> jsstring) list" where
  "admin_issued [] = []"
| "admin_issued (Keyed call operation key req # xs) = (operation, key) # admin_issued xs"
| "admin_issued (Unkeyed req # xs) = admin_issued xs"

definition keyed_table :: "'s keyed_scheme \<Rightarrow> jsstring \<rightharpoonup> jsstring" where
  "keyed_table s = map_of (kd_keys s)"

lemma admin_issued_append [simp]: "admin_issued (xs @ ys) = admin_issued xs @ admin_issued ys"
  by (induction xs rule: admin_issued.induct) simp_all

lemma admin_begin_Some:
  "admin_begin operation label req call fresh s = Some (s', xs) \<longleftrightarrow>
     \<not> is_busy s \<and>
     xs = [Keyed call operation (or_else (keyed_table s operation) fresh)
             (req (or_else (keyed_table s operation) fresh))] \<and>
     s' = s\<lparr>kd_pending := Some label, kd_error := None,
            kd_keys := dict_set operation (or_else (keyed_table s operation) fresh) (kd_keys s)\<rparr>"
  by (auto simp: admin_begin_def begin_keyed_def keyed_table_def Let_def)

lemma admin_begin_sends:
  assumes "admin_begin operation label req call fresh s = Some (s', xs)"
  shows "sends_key (keyed_table s) [fresh] (keyed_table s') (admin_issued xs)"
  using assms by (auto simp: admin_begin_Some sends_key_def keyed_table_def)

lemma sends_nothing:
  "kd_keys s' = kd_keys s \<Longrightarrow> sends_key (keyed_table s) fresh (keyed_table s') []"
  by (simp add: sends_key_def keyed_table_def)

lemma sends_drop:
  "kd_keys s' = dict_delete operation (kd_keys s) \<Longrightarrow> sends_key (keyed_table s) fresh (keyed_table s') []"
  by (simp add: sends_key_def keyed_table_def map_le_def)

end
