(* ===== verification/Admin_Queues.thy ===== *)
theory Admin_Queues
  imports Admin_Shared
begin

text \<open>
  Three administrative queues: ingestion runs (\<^verbatim>\<open>ingestion-workspace.tsx\<close>), the verification
  queue (\<^verbatim>\<open>verification-workspace.tsx\<close>) and duplicate groups (\<^verbatim>\<open>duplicate-workspace.tsx\<close>) under
  \<^verbatim>\<open>app/components/admin\<close>.  Each is a state, the request its action issues, a step function on events
  and the invariant that what goes out has passed the checks of the workspace.
\<close>

section \<open>Environment\<close>

record admin_env =
  ae_url :: "jsstring \<Rightarrow> parsed_url option"
  ae_message :: "thrown \<Rightarrow> jsstring option"

definition true_text :: "bool \<Rightarrow> jsstring" where
  "true_text b = (if b then js ''true'' else js ''false'')"

section \<open>Ingestion runs\<close>

datatype ingestion_call = Create_Run IngestionRunCreate | Retry_Run IngestionRunResponse

record ingestion = keyed +
  in_runs :: "IngestionRunResponse list"
  in_retryRun :: "IngestionRunResponse option"
  in_typed :: jsstring
  in_awaiting :: "jsstring option"

definition initial_ingestion :: "IngestionRunResponse page \<Rightarrow> ingestion" where
  "initial_ingestion page =
     \<lparr>kd_pending = None, kd_error = None, kd_keys = [], in_runs = page_data page, in_retryRun = None,
      in_typed = [], in_awaiting = None\<rparr>"

text \<open>The form: the message of a rejected form, or the body of the run.\<close>

definition read_run_form ::
  "admin_env \<Rightarrow> jsstring option \<Rightarrow> jsstring option \<Rightarrow> bool \<Rightarrow> jsstring + IngestionRunCreate" where
  "read_run_form e source_field url_field dry_run =
     (let source = trim (or_else source_field []); sourceUrl = trim (or_else url_field [])
      in if source = [] \<or>
            (sourceUrl \<noteq> [] \<and> non_empty (safeExternalSource (ae_url e) sourceUrl) = None)
         then Inl (js ''Provide a source name and, when present, a valid HTTPS source URL.'')
         else Inr \<lparr>irc_source = source, irc_source_url = non_empty (Some sourceUrl), irc_dry_run = dry_run\<rparr>)"

fun run_operation :: "ingestion_call \<Rightarrow> jsstring" where
  "run_operation (Create_Run body) =
     js ''create-'' @ irc_source body @ js ''-'' @ or_else (irc_source_url body) [] @ js ''-'' @ true_text (irc_dry_run body)"
| "run_operation (Retry_Run run) = js ''retry-'' @ run_id run"

fun run_request :: "ingestion_call \<Rightarrow> jsstring \<Rightarrow> RequestOptions option" where
  "run_request (Create_Run body) key = Some (createIngestionRun body key)"
| "run_request (Retry_Run run) key = retryIngestionRun (run_id run) key"

definition run_mutate ::
  "ingestion_call \<Rightarrow> jsstring \<Rightarrow> ingestion \<Rightarrow> ingestion \<times> ingestion_call admin_effect list" where
  "run_mutate call fresh s =
     (case admin_begin (run_operation call) (js ''true'') (run_request call) call fresh s of
        None \<Rightarrow> (s, [])
      | Some (s', xs) \<Rightarrow> (s'\<lparr>in_awaiting := Some (run_operation call)\<rparr>, xs))"

definition run_settle :: "admin_env \<Rightarrow> thrown + IngestionRunResponse \<Rightarrow> ingestion \<Rightarrow> ingestion" where
  "run_settle e answer s =
     (case in_awaiting s of
        None \<Rightarrow> s
      | Some operation \<Rightarrow>
        (case answer of
           Inr new \<Rightarrow>
             (settle_ok operation s)\<lparr>in_runs := new # filter (\<lambda>run. run_id run \<noteq> run_id new) (in_runs s),
               in_retryRun := None, in_typed := [], in_awaiting := None\<rparr>
         | Inl c \<Rightarrow>
             (settle_error (error_text (ae_message e) (js ''The ingestion operation failed.'') c) s)
               \<lparr>in_awaiting := None\<rparr>))"

definition retryable :: "IngestionStatus \<Rightarrow> bool" where
  "retryable status \<longleftrightarrow> status = RunFailed \<or> status = RunCancelled"

definition run_target :: "IngestionRunResponse \<Rightarrow> jsstring" where
  "run_target run = run_source run @ js '' ingestion''"

datatype run_event =
    Submit_Run "jsstring option" "jsstring option" bool jsstring
  | Press_Retry jsstring
  | Type_Name jsstring
  | Cancel_Retry
  | Confirm_Retry jsstring
  | Run_Answered "thrown + IngestionRunResponse"

fun run_step ::
  "admin_env \<Rightarrow> run_event \<Rightarrow> ingestion \<Rightarrow> ingestion \<times> ingestion_call admin_effect list" where
  "run_step e (Submit_Run source url dry_run fresh) s =
     (if kd_pending s \<noteq> None then (s, [])
      else (case read_run_form e source url dry_run of
              Inl message \<Rightarrow> (s\<lparr>kd_error := Some message\<rparr>, [])
            | Inr body \<Rightarrow> run_mutate (Create_Run body) fresh s))"
| "run_step e (Press_Retry i) s =
     (case find (\<lambda>run. run_id run = i \<and> retryable (run_status run)) (in_runs s) of
        None \<Rightarrow> (s, [])
      | Some run \<Rightarrow>
          (s\<lparr>in_typed := (if in_retryRun s = None then [] else in_typed s), in_retryRun := Some run\<rparr>, []))"
| "run_step e (Type_Name t) s = (if in_retryRun s = None then (s, []) else (s\<lparr>in_typed := t\<rparr>, []))"
| "run_step e Cancel_Retry s = (s\<lparr>in_retryRun := None, in_typed := []\<rparr>, [])"
| "run_step e (Confirm_Retry fresh) s =
     (case in_retryRun s of
        None \<Rightarrow> (s, [])
      | Some run \<Rightarrow>
          if confirm_enabled (kd_pending s \<noteq> None) (in_typed s) (run_target run)
          then run_mutate (Retry_Run run) fresh s else (s, []))"
| "run_step e (Run_Answered answer) s = (run_settle e answer s, [])"

fun run_fresh :: "run_event \<Rightarrow> jsstring list" where
  "run_fresh (Submit_Run _ _ _ k) = [k]"
| "run_fresh (Confirm_Retry k) = [k]"
| "run_fresh _ = []"

text \<open>The page of one run: its own retry, with one key kept in a ref.\<close>

record run_detail =
  rd_run :: IngestionRunResponse
  rd_confirming :: bool
  rd_pending :: bool
  rd_error :: "jsstring option"
  rd_retryKey :: "jsstring option"

definition detail_retry ::
  "jsstring \<Rightarrow> run_detail \<Rightarrow> run_detail \<times> (jsstring \<times> RequestOptions option) list" where
  "detail_retry fresh s =
     (if rd_pending s then (s, [])
      else (let key = or_else (rd_retryKey s) fresh
            in (s\<lparr>rd_pending := True, rd_error := None, rd_retryKey := Some key\<rparr>,
                [(key, retryIngestionRun (run_id (rd_run s)) key)])))"

definition detail_answer :: "admin_env \<Rightarrow> thrown + IngestionRunResponse \<Rightarrow> run_detail \<Rightarrow> run_detail" where
  "detail_answer e answer s =
     (if \<not> rd_pending s then s
      else (case answer of
              Inr run \<Rightarrow> s\<lparr>rd_run := run, rd_retryKey := None, rd_confirming := False, rd_pending := False\<rparr>
            | Inl c \<Rightarrow> s\<lparr>rd_error := Some (error_text (ae_message e) (js ''The ingestion retry failed.'') c),
                        rd_pending := False\<rparr>))"

section \<open>Verification queue\<close>

record verification = keyed +
  ve_items :: "AdminVerificationItem list"
  ve_notes :: "(jsstring, jsstring) dict"
  ve_accept :: "(jsstring, bool) dict"
  ve_awaiting :: "(jsstring \<times> jsstring) option"

datatype verify_call = Verify jsstring AdminVerificationWrite

definition initial_verification :: "AdminVerificationItem page \<Rightarrow> verification" where
  "initial_verification page =
     \<lparr>kd_pending = None, kd_error = None, kd_keys = [], ve_items = page_data page, ve_notes = [],
      ve_accept = [], ve_awaiting = None\<rparr>"

definition verify_operation :: "jsstring \<Rightarrow> AdminVerificationWrite \<Rightarrow> jsstring" where
  "verify_operation i body =
     js ''verify-'' @ i @ js ''-'' @ true_text (vw_accept_source_changes body) @ js ''-'' @ vw_reviewer_notes body"

definition verify ::
  "AdminVerificationItem \<Rightarrow> jsstring \<Rightarrow> verification \<Rightarrow> verification \<times> verify_call admin_effect list" where
  "verify item fresh s =
     (let i = verif_scholarship_id item;
          reviewerNotes = trim (or_else (map_of (ve_notes s) i) []);
          body = \<lparr>vw_reviewer_notes = reviewerNotes, vw_accept_source_changes = or_else (map_of (ve_accept s) i) False\<rparr>
      in if reviewerNotes = [] then (s, [])
         else (case admin_begin (verify_operation i body) i (verifyAdminScholarship i body) (Verify i body) fresh s of
                 None \<Rightarrow> (s, [])
               | Some (s', xs) \<Rightarrow> (s'\<lparr>ve_awaiting := Some (verify_operation i body, i)\<rparr>, xs)))"

definition verify_settle :: "admin_env \<Rightarrow> thrown option \<Rightarrow> verification \<Rightarrow> verification" where
  "verify_settle e failure s =
     (case ve_awaiting s of
        None \<Rightarrow> s
      | Some (operation, i) \<Rightarrow>
        (case failure of
           None \<Rightarrow>
             (settle_ok operation s)\<lparr>ve_items := filter (\<lambda>entry. verif_scholarship_id entry \<noteq> i) (ve_items s),
               ve_awaiting := None\<rparr>
         | Some c \<Rightarrow>
             (settle_error (error_text (ae_message e) (js ''Verification could not be recorded.'') c) s)
               \<lparr>ve_awaiting := None\<rparr>))"

datatype verify_event =
    Type_Verify_Notes jsstring jsstring
  | Tick_Accept jsstring bool
  | Press_Verify jsstring jsstring
  | Verify_Answered "thrown option"

text \<open>The button is disabled without notes and while pending; the box is shown for changed fields only.\<close>

fun verify_step ::
  "admin_env \<Rightarrow> verify_event \<Rightarrow> verification \<Rightarrow> verification \<times> verify_call admin_effect list" where
  "verify_step e (Type_Verify_Notes i t) s = (s\<lparr>ve_notes := dict_set i t (ve_notes s)\<rparr>, [])"
| "verify_step e (Tick_Accept i b) s =
     (if \<exists>item \<in> set (ve_items s). verif_scholarship_id item = i \<and> verif_changed_fields item \<noteq> []
      then (s\<lparr>ve_accept := dict_set i b (ve_accept s)\<rparr>, []) else (s, []))"
| "verify_step e (Press_Verify i fresh) s =
     (case find (\<lambda>item. verif_scholarship_id item = i) (ve_items s) of
        None \<Rightarrow> (s, [])
      | Some item \<Rightarrow>
          if trim (or_else (map_of (ve_notes s) i) []) = [] \<or> kd_pending s \<noteq> None then (s, [])
          else verify item fresh s)"
| "verify_step e (Verify_Answered failure) s = (verify_settle e failure s, [])"

fun verify_fresh :: "verify_event \<Rightarrow> jsstring list" where
  "verify_fresh (Press_Verify _ k) = [k]"
| "verify_fresh _ = []"

section \<open>Duplicate groups\<close>

record duplicates = keyed +
  du_groups :: "AdminDuplicateGroup list"
  du_canonical :: "(jsstring, jsstring) dict"
  du_notes :: "(jsstring, jsstring) dict"
  du_confirming :: "jsstring option"
  du_typed :: jsstring
  du_awaiting :: "(jsstring \<times> jsstring) option"

datatype merge_call = Merge AdminDuplicateGroup AdminDuplicateMergeRequest

definition initial_duplicates :: "AdminDuplicateGroup page \<Rightarrow> duplicates" where
  "initial_duplicates page =
     \<lparr>kd_pending = None, kd_error = None, kd_keys = [], du_groups = page_data page, du_canonical = [],
      du_notes = [], du_confirming = None, du_typed = [], du_awaiting = None\<rparr>"

definition confirmed_group :: "duplicates \<Rightarrow> AdminDuplicateGroup option" where
  "confirmed_group s = find (\<lambda>g. Some (group_id g) = du_confirming s) (du_groups s)"

definition canonicalId :: "duplicates \<Rightarrow> AdminDuplicateGroup \<Rightarrow> jsstring option" where
  "canonicalId s g =
     (case map_of (du_canonical s) (group_id g) of
        Some i \<Rightarrow> Some i
      | None \<Rightarrow> (case group_candidates g of [] \<Rightarrow> None | c # _ \<Rightarrow> Some (cand_scholarship_id c)))"

definition canonicalName :: "duplicates \<Rightarrow> AdminDuplicateGroup \<Rightarrow> jsstring option" where
  "canonicalName s g =
     map_option cand_title (find (\<lambda>c. Some (cand_scholarship_id c) = canonicalId s g) (group_candidates g))"

definition merge_operation :: "AdminDuplicateGroup \<Rightarrow> jsstring \<Rightarrow> jsstring" where
  "merge_operation g canonical = js ''merge-'' @ group_id g @ js ''-'' @ canonical"

text \<open>\<open>merge\<close> has no guard of its own against a pending merge; the dialog's button has.\<close>

definition merge_begin ::
  "AdminDuplicateGroup \<Rightarrow> jsstring \<Rightarrow> AdminDuplicateMergeRequest \<Rightarrow> jsstring \<Rightarrow> duplicates \<Rightarrow>
     duplicates \<times> merge_call admin_effect list" where
  "merge_begin g canonical body fresh s =
     (let operation = merge_operation g canonical;
          key = or_else (map_of (kd_keys s) operation) fresh
      in (s\<lparr>kd_keys := dict_set operation key (kd_keys s), kd_pending := Some (js ''true''), kd_error := None,
            du_awaiting := Some (operation, group_id g)\<rparr>,
          [Keyed (Merge g body) operation key (mergeAdminDuplicateGroup (group_id g) body key)]))"

definition merge :: "jsstring \<Rightarrow> duplicates \<Rightarrow> duplicates \<times> merge_call admin_effect list" where
  "merge fresh s =
     (case confirmed_group s of
        None \<Rightarrow> (s, [])
      | Some g \<Rightarrow>
        (case non_empty (canonicalId s g) of
           None \<Rightarrow> (s, [])
         | Some canonical \<Rightarrow>
             (let reviewerNotes = trim (or_else (map_of (du_notes s) (group_id g)) [])
              in if reviewerNotes = [] then (s, [])
                 else merge_begin g canonical
                        \<lparr>merge_canonical_scholarship_id = canonical,
                         merge_duplicate_scholarship_ids =
                           map cand_scholarship_id (filter (\<lambda>c. cand_scholarship_id c \<noteq> canonical) (group_candidates g)),
                         merge_reviewer_notes = reviewerNotes\<rparr> fresh s)))"

definition merge_settle :: "admin_env \<Rightarrow> thrown option \<Rightarrow> duplicates \<Rightarrow> duplicates" where
  "merge_settle e failure s =
     (case du_awaiting s of
        None \<Rightarrow> s
      | Some (operation, i) \<Rightarrow>
        (case failure of
           None \<Rightarrow>
             (settle_ok operation s)\<lparr>du_groups := filter (\<lambda>g. group_id g \<noteq> i) (du_groups s),
               du_confirming := None, du_typed := [], du_awaiting := None\<rparr>
         | Some c \<Rightarrow>
             (settle_error (error_text (ae_message e) (js ''The duplicate group could not be merged.'') c) s)
               \<lparr>du_awaiting := None\<rparr>))"

datatype merge_event =
    Choose_Canonical jsstring jsstring
  | Type_Merge_Notes jsstring jsstring
  | Preview_Merge jsstring
  | Type_Canonical jsstring
  | Cancel_Merge
  | Confirm_Merge jsstring
  | Merge_Answered "thrown option"

fun merge_step ::
  "admin_env \<Rightarrow> merge_event \<Rightarrow> duplicates \<Rightarrow> duplicates \<times> merge_call admin_effect list" where
  "merge_step e (Choose_Canonical i c) s =
     (if \<exists>g \<in> set (du_groups s). group_id g = i \<and> c \<in> cand_scholarship_id ` set (group_candidates g)
      then (s\<lparr>du_canonical := dict_set i c (du_canonical s)\<rparr>, []) else (s, []))"
| "merge_step e (Type_Merge_Notes i t) s = (s\<lparr>du_notes := dict_set i t (du_notes s)\<rparr>, [])"
| "merge_step e (Preview_Merge i) s =
     (if trim (or_else (map_of (du_notes s) i) []) = [] then (s, [])
      else (s\<lparr>du_typed := (if du_confirming s = None then [] else du_typed s), du_confirming := Some i\<rparr>, []))"
| "merge_step e (Type_Canonical t) s = (if du_confirming s = None then (s, []) else (s\<lparr>du_typed := t\<rparr>, []))"
| "merge_step e Cancel_Merge s = (s\<lparr>du_confirming := None, du_typed := []\<rparr>, [])"
| "merge_step e (Confirm_Merge fresh) s =
     (case confirmed_group s of
        None \<Rightarrow> (s, [])
      | Some g \<Rightarrow>
        (case non_empty (canonicalName s g) of
           None \<Rightarrow> (s, [])
         | Some name \<Rightarrow>
             if confirm_enabled (kd_pending s \<noteq> None) (du_typed s) name then merge fresh s else (s, [])))"
| "merge_step e (Merge_Answered failure) s = (merge_settle e failure s, [])"

fun merge_fresh :: "merge_event \<Rightarrow> jsstring list" where
  "merge_fresh (Confirm_Merge k) = [k]"
| "merge_fresh _ = []"

section \<open>Key discipline\<close>

lemma settle_table [simp]:
  "keyed_table (settle_ok operation s) = (keyed_table s)(operation := None)"
  "keyed_table (settle_error m s) = keyed_table s"
  by (simp_all add: keyed_table_def)

lemma drop_le [simp]: "m(x := None) \<subseteq>\<^sub>m m"
  by (simp add: map_le_def)

interpretation run_machine: keyed_machine "run_step e" keyed_table admin_issued run_fresh "\<lambda>_. True"
  for e
proof unfold_locales
  show "sends_key (keyed_table s) (run_fresh v) (keyed_table (fst (run_step e v s))) (admin_issued (snd (run_step e v s)))"
    for s v
  proof -
    have mutate: "sends_key (keyed_table s) [fresh] (keyed_table (fst (run_mutate call fresh s)))
        (admin_issued (snd (run_mutate call fresh s)))" for call fresh
      using admin_begin_sends [of "run_operation call" "js ''true''" "run_request call" call fresh s]
      by (auto simp: run_mutate_def sends_key_def keyed_table_def split: option.split)
    show ?thesis
      using mutate
      by (cases v) (auto simp: sends_nothing run_settle_def sends_key_def keyed_table_def settle_ok_def settle_error_def
          split: option.split sum.split)
  qed
qed simp_all

interpretation verify_machine: keyed_machine "verify_step e" keyed_table admin_issued verify_fresh "\<lambda>_. True"
  for e
proof unfold_locales
  show "sends_key (keyed_table s) (verify_fresh v) (keyed_table (fst (verify_step e v s))) (admin_issued (snd (verify_step e v s)))"
    for s v
  proof -
    have v: "sends_key (keyed_table s) [fresh] (keyed_table (fst (verify item fresh s)))
        (admin_issued (snd (verify item fresh s)))" for item fresh
      by (auto simp: verify_def Let_def sends_key_def keyed_table_def admin_begin_Some split: option.split)
    show ?thesis
      using v
      by (cases v) (auto simp: sends_nothing verify_settle_def sends_key_def keyed_table_def settle_ok_def settle_error_def
          split: option.split)
  qed
qed simp_all

interpretation merge_machine: keyed_machine "merge_step e" keyed_table admin_issued merge_fresh "\<lambda>_. True"
  for e
proof unfold_locales
  show "sends_key (keyed_table s) (merge_fresh v) (keyed_table (fst (merge_step e v s))) (admin_issued (snd (merge_step e v s)))"
    for s v
  proof -
    have m: "sends_key (keyed_table s) [fresh] (keyed_table (fst (merge fresh s)))
        (admin_issued (snd (merge fresh s)))" for fresh
      by (auto simp: merge_def merge_begin_def Let_def sends_key_def keyed_table_def split: option.split)
    show ?thesis
      using m
      by (cases v) (auto simp: sends_nothing merge_settle_def sends_key_def keyed_table_def settle_ok_def settle_error_def
          split: option.split)
  qed
qed simp_all

section \<open>Properties\<close>


definition sample_candidate :: "string \<Rightarrow> string \<Rightarrow> AdminDuplicateCandidate" where
  "sample_candidate i t =
     \<lparr>cand_scholarship_id = js i, cand_title = js t, cand_provider = [], cand_status = AdminDraft, cand_source_history = []\<rparr>"

definition sample_group :: AdminDuplicateGroup where
  "sample_group =
     \<lparr>group_id = js ''g1'', group_reason = [], group_candidates = [sample_candidate ''s1'' ''Award'', sample_candidate ''s2'' ''Prize''],
      group_created_at = []\<rparr>"

definition sample_admin_env :: admin_env where
  "sample_admin_env =
     \<lparr>ae_url = (\<lambda>s. if prefix (js ''https://'') s
                    then Some \<lparr>url_protocol = js ''https:'', url_username = [], url_password = [], url_href = s\<rparr> else None),
      ae_message = (\<lambda>_. None)\<rparr>"

text \<open>The state in which a merge of the sample group is about to be confirmed.\<close>

definition sample_confirmation :: duplicates where
  "sample_confirmation =
     (initial_duplicates (sample_page [sample_group]))
       \<lparr>du_notes := [(js ''g1'', js ''same award'')], du_confirming := Some (js ''g1''), du_typed := js ''Award''\<rparr>"


text \<open>Two merges of a group, with other notes after the first has failed.\<close>

definition merge_twice ::
  "AdminDuplicateGroup \<Rightarrow> jsstring \<Rightarrow> jsstring \<Rightarrow> thrown \<Rightarrow> jsstring \<Rightarrow> jsstring \<Rightarrow> merge_event list" where
  "merge_twice g notes1 notes2 failure k1 k2 =
     [Type_Merge_Notes (group_id g) notes1, Preview_Merge (group_id g),
      Type_Canonical (cand_title (hd (group_candidates g))), Confirm_Merge k1, Merge_Answered (Some failure),
      Type_Merge_Notes (group_id g) notes2, Confirm_Merge k2]"

text \<open>
  The name of a merge leaves its notes out: after a failure, changed notes are sent with
  the key of the earlier body, which the server has seen with other content.
\<close>

theorem merge_key_ignores_notes:
  assumes "group_candidates g = c # cs" and "cand_scholarship_id c \<noteq> []" and "cand_title c \<noteq> []"
    and "trim notes1 \<noteq> []" and "trim notes2 \<noteq> []"
  shows "map (\<lambda>x. case x of Keyed (Merge _ body) _ key _ \<Rightarrow> (key, merge_reviewer_notes body))
      (snd (run_steps (merge_step e) (merge_twice g notes1 notes2 failure k1 k2)
        (initial_duplicates (sample_page [g])))) =
    [(k1, trim notes1), (k1, trim notes2)]"
proof -
  have [simp]: "non_empty (Some s) = Some s" if "s \<noteq> []" for s :: jsstring
    using that by (cases s) (simp_all add: non_empty_def)
  show ?thesis
    using assms
    by (simp add: merge_twice_def initial_duplicates_def sample_page_def confirmed_group_def
        canonicalName_def canonicalId_def confirm_enabled_def merge_def merge_begin_def or_else_def
        merge_settle_def settle_error_def Let_def)
qed

theorem merge_key_ignores_notes_witness:
  "map (\<lambda>x. case x of Keyed (Merge _ body) _ key _ \<Rightarrow> (key, merge_reviewer_notes body))
      (snd (run_steps (merge_step sample_admin_env)
        (merge_twice sample_group (js ''a'') (js ''b'') Syntax_Error (js ''k1'') (js ''k2''))
        (initial_duplicates (sample_page [sample_group])))) =
    [(js ''k1'', js ''a''), (js ''k1'', js ''b'')]"
proof -
  have t: "trim (js ''a'') = js ''a''" "trim (js ''b'') = js ''b''" by code_simp+
  show ?thesis
    using merge_key_ignores_notes [of sample_group "sample_candidate ''s1'' ''Award''" "[sample_candidate ''s2'' ''Prize'']"
        "js ''a''" "js ''b''" sample_admin_env Syntax_Error "js ''k1''" "js ''k2''"]
    by (simp add: t) (simp add: sample_group_def sample_candidate_def)
qed

text \<open>
  The name of a verification identifies its record, decision and notes when identifiers have one
  length (the API's are UUIDs), so a kept key is never used for another verification.
\<close>

theorem verify_operation_identifies:
  assumes "verify_operation i body = verify_operation j body'" and "length i = length j"
  shows "i = j \<and> body = body'"
proof -
  have "i = j" and rest: "true_text (vw_accept_source_changes body) @ js ''-'' @ vw_reviewer_notes body =
      true_text (vw_accept_source_changes body') @ js ''-'' @ vw_reviewer_notes body'"
    using assms by (simp_all add: verify_operation_def)
  moreover have "vw_accept_source_changes body = vw_accept_source_changes body' \<and>
      vw_reviewer_notes body = vw_reviewer_notes body'"
    using rest by (auto simp: true_text_def js_Cons split: if_splits)
  ultimately show ?thesis by simp
qed

theorem verify_operation_identifies_witness:
  "js ''s1'' = js ''s1'' \<and> \<lparr>vw_reviewer_notes = js ''ok'', vw_accept_source_changes = True\<rparr> =
     \<lparr>vw_reviewer_notes = js ''ok'', vw_accept_source_changes = True\<rparr>"
  by (rule verify_operation_identifies) simp_all

end
