(* ===== verification/Admin_Catalogue.thy ===== *)
theory Admin_Catalogue
  imports Admin_Queues
begin

text \<open>
  The administrative catalogue, \<^verbatim>\<open>app/components/admin/scholarship-admin-workspace.tsx\<close>: drafts and
  edits, structured requirements, lifecycle transitions behind an exact confirmation, and bulk
  actions with preview, confirmation and undo.
\<close>

section \<open>Texts\<close>

fun lifecycleDescription :: "LifecycleAction \<Rightarrow> jsstring" where
  "lifecycleDescription ActSubmitForReview = js ''Moves this draft into the review queue.''"
| "lifecycleDescription ActPublish =
     js ''Makes this scholarship visible to students after server validation.''"
| "lifecycleDescription ActUnpublish =
     js ''Removes this scholarship from student discovery without deleting its history.''"
| "lifecycleDescription ActExpire = js ''Marks the opportunity expired and non-actionable.''"
| "lifecycleDescription ActArchive =
     js ''Removes this record from active operations while retaining source and audit history.''"

fun bulk_action_name :: "BulkAction \<Rightarrow> jsstring" where
  "bulk_action_name BulkPublish = js ''publish''"
| "bulk_action_name BulkUnpublish = js ''unpublish''"
| "bulk_action_name BulkExpire = js ''expire''"
| "bulk_action_name BulkArchive = js ''archive''"

section \<open>The form\<close>

record scholarship_form =
  sf_title :: "jsstring option"
  sf_provider :: "jsstring option"
  sf_funding_type :: FundingType
  sf_deadline :: "jsstring option"
  sf_source_url :: "jsstring option"
  sf_description :: "jsstring option"
  sf_funding_summary :: "jsstring option"
  sf_reviewer_notes :: "jsstring option"

definition submit_form :: "admin_env \<Rightarrow> scholarship_form \<Rightarrow> jsstring + AdminScholarshipWrite" where
  "submit_form e form =
     (let sourceUrl = trim (or_else (sf_source_url form) [])
      in if non_empty (safeExternalSource (ae_url e) sourceUrl) = None
         then Inl (js ''Source links must be valid HTTPS URLs without embedded credentials.'')
         else (let body = \<lparr>asw_title = trim (or_else (sf_title form) []),
                           asw_provider = trim (or_else (sf_provider form) []),
                           asw_description = nullable (sf_description form),
                           asw_funding_type = sf_funding_type form,
                           asw_funding_summary = nullable (sf_funding_summary form),
                           asw_deadline = nullable (sf_deadline form),
                           asw_source_url = sourceUrl,
                           asw_reviewer_notes = nullable (sf_reviewer_notes form)\<rparr>
               in if asw_title body = [] \<or> asw_provider body = []
                  then Inl (js ''Title and provider are required.'') else Inr body))"

definition json_or_null :: "jsstring option \<Rightarrow> json" where
  "json_or_null v = (case v of None \<Rightarrow> JNull | Some s \<Rightarrow> JStr s)"

definition write_json :: "AdminScholarshipWrite \<Rightarrow> (jsstring, json) dict" where
  "write_json body =
     [(js ''title'', JStr (asw_title body)), (js ''provider'', JStr (asw_provider body)),
      (js ''funding_type'', JStr (funding_type_name (asw_funding_type body))),
      (js ''description'', json_or_null (asw_description body)),
      (js ''funding_summary'', json_or_null (asw_funding_summary body)),
      (js ''deadline'', json_or_null (asw_deadline body)),
      (js ''source_url'', JStr (asw_source_url body)),
      (js ''reviewer_notes'', json_or_null (asw_reviewer_notes body))]"

section \<open>The requirement editor\<close>

fun value_json :: "RequirementValue \<Rightarrow> json" where
  "value_json (ValueText s) = JStr s"
| "value_json (ValueNumber n) = JNum n"
| "value_json (ValueBool b) = JBool b"
| "value_json (ValueList xs) = JArr (map JStr xs)"

definition requirement_json :: "AdminRequirementWrite \<Rightarrow> json" where
  "requirement_json r =
     JObj [(js ''constraint'', JStr (if req_constraint r = Hard then js ''hard'' else js ''soft'')),
           (js ''field'', JStr (requirement_field_name (req_field r))),
           (js ''operator'', JStr (requirement_operator_name (req_operator r))),
           (js ''value'', value_json (req_value r)),
           (js ''source_evidence'',
              JObj [(js ''label'', JStr (se_label (req_source_evidence r))),
                    (js ''source_url'', JStr (se_source_url (req_source_evidence r))),
                    (js ''summary'', JStr (se_summary (req_source_evidence r)))]),
           (js ''reviewer_notes'', json_or_null (req_reviewer_notes r))]"

record requirement_editor =
  re_items :: "AdminRequirementWrite list"
  re_error :: "jsstring option"

definition open_editor :: "AdminScholarshipResponse \<Rightarrow> requirement_editor" where
  "open_editor r = \<lparr>re_items = map AdminRequirementWrite.truncate (asr_requirements r), re_error = None\<rparr>"

definition emptyRequirement :: "jsstring \<Rightarrow> AdminRequirementWrite" where
  "emptyRequirement sourceUrl =
     \<lparr>req_constraint = Hard, req_field = ReqFieldStudyLevel, req_operator = OpEquals, req_value = ValueText [],
      req_source_evidence = \<lparr>se_label = [], se_source_url = sourceUrl, se_summary = []\<rparr>, req_reviewer_notes = None\<rparr>"

definition add_requirement :: "jsstring \<Rightarrow> requirement_editor \<Rightarrow> requirement_editor" where
  "add_requirement sourceUrl ed =
     (if length (re_items ed) \<ge> 100 then ed
      else ed\<lparr>re_items := re_items ed @ [emptyRequirement sourceUrl]\<rparr>)"

definition updateRequirement ::
  "nat \<Rightarrow> (AdminRequirementWrite \<Rightarrow> AdminRequirementWrite) \<Rightarrow> requirement_editor \<Rightarrow> requirement_editor" where
  "updateRequirement i patch ed =
     ed\<lparr>re_items := map (\<lambda>(j, item). if j = i then patch item else item) (enumerate 0 (re_items ed))\<rparr>"

text \<open>The value field is a text input: whatever the value was, a change makes it text.\<close>

definition edit_value :: "jsstring \<Rightarrow> AdminRequirementWrite \<Rightarrow> AdminRequirementWrite" where
  "edit_value t item = item\<lparr>req_value := ValueText t\<rparr>"

definition edit_notes :: "jsstring \<Rightarrow> AdminRequirementWrite \<Rightarrow> AdminRequirementWrite" where
  "edit_notes t item = item\<lparr>req_reviewer_notes := non_empty (Some t)\<rparr>"

definition remove_requirement :: "nat \<Rightarrow> requirement_editor \<Rightarrow> requirement_editor" where
  "remove_requirement i ed =
     ed\<lparr>re_items := map snd (filter (\<lambda>(j, _). j \<noteq> i) (enumerate 0 (re_items ed)))\<rparr>"

definition evidence_ok :: "admin_env \<Rightarrow> AdminRequirementWrite \<Rightarrow> bool" where
  "evidence_ok e item \<longleftrightarrow>
     trim (se_label (req_source_evidence item)) \<noteq> [] \<and> trim (se_summary (req_source_evidence item)) \<noteq> [] \<and>
     non_empty (safeExternalSource (ae_url e) (se_source_url (req_source_evidence item))) \<noteq> None"

definition save_requirements ::
  "admin_env \<Rightarrow> requirement_editor \<Rightarrow> requirement_editor \<times> AdminRequirementSetWrite option" where
  "save_requirements e ed =
     (if find (\<lambda>item. \<not> evidence_ok e item) (re_items ed) \<noteq> None
      then (ed\<lparr>re_error := Some (js ''Each requirement needs an evidence label, plain-text summary, and valid HTTPS source URL.'')\<rparr>, None)
      else (ed\<lparr>re_error := None\<rparr>, Some (re_items ed)))"

section \<open>Calls\<close>

datatype catalogue_call =
    Create_Draft AdminScholarshipWrite
  | Edit_Record AdminScholarshipResponse AdminScholarshipWrite
  | Set_Requirements AdminScholarshipResponse AdminRequirementSetWrite
  | Transition AdminScholarshipResponse LifecycleAction
  | Apply_Bulk AdminBulkActionPreviewResponse
  | Undo_Bulk AdminBulkActionResponse

text \<open>\<open>stringify\<close> is \<open>JSON.stringify\<close>.\<close>

fun catalogue_operation :: "(json \<Rightarrow> jsstring) \<Rightarrow> catalogue_call \<Rightarrow> jsstring" where
  "catalogue_operation stringify (Create_Draft body) = js ''create-'' @ asw_title body @ js ''-'' @ asw_provider body"
| "catalogue_operation stringify (Edit_Record r body) =
     js ''edit-'' @ asr_id r @ js ''-'' @ stringify (JObj (write_json body))"
| "catalogue_operation stringify (Set_Requirements r items) =
     js ''requirements-'' @ asr_id r @ js ''-''
       @ stringify (JObj [(js ''requirements'', JArr (map requirement_json items))])"
| "catalogue_operation stringify (Transition r action) =
     js ''lifecycle-'' @ asr_id r @ js ''-'' @ lifecycle_action_name action"
| "catalogue_operation stringify (Apply_Bulk p) = js ''bulk-'' @ preview_preview_token p"
| "catalogue_operation stringify (Undo_Bulk r) = js ''undo-bulk-'' @ bulk_operation_id r"

fun catalogue_label :: "catalogue_call \<Rightarrow> jsstring" where
  "catalogue_label (Create_Draft _) = js ''draft''"
| "catalogue_label (Edit_Record _ _) = js ''edit''"
| "catalogue_label (Set_Requirements _ _) = js ''requirements''"
| "catalogue_label (Transition _ action) = spaced (lifecycle_action_name action)"
| "catalogue_label (Apply_Bulk _) = js ''bulk action''"
| "catalogue_label (Undo_Bulk _) = js ''bulk recovery''"

fun catalogue_request :: "catalogue_call \<Rightarrow> jsstring \<Rightarrow> RequestOptions option" where
  "catalogue_request (Create_Draft body) key = Some (createAdminScholarship body key)"
| "catalogue_request (Edit_Record r body) key = updateAdminScholarship (asr_id r) (map_of (write_json body)) key"
| "catalogue_request (Set_Requirements r items) key = replaceAdminScholarshipRequirements (asr_id r) items key"
| "catalogue_request (Transition r action) key = transitionAdminScholarship (asr_id r) action None key"
| "catalogue_request (Apply_Bulk p) key = Some (applyAdminBulkAction (preview_preview_token p) key)"
| "catalogue_request (Undo_Bulk r) key = undoAdminBulkAction (bulk_operation_id r) key"

section \<open>State\<close>

text \<open>A confirmation holds what its \<open>execute\<close> closes over.\<close>

datatype confirmation =
    Confirm_Transition AdminScholarshipResponse LifecycleAction
  | Confirm_Bulk AdminBulkActionPreviewResponse

fun targetName :: "confirmation \<Rightarrow> jsstring" where
  "targetName (Confirm_Transition r _) = asw_title r"
| "targetName (Confirm_Bulk p) = js_of_nat (length (preview_affected p)) @ js '' scholarships''"

fun confirmation_description :: "confirmation \<Rightarrow> jsstring" where
  "confirmation_description (Confirm_Transition _ action) = lifecycleDescription action"
| "confirmation_description (Confirm_Bulk p) =
     js_of_nat (length (preview_blocked p))
       @ js '' blocked records will be skipped. This applies only the reviewed preview.''"

datatype catalogue_job = Awaiting_Call catalogue_call jsstring | Awaiting_Preview

record catalogue = keyed +
  ca_records :: "AdminScholarshipResponse list"
  ca_selected :: "jsstring list"
  ca_createOpen :: bool
  ca_confirmation :: "confirmation option"
  ca_typed :: jsstring
  ca_bulkAction :: BulkAction
  ca_bulkPreview :: "AdminBulkActionPreviewResponse option"
  ca_bulkResult :: "AdminBulkActionResponse option"
  ca_awaiting :: "catalogue_job option"

definition initial_catalogue :: "AdminScholarshipPage \<Rightarrow> catalogue" where
  "initial_catalogue page =
     \<lparr>kd_pending = None, kd_error = None, kd_keys = [], ca_records = page_data page, ca_selected = [],
      ca_createOpen = False, ca_confirmation = None, ca_typed = [], ca_bulkAction = BulkPublish,
      ca_bulkPreview = None, ca_bulkResult = None, ca_awaiting = None\<rparr>"

definition replace_record :: "AdminScholarshipResponse \<Rightarrow> catalogue \<Rightarrow> catalogue" where
  "replace_record new s = s\<lparr>ca_records := upsert_by asr_id new (ca_records s)\<rparr>"

definition set_confirmation :: "confirmation option \<Rightarrow> catalogue \<Rightarrow> catalogue" where
  "set_confirmation c s =
     s\<lparr>ca_typed := (if ca_confirmation s = None \<or> c = None then [] else ca_typed s), ca_confirmation := c\<rparr>"

section \<open>Operations\<close>

definition catalogue_mutate ::
  "(json \<Rightarrow> jsstring) \<Rightarrow> catalogue_call \<Rightarrow> jsstring \<Rightarrow> catalogue \<Rightarrow> catalogue \<times> catalogue_call admin_effect list" where
  "catalogue_mutate stringify call fresh s =
     (case admin_begin (catalogue_operation stringify call) (catalogue_label call) (catalogue_request call) call fresh s of
        None \<Rightarrow> (s, [])
      | Some (s', xs) \<Rightarrow> (s'\<lparr>ca_awaiting := Some (Awaiting_Call call (catalogue_operation stringify call))\<rparr>, xs))"

definition requestLifecycle :: "AdminScholarshipResponse \<Rightarrow> LifecycleAction \<Rightarrow> catalogue \<Rightarrow> catalogue" where
  "requestLifecycle r action s = set_confirmation (Some (Confirm_Transition r action)) s"

definition previewBulk :: "catalogue \<Rightarrow> catalogue \<times> catalogue_call admin_effect list" where
  "previewBulk s =
     (if ca_selected s = [] \<or> length (ca_selected s) > 50 then (s, [])
      else (s\<lparr>kd_pending := Some (js ''bulk preview''), kd_error := None, ca_awaiting := Some Awaiting_Preview\<rparr>,
            [Unkeyed (previewAdminBulkAction
               \<lparr>bpr_scholarship_ids = ca_selected s, bpr_action = ca_bulkAction s\<rparr>)]))"

definition requestBulkApply :: "catalogue \<Rightarrow> catalogue" where
  "requestBulkApply s =
     (case ca_bulkPreview s of None \<Rightarrow> s | Some p \<Rightarrow> set_confirmation (Some (Confirm_Bulk p)) s)"

definition toggle_selected :: "jsstring \<Rightarrow> catalogue \<Rightarrow> catalogue" where
  "toggle_selected i s =
     (if i \<in> set (ca_selected s) then s\<lparr>ca_selected := filter (\<lambda>j. j \<noteq> i) (ca_selected s)\<rparr>
      else if length (ca_selected s) \<ge> 50 then s
      else s\<lparr>ca_selected := ca_selected s @ [i]\<rparr>)"

datatype catalogue_answer =
    Catalogue_Failed thrown
  | Got_Record AdminScholarshipResponse
  | Got_Preview AdminBulkActionPreviewResponse
  | Got_Bulk AdminBulkActionResponse
  | Got_Undo

text \<open>What the action of a call does with its answer; an answer of another kind does not occur.\<close>

definition call_finish :: "catalogue_call \<Rightarrow> catalogue_answer \<Rightarrow> catalogue \<Rightarrow> catalogue option" where
  "call_finish call answer s =
     (case (call, answer) of
        (Create_Draft _, Got_Record r) \<Rightarrow> Some ((replace_record r s)\<lparr>ca_createOpen := False\<rparr>)
      | (Edit_Record _ _, Got_Record r) \<Rightarrow> Some (replace_record r s)
      | (Set_Requirements _ _, Got_Record r) \<Rightarrow> Some (replace_record r s)
      | (Transition _ _, Got_Record r) \<Rightarrow> Some (set_confirmation None (replace_record r s))
      | (Apply_Bulk _, Got_Bulk r) \<Rightarrow>
          Some (set_confirmation None (s\<lparr>ca_bulkResult := Some r, ca_selected := [], ca_bulkPreview := None\<rparr>))
      | (Undo_Bulk _, Got_Undo) \<Rightarrow> Some (s\<lparr>ca_bulkResult := None\<rparr>)
      | _ \<Rightarrow> None)"

definition messageFrom :: "admin_env \<Rightarrow> thrown \<Rightarrow> jsstring" where
  "messageFrom e = error_text (ae_message e) (js ''The administrative action could not be completed.'')"

definition catalogue_settle :: "admin_env \<Rightarrow> catalogue_answer \<Rightarrow> catalogue \<Rightarrow> catalogue" where
  "catalogue_settle e answer s =
     (case (ca_awaiting s, answer) of
        (None, _) \<Rightarrow> s
      | (Some _, Catalogue_Failed c) \<Rightarrow> (settle_error (messageFrom e c) s)\<lparr>ca_awaiting := None\<rparr>
      | (Some Awaiting_Preview, Got_Preview p) \<Rightarrow>
          s\<lparr>ca_bulkPreview := Some p, kd_pending := None, ca_awaiting := None\<rparr>
      | (Some Awaiting_Preview, _) \<Rightarrow> s
      | (Some (Awaiting_Call call operation), _) \<Rightarrow>
          (case call_finish call answer s of
             None \<Rightarrow> s
           | Some s' \<Rightarrow> (settle_ok operation s')\<lparr>ca_awaiting := None\<rparr>))"

section \<open>Events\<close>

datatype catalogue_event =
    Toggle_Create
  | Submit_Create scholarship_form jsstring
  | Submit_Edit jsstring scholarship_form jsstring
  | Submit_Requirements jsstring requirement_editor jsstring
  | Press_Lifecycle jsstring LifecycleAction
  | Type_Target jsstring
  | Cancel_Confirmation
  | Press_Confirm jsstring
  | Toggle_Select jsstring
  | Choose_Bulk BulkAction
  | Press_Preview
  | Continue_Bulk
  | Press_Undo jsstring
  | Catalogue_Answered catalogue_answer

definition the_record :: "catalogue \<Rightarrow> jsstring \<Rightarrow> AdminScholarshipResponse option" where
  "the_record s i = find (\<lambda>r. asr_id r = i) (ca_records s)"

fun confirmed_call :: "confirmation \<Rightarrow> catalogue_call" where
  "confirmed_call (Confirm_Transition r action) = Transition r action"
| "confirmed_call (Confirm_Bulk p) = Apply_Bulk p"

text \<open>
  Buttons are disabled while pending, except for the toggle of the form, the selection, the choice of the
  bulk action, the way to its confirmation and the dialog's cancel.
\<close>

fun catalogue_step ::
  "admin_env \<Rightarrow> (json \<Rightarrow> jsstring) \<Rightarrow> catalogue_event \<Rightarrow> catalogue \<Rightarrow>
     catalogue \<times> catalogue_call admin_effect list" where
  "catalogue_step e f Toggle_Create s = (s\<lparr>ca_createOpen := \<not> ca_createOpen s\<rparr>, [])"
| "catalogue_step e f (Submit_Create form fresh) s =
     (if kd_pending s \<noteq> None \<or> \<not> ca_createOpen s then (s, [])
      else (case submit_form e form of Inl _ \<Rightarrow> (s, []) | Inr body \<Rightarrow> catalogue_mutate f (Create_Draft body) fresh s))"
| "catalogue_step e f (Submit_Edit i form fresh) s =
     (case the_record s i of
        None \<Rightarrow> (s, [])
      | Some r \<Rightarrow>
          if kd_pending s \<noteq> None then (s, [])
          else (case submit_form e form of Inl _ \<Rightarrow> (s, []) | Inr body \<Rightarrow> catalogue_mutate f (Edit_Record r body) fresh s))"
| "catalogue_step e f (Submit_Requirements i ed fresh) s =
     (case the_record s i of
        None \<Rightarrow> (s, [])
      | Some r \<Rightarrow>
          if kd_pending s \<noteq> None then (s, [])
          else (case snd (save_requirements e ed) of
                  None \<Rightarrow> (s, []) | Some items \<Rightarrow> catalogue_mutate f (Set_Requirements r items) fresh s))"
| "catalogue_step e f (Press_Lifecycle i action) s =
     (case the_record s i of
        None \<Rightarrow> (s, [])
      | Some r \<Rightarrow>
          if kd_pending s \<noteq> None \<or> action \<notin> set (asr_allowed_transitions r) then (s, [])
          else (requestLifecycle r action s, []))"
| "catalogue_step e f (Type_Target t) s =
     (if ca_confirmation s = None then (s, []) else (s\<lparr>ca_typed := t\<rparr>, []))"
| "catalogue_step e f Cancel_Confirmation s = (set_confirmation None s, [])"
| "catalogue_step e f (Press_Confirm fresh) s =
     (case ca_confirmation s of
        None \<Rightarrow> (s, [])
      | Some c \<Rightarrow>
          if confirm_enabled (kd_pending s \<noteq> None) (ca_typed s) (targetName c)
          then catalogue_mutate f (confirmed_call c) fresh s else (s, []))"
| "catalogue_step e f (Toggle_Select i) s =
     (if the_record s i = None then (s, []) else (toggle_selected i s, []))"
| "catalogue_step e f (Choose_Bulk action) s = (s\<lparr>ca_bulkAction := action\<rparr>, [])"
| "catalogue_step e f Press_Preview s = (if kd_pending s \<noteq> None then (s, []) else previewBulk s)"
| "catalogue_step e f Continue_Bulk s = (requestBulkApply s, [])"
| "catalogue_step e f (Press_Undo fresh) s =
     (case ca_bulkResult s of
        None \<Rightarrow> (s, [])
      | Some r \<Rightarrow>
          if kd_pending s \<noteq> None \<or> non_empty (bulk_recoverable_until r) = None then (s, [])
          else catalogue_mutate f (Undo_Bulk r) fresh s)"
| "catalogue_step e f (Catalogue_Answered answer) s = (catalogue_settle e answer s, [])"

fun catalogue_fresh :: "catalogue_event \<Rightarrow> jsstring list" where
  "catalogue_fresh (Submit_Create _ k) = [k]"
| "catalogue_fresh (Submit_Edit _ _ k) = [k]"
| "catalogue_fresh (Submit_Requirements _ _ k) = [k]"
| "catalogue_fresh (Press_Confirm k) = [k]"
| "catalogue_fresh (Press_Undo k) = [k]"
| "catalogue_fresh _ = []"

section \<open>Invariant\<close>

definition catalogue_inv :: "catalogue \<Rightarrow> bool" where
  "catalogue_inv s \<longleftrightarrow>
     distinct (map asr_id (ca_records s)) \<and> distinct (ca_selected s) \<and> length (ca_selected s) \<le> 50 \<and>
     set (ca_selected s) \<subseteq> asr_id ` set (ca_records s) \<and>
     (kd_pending s \<noteq> None \<longleftrightarrow> ca_awaiting s \<noteq> None) \<and>
     (case ca_confirmation s of
        Some (Confirm_Transition r action) \<Rightarrow> action \<in> set (asr_allowed_transitions r) | _ \<Rightarrow> True)"

text \<open>The checks that a request has passed before it goes out.\<close>

definition write_ok :: "admin_env \<Rightarrow> AdminScholarshipWrite \<Rightarrow> bool" where
  "write_ok e body \<longleftrightarrow>
     asw_title body \<noteq> [] \<and> asw_provider body \<noteq> [] \<and>
     non_empty (safeExternalSource (ae_url e) (asw_source_url body)) \<noteq> None"

definition call_ok :: "admin_env \<Rightarrow> catalogue_call \<Rightarrow> bool" where
  "call_ok e call =
     (case call of
        Create_Draft body \<Rightarrow> write_ok e body
      | Edit_Record _ body \<Rightarrow> write_ok e body
      | Set_Requirements _ items \<Rightarrow> list_all (evidence_ok e) items
      | Transition r action \<Rightarrow> action \<in> set (asr_allowed_transitions r)
      | Apply_Bulk _ \<Rightarrow> True
      | Undo_Bulk r \<Rightarrow> non_empty (bulk_recoverable_until r) \<noteq> None)"

definition effect_ok :: "admin_env \<Rightarrow> catalogue_call admin_effect \<Rightarrow> bool" where
  "effect_ok e x =
     (case x of
        Keyed call _ _ _ \<Rightarrow> call_ok e call
      | Unkeyed req \<Rightarrow>
          (case ro_body req of
             Some (BodyBulkPreview b) \<Rightarrow>
               distinct (bpr_scholarship_ids b) \<and> bpr_scholarship_ids b \<noteq> [] \<and> length (bpr_scholarship_ids b) \<le> 50
           | _ \<Rightarrow> False))"

lemma submit_form_ok: "submit_form e form = Inr body \<Longrightarrow> write_ok e body"
  by (auto simp: submit_form_def write_ok_def Let_def split: if_splits)

lemma save_requirements_ok: "snd (save_requirements e ed) = Some items \<Longrightarrow> list_all (evidence_ok e) items"
  by (auto simp: save_requirements_def find_None_iff list_all_iff split: if_splits)

lemma mutate_simps:
  assumes "catalogue_mutate f call fresh s = (s', xs)"
  shows "ca_records s' = ca_records s" "ca_selected s' = ca_selected s" "ca_confirmation s' = ca_confirmation s"
    "(s' = s \<and> xs = []) \<or> (kd_pending s' \<noteq> None \<and> ca_awaiting s' \<noteq> None \<and> (\<exists>operation key req. xs = [Keyed call operation key req]))"
    "sends_key (keyed_table s) [fresh] (keyed_table s') (admin_issued xs)"
  using assms
  by (auto simp: catalogue_mutate_def admin_begin_Some sends_key_def keyed_table_def split: option.splits)

lemma mutate_inv:
  assumes "catalogue_inv s" and "call_ok e call"
  shows "catalogue_inv (fst (catalogue_mutate f call fresh s)) \<and>
    list_all (effect_ok e) (snd (catalogue_mutate f call fresh s))"
proof -
  obtain s' xs where m: "catalogue_mutate f call fresh s = (s', xs)" by fastforce
  note mutate_simps [OF m]
  then show ?thesis
    using assms by (auto simp: m catalogue_inv_def effect_ok_def)
qed

lemma set_confirmation_simps [simp]:
  "ca_records (set_confirmation c s) = ca_records s" "ca_selected (set_confirmation c s) = ca_selected s"
  "kd_pending (set_confirmation c s) = kd_pending s" "ca_awaiting (set_confirmation c s) = ca_awaiting s"
  "ca_confirmation (set_confirmation c s) = c" "kd_keys (set_confirmation c s) = kd_keys s"
  by (simp_all add: set_confirmation_def)

lemma upsert_ids: "asr_id ` set (ca_records s) \<subseteq> asr_id ` set (upsert_by asr_id r (ca_records s))"
  using upsert_by_keys [of asr_id r "ca_records s"] by auto

lemma call_finish_frame:
  assumes "call_finish call answer s = Some s'"
  shows "kd_keys s' = kd_keys s" "ca_selected s' \<in> {ca_selected s, []}"
    "ca_confirmation s' \<in> {ca_confirmation s, None}"
    "ca_records s' = ca_records s \<or> (\<exists>r. ca_records s' = upsert_by asr_id r (ca_records s))"
  using assms
  by (cases call; cases answer; auto simp: call_finish_def replace_record_def)+

lemma catalogue_invD:
  assumes "catalogue_inv s"
  shows "distinct (map asr_id (ca_records s))" "distinct (ca_selected s)" "length (ca_selected s) \<le> 50"
    "set (ca_selected s) \<subseteq> asr_id ` set (ca_records s)" "kd_pending s \<noteq> None \<longleftrightarrow> ca_awaiting s \<noteq> None"
    "ca_confirmation s = Some (Confirm_Transition r action) \<Longrightarrow> action \<in> set (asr_allowed_transitions r)"
  using assms by (simp_all add: catalogue_inv_def)

lemma catalogue_invI:
  assumes "catalogue_inv s"
    and "ca_records s' = ca_records s \<or> (\<exists>r. ca_records s' = upsert_by asr_id r (ca_records s))"
    and "ca_selected s' \<in> {ca_selected s, []}" and "ca_confirmation s' \<in> {ca_confirmation s, None}"
    and "kd_pending s' \<noteq> None \<longleftrightarrow> ca_awaiting s' \<noteq> None"
  shows "catalogue_inv s'"
proof -
  note i = catalogue_invD [OF assms(1)]
  have "distinct (map asr_id (ca_records s'))"
    using assms(2) i(1) distinct_upsert_by by metis
  moreover have "asr_id ` set (ca_records s) \<subseteq> asr_id ` set (ca_records s')"
    using assms(2) upsert_ids [of s] by (elim disjE exE) simp_all
  then have "set (ca_selected s') \<subseteq> asr_id ` set (ca_records s')"
    using assms(3) i(4) by (auto dest!: subsetD)
  moreover have "case ca_confirmation s' of
      Some (Confirm_Transition r action) \<Rightarrow> action \<in> set (asr_allowed_transitions r) | _ \<Rightarrow> True"
    using assms(4) i(6) by (auto split: option.splits confirmation.splits)
  ultimately show ?thesis
    using assms(3,5) i(2,3) unfolding catalogue_inv_def by auto
qed

lemma settle_inv:
  assumes "catalogue_inv s"
  shows "catalogue_inv (catalogue_settle e answer s)"
    and "keyed_table (catalogue_settle e answer s) \<subseteq>\<^sub>m keyed_table s"
proof -
  have "catalogue_inv (catalogue_settle e answer s) \<and> keyed_table (catalogue_settle e answer s) \<subseteq>\<^sub>m keyed_table s"
  proof (cases "ca_awaiting s")
    case None
    then show ?thesis using assms by (simp add: catalogue_settle_def)
  next
    case (Some job)
    show ?thesis
    proof (cases job)
      case Awaiting_Preview
      then show ?thesis
        using Some assms
        by (cases answer)
           (auto simp: catalogue_settle_def settle_error_def keyed_table_def intro!: catalogue_invI [OF assms])
    next
      case (Awaiting_Call call operation)
      show ?thesis
      proof (cases "\<exists>c. answer = Catalogue_Failed c")
        case True
        then show ?thesis
          using Some Awaiting_Call
          by (auto simp: catalogue_settle_def settle_error_def keyed_table_def intro!: catalogue_invI [OF assms])
      next
        case False
        then have r: "catalogue_settle e answer s =
            (case call_finish call answer s of None \<Rightarrow> s | Some s' \<Rightarrow> (settle_ok operation s')\<lparr>ca_awaiting := None\<rparr>)"
          using Some Awaiting_Call by (cases answer) (simp_all add: catalogue_settle_def)
        show ?thesis
        proof (cases "call_finish call answer s")
          case None
          then show ?thesis using r assms by simp
        next
          case (Some s')
          note f = call_finish_frame [OF Some]
          have "catalogue_inv ((settle_ok operation s')\<lparr>ca_awaiting := None\<rparr>)"
            by (rule catalogue_invI [OF assms]) (use f(2-4) in \<open>simp_all add: settle_ok_def\<close>)
          moreover have "keyed_table ((settle_ok operation s')\<lparr>ca_awaiting := None\<rparr>) = (keyed_table s)(operation := None)"
            using f(1) by (simp add: keyed_table_def settle_ok_def)
          ultimately show ?thesis using r Some by simp
        qed
      qed
    qed
  qed
  then show "catalogue_inv (catalogue_settle e answer s)"
    "keyed_table (catalogue_settle e answer s) \<subseteq>\<^sub>m keyed_table s" by simp_all
qed

lemma toggle_inv:
  assumes "catalogue_inv s" and "the_record s i \<noteq> None"
  shows "catalogue_inv (toggle_selected i s)"
proof -
  have "i \<in> asr_id ` set (ca_records s)"
    using assms(2) by (auto simp: the_record_def find_Some_iff)
  then show ?thesis
    using assms(1) by (auto simp: catalogue_inv_def toggle_selected_def intro: le_trans [OF length_filter_le])
qed

lemma confirm_inv:
  "catalogue_inv s \<Longrightarrow> (case c of Some (Confirm_Transition r action) \<Rightarrow> action \<in> set (asr_allowed_transitions r) | _ \<Rightarrow> True) \<Longrightarrow>
     catalogue_inv (set_confirmation c s)"
  by (simp add: catalogue_inv_def)

lemma catalogue_step_inv:
  assumes "catalogue_inv s"
  shows "catalogue_inv (fst (catalogue_step e f v s)) \<and> list_all (effect_ok e) (snd (catalogue_step e f v s))"
proof (cases v)
  case (Submit_Create form fresh)
  then show ?thesis
    using assms mutate_inv [OF assms, of e _ f fresh] submit_form_ok
    by (auto simp: call_ok_def split: sum.split)
next
  case (Submit_Edit i form fresh)
  then show ?thesis
    using assms mutate_inv [OF assms, of e _ f fresh] submit_form_ok
    by (auto simp: call_ok_def split: sum.split option.split)
next
  case (Submit_Requirements i ed fresh)
  then show ?thesis
    using assms mutate_inv [OF assms, of e _ f fresh] save_requirements_ok
    by (auto simp: call_ok_def split: option.split)
next
  case (Press_Lifecycle i action)
  then show ?thesis
    using assms by (auto simp: requestLifecycle_def confirm_inv split: option.split)
next
  case (Press_Confirm fresh)
  show ?thesis
  proof (cases "ca_confirmation s")
    case (Some c)
    have "call_ok e (confirmed_call c)"
      using catalogue_invD(6) [OF assms] Some by (cases c) (simp_all add: call_ok_def)
    from mutate_inv [OF assms this, of f fresh] Some Press_Confirm assms show ?thesis by simp
  qed (use Press_Confirm assms in simp)
next
  case (Toggle_Select i)
  then show ?thesis using assms toggle_inv by simp
next
  case Press_Preview
  then show ?thesis
    using assms
    by (auto simp: previewBulk_def catalogue_inv_def effect_ok_def previewAdminBulkAction_def options_of_def)
next
  case Continue_Bulk
  then show ?thesis using assms by (auto simp: requestBulkApply_def confirm_inv split: option.split)
next
  case (Press_Undo fresh)
  then show ?thesis
    using assms mutate_inv [OF assms, of e _ f fresh] by (auto simp: call_ok_def split: option.split)
next
  case (Catalogue_Answered answer)
  then show ?thesis using settle_inv(1) [OF assms] by simp
qed (use assms in \<open>simp_all add: catalogue_inv_def confirm_inv\<close>)

lemma catalogue_step_sends:
  assumes "catalogue_inv s"
  shows "sends_key (keyed_table s) (catalogue_fresh v) (keyed_table (fst (catalogue_step e f v s)))
    (admin_issued (snd (catalogue_step e f v s)))"
proof -
  have m: "sends_key (keyed_table s) [fresh] (keyed_table (fst (catalogue_mutate f call fresh s)))
      (admin_issued (snd (catalogue_mutate f call fresh s)))" for call fresh
    using mutate_simps(5) [of f call fresh s] by (cases "catalogue_mutate f call fresh s") simp
  have quiet: "sends_key (keyed_table s) fresh (keyed_table s) []" for fresh
    by (simp add: sends_key_def)
  show ?thesis
  proof (cases v)
    case (Catalogue_Answered answer)
    then show ?thesis using settle_inv(2) [OF assms] by (simp add: sends_key_def)
  qed (auto simp: m quiet sends_nothing requestLifecycle_def previewBulk_def requestBulkApply_def toggle_selected_def
        split: option.split sum.split)
qed

interpretation catalogue_machine: keyed_machine "catalogue_step e f" keyed_table admin_issued catalogue_fresh catalogue_inv
  for e f
  by unfold_locales (simp_all add: catalogue_step_inv catalogue_step_sends)

lemma catalogue_inv_initial: "distinct (map asr_id (page_data page)) \<Longrightarrow> catalogue_inv (initial_catalogue page)"
  by (simp add: catalogue_inv_def initial_catalogue_def)

section \<open>Properties\<close>

definition sample_write :: "string \<Rightarrow> AdminScholarshipWrite" where
  "sample_write t =
     \<lparr>asw_title = js t, asw_provider = js ''Fund'', asw_description = None, asw_funding_type = FundingOther,
      asw_funding_summary = None, asw_deadline = None, asw_source_url = js ''https://fund.org'', asw_reviewer_notes = None\<rparr>"

definition sample_record :: "string \<Rightarrow> LifecycleAction list \<Rightarrow> AdminScholarshipResponse" where
  "sample_record i actions =
     AdminScholarshipWrite.extend (sample_write ''Award'')
       \<lparr>asr_id = js i, asr_status = AdminDraft, asr_allowed_transitions = actions, asr_requirements = [],
        asr_source_history = [], asr_created_at = [], asr_updated_at = [], asr_published_at = None, asr_verified_at = None\<rparr>"

definition sample_catalogue_events :: "catalogue_event list" where
  "sample_catalogue_events =
     [Toggle_Select (js ''r1''), Press_Preview, Catalogue_Answered (Catalogue_Failed Syntax_Error),
      Press_Lifecycle (js ''r1'') ActPublish, Type_Target (js ''Award''), Press_Confirm (js ''k1''),
      Catalogue_Answered (Catalogue_Failed Syntax_Error), Press_Confirm (js ''k2'')]"

text \<open>
  C7: In any run of the catalogue every request has passed its checks: a bulk preview names one to fifty
  distinct records, drafts and edits have a title, a provider and a safe source, requirements have
  evidence, a transition is one that the record allows, and only a recoverable bulk action is undone.
  The selection stays distinct, bounded and within the records.
\<close>

theorem catalogue_requests_checked:
  assumes "distinct (map asr_id (page_data page))"
    and "run_steps (catalogue_step e f) vs (initial_catalogue page) = (s, effects)"
  shows "list_all (effect_ok e) effects \<and> distinct (ca_selected s) \<and> length (ca_selected s) \<le> 50 \<and>
    set (ca_selected s) \<subseteq> asr_id ` set (ca_records s)"
  using run_steps_invariant [of catalogue_inv "catalogue_step e f", OF catalogue_step_inv catalogue_inv_initial [OF assms(1)], of vs]
    assms(2)
  by (simp add: catalogue_inv_def)

theorem catalogue_requests_checked_witness:
  "length (snd (run_steps (catalogue_step sample_admin_env (\<lambda>_. [])) sample_catalogue_events
      (initial_catalogue (sample_page [sample_record ''r1'' [ActPublish]])))) = 3 \<and>
   list_all (effect_ok sample_admin_env) (snd (run_steps (catalogue_step sample_admin_env (\<lambda>_. []))
      sample_catalogue_events (initial_catalogue (sample_page [sample_record ''r1'' [ActPublish]]))))"
proof
  let ?p = "sample_page [sample_record ''r1'' [ActPublish]]"
  show "length (snd (run_steps (catalogue_step sample_admin_env (\<lambda>_. [])) sample_catalogue_events
      (initial_catalogue ?p))) = 3"
    by code_simp
  obtain s xs where r: "run_steps (catalogue_step sample_admin_env (\<lambda>_. [])) sample_catalogue_events
      (initial_catalogue ?p) = (s, xs)"
    by fastforce
  have "distinct (map asr_id (page_data ?p))" by (simp add: sample_page_def)
  from catalogue_requests_checked [OF this r] r
  show "list_all (effect_ok sample_admin_env) (snd (run_steps (catalogue_step sample_admin_env (\<lambda>_. []))
      sample_catalogue_events (initial_catalogue ?p)))"
    by simp
qed

text \<open>
  C22: A lifecycle transition goes out only when its dialog is confirmed, with the record's exact title
  typed and nothing pending.
\<close>

theorem transition_confirmed_exactly:
  assumes "Keyed (Transition r action) operation key req \<in> set (snd (catalogue_step e f v s))"
  shows "(\<exists>fresh. v = Press_Confirm fresh) \<and> ca_confirmation s = Some (Confirm_Transition r action) \<and>
    ca_typed s = asw_title r \<and> kd_pending s = None \<and>
    operation = js ''lifecycle-'' @ asr_id r @ js ''-'' @ lifecycle_action_name action \<and>
    req = transitionAdminScholarship (asr_id r) action None key"
proof -
  have m: "x = Keyed call (catalogue_operation f call) k (catalogue_request call k)"
    if "x \<in> set (snd (catalogue_mutate f call fresh s))" "x = Keyed c o' k q" for x call fresh c o' k q
    using that by (auto simp: catalogue_mutate_def admin_begin_Some split: option.splits)
  obtain fresh c where v: "v = Press_Confirm fresh" "ca_confirmation s = Some c"
      "confirm_enabled (kd_pending s \<noteq> None) (ca_typed s) (targetName c)"
      "Keyed (Transition r action) operation key req \<in> set (snd (catalogue_mutate f (confirmed_call c) fresh s))"
    using assms
    by (cases v) (auto simp: previewBulk_def dest: m split: option.splits sum.splits if_splits)
  from m [OF v(4) refl] have "c = Confirm_Transition r action"
    by (cases c) simp_all
  with v m [OF v(4) refl] show ?thesis
    by (auto simp: confirm_enabled_def)
qed

theorem transition_confirmed_exactly_witness:
  "\<exists>r operation req. Keyed (Transition r ActPublish) operation (js ''k1'') req
      \<in> set (snd (catalogue_step sample_admin_env (\<lambda>_. []) (Press_Confirm (js ''k1''))
          (fst (run_steps (catalogue_step sample_admin_env (\<lambda>_. [])) (take 5 sample_catalogue_events)
            (initial_catalogue (sample_page [sample_record ''r1'' [ActPublish]])))))) \<and>
     operation = js ''lifecycle-r1-publish''"
proof -
  let ?s = "fst (run_steps (catalogue_step sample_admin_env (\<lambda>_. [])) (take 5 sample_catalogue_events)
      (initial_catalogue (sample_page [sample_record ''r1'' [ActPublish]])))"
  let ?xs = "snd (catalogue_step sample_admin_env (\<lambda>_. []) (Press_Confirm (js ''k1'')) ?s)"
  have "\<exists>operation req. ?xs = [Keyed (Transition (sample_record ''r1'' [ActPublish]) ActPublish) operation (js ''k1'') req]"
    by (simp add: sample_catalogue_events_def initial_catalogue_def sample_page_def the_record_def toggle_selected_def
        previewBulk_def catalogue_settle_def settle_error_def requestLifecycle_def set_confirmation_def confirm_enabled_def
        catalogue_mutate_def admin_begin_def begin_keyed_def is_busy_def non_empty_def or_else_def Let_def
        sample_record_def sample_write_def AdminScholarshipWrite.extend_def)
  then obtain operation req where x:
    "Keyed (Transition (sample_record ''r1'' [ActPublish]) ActPublish) operation (js ''k1'') req \<in> set ?xs"
    by auto
  have "operation = js ''lifecycle-'' @ asr_id (sample_record ''r1'' [ActPublish]) @ js ''-'' @ lifecycle_action_name ActPublish"
    using transition_confirmed_exactly [OF x] by blast
  then have "operation = js ''lifecycle-r1-publish''"
    by (simp add: sample_record_def AdminScholarshipWrite.extend_def js_Cons)
  with x show ?thesis by blast
qed

text \<open>
  The name of a draft covers its title and provider only: a draft that failed and is sent again with
  other content goes out with the key of the first attempt.
\<close>

theorem draft_key_ignores_content:
  assumes "submit_form e form1 = Inr body1" and "submit_form e form2 = Inr body2"
    and "asw_title body1 = asw_title body2" and "asw_provider body1 = asw_provider body2"
  shows "snd (run_steps (catalogue_step e f)
      [Toggle_Create, Submit_Create form1 k1, Catalogue_Answered (Catalogue_Failed failure), Submit_Create form2 k2]
      (initial_catalogue page)) =
    [Keyed (Create_Draft body1) (js ''create-'' @ asw_title body1 @ js ''-'' @ asw_provider body1) k1
       (Some (createAdminScholarship body1 k1)),
     Keyed (Create_Draft body2) (js ''create-'' @ asw_title body1 @ js ''-'' @ asw_provider body1) k1
       (Some (createAdminScholarship body2 k1))]"
  using assms
  by (simp add: initial_catalogue_def catalogue_mutate_def admin_begin_def begin_keyed_def is_busy_def non_empty_def
      or_else_def catalogue_settle_def settle_error_def Let_def)

definition sample_form :: "string \<Rightarrow> scholarship_form" where
  "sample_form d =
     \<lparr>sf_title = Some (js ''Award''), sf_provider = Some (js ''Fund''), sf_funding_type = FundingOther, sf_deadline = None,
      sf_source_url = Some (js ''https://fund.org''), sf_description = Some (js d), sf_funding_summary = None,
      sf_reviewer_notes = None\<rparr>"

theorem draft_key_ignores_content_witness:
  "\<exists>body1 body2. map (\<lambda>x. case x of Keyed (Create_Draft body) _ key _ \<Rightarrow> (body, key))
      (snd (run_steps (catalogue_step sample_admin_env (\<lambda>_. []))
        [Toggle_Create, Submit_Create (sample_form ''old'') (js ''k1''),
         Catalogue_Answered (Catalogue_Failed Syntax_Error), Submit_Create (sample_form ''new'') (js ''k2'')]
        (initial_catalogue (sample_page [])))) = [(body1, js ''k1''), (body2, js ''k1'')] \<and>
    asw_description body1 \<noteq> asw_description body2"
proof -
  let ?body = "\<lambda>d. (sample_write ''Award'')\<lparr>asw_description := Some (js d)\<rparr>"
  have f: "submit_form sample_admin_env (sample_form ''old'') = Inr (?body ''old'')"
    "submit_form sample_admin_env (sample_form ''new'') = Inr (?body ''new'')"
    by code_simp+
  show ?thesis
    using draft_key_ignores_content [OF f, of "\<lambda>_. []" "js ''k1''" Syntax_Error "js ''k2''" "sample_page []"]
    by (simp add: sample_write_def)
qed

end
