(* ===== verification/Paged_Lists.thy ===== *)
theory Paged_Lists
  imports Keyed_Requests
begin

text \<open>
  Lists read page by page, as the scholarship results and the ranked matches do: the items so
  far, the pagination of the last page, and the promise of the next page while it is in flight.
  The interface \<open>paged_list\<close> carries what follows for any component that appends each page
  and follows its cursor.
\<close>

section \<open>The shared state\<close>

record 'a listing =
  li_items :: "'a list"
  li_pagination :: Pagination
  li_loading :: bool
  li_error :: jsstring
  li_asked :: "jsstring option"

text \<open>The cursor a component would ask with; the empty string counts as none.\<close>

definition next_cursor :: "('a, 'b) listing_scheme \<Rightarrow> jsstring option" where
  "next_cursor s = non_empty (pg_next_cursor (li_pagination s))"

text \<open>The button for the next page is shown.\<close>

definition shows_more :: "('a, 'b) listing_scheme \<Rightarrow> bool" where
  "shows_more s \<longleftrightarrow> li_items s \<noteq> [] \<and> pg_has_more (li_pagination s) \<and> next_cursor s \<noteq> None"

definition ask_page :: "jsstring \<Rightarrow> ('a, 'b) listing_scheme \<Rightarrow> ('a, 'b) listing_scheme" where
  "ask_page cursor s = s\<lparr>li_loading := True, li_error := [], li_asked := Some cursor\<rparr>"

definition page_arrives :: "'a page \<Rightarrow> ('a, 'b) listing_scheme \<Rightarrow> ('a, 'b) listing_scheme" where
  "page_arrives page s =
     s\<lparr>li_items := li_items s @ page_data page, li_pagination := page_pagination page,
       li_loading := False, li_asked := None\<rparr>"

definition page_fails :: "jsstring \<Rightarrow> ('a, 'b) listing_scheme \<Rightarrow> ('a, 'b) listing_scheme" where
  "page_fails message s = s\<lparr>li_error := message, li_loading := False, li_asked := None\<rparr>"

lemmas listing_defs = next_cursor_def shows_more_def ask_page_def page_arrives_def page_fails_def

section \<open>What a server holds\<close>

text \<open>
  A server answers a cursor with a page.  What it holds from a cursor on is the pages reached by
  following the cursors, in at most \<open>n\<close> pages; a chain of cursors that does not end in \<open>n\<close>
  pages has no listing.
\<close>

fun held :: "(jsstring \<Rightarrow> 'a page) \<Rightarrow> nat \<Rightarrow> jsstring option \<Rightarrow> 'a list option" where
  "held serve n None = Some []"
| "held serve 0 (Some c) = None"
| "held serve (Suc n) (Some c) =
     map_option (\<lambda>rest. page_data (serve c) @ rest)
       (held serve n (non_empty (pg_next_cursor (page_pagination (serve c)))))"

lemma held_more: "held serve n c = Some xs \<Longrightarrow> held serve (n + k) c = Some xs"
  by (induction serve n c arbitrary: xs rule: held.induct) auto

lemma held_same: "held serve n c = Some xs \<Longrightarrow> held serve m c = Some ys \<Longrightarrow> xs = ys"
  using held_more [of serve n c xs m] held_more [of serve m c ys n] by (simp add: add.commute)

section \<open>Interface\<close>

text \<open>
  What a component promises: a page that arrives is appended and its cursor is the next one; a
  failure leaves both.  \<open>ask\<close>, when \<open>ready\<close>, sends the cursor.
\<close>

datatype 'a reading = Ask | Arrive "'a page" | Fail

locale paged_list =
  fixes shown :: "'s \<Rightarrow> 'a list"
    and cursor :: "'s \<Rightarrow> jsstring option"
    and asked :: "'s \<Rightarrow> jsstring option"
    and ready :: "'s \<Rightarrow> bool"
    and ask :: "'s \<Rightarrow> 's"
    and arrive :: "'a page \<Rightarrow> 's \<Rightarrow> 's"
    and fail :: "'s \<Rightarrow> 's"
  assumes arrive_shown: "shown (arrive p s) = shown s @ page_data p"
    and arrive_cursor: "cursor (arrive p s) = non_empty (pg_next_cursor (page_pagination p))"
    and arrive_asked: "asked (arrive p s) = None"
    and fail_frame: "shown (fail s) = shown s" "cursor (fail s) = cursor s" "asked (fail s) = None"
    and ask_frame: "shown (ask s) = shown s" "cursor (ask s) = cursor s"
    and ask_cursor: "ready s \<Longrightarrow> cursor s = Some c \<Longrightarrow> asked (ask s) = Some c"
    and arrive_ready: "ready (arrive p s)"
begin

text \<open>
  One step of reading: the next page is asked for when the component is ready for it, and an answer
  comes only to a question.
\<close>

fun read_step :: "'a reading \<Rightarrow> 's \<Rightarrow> 's" where
  "read_step Ask s = (if ready s \<and> cursor s \<noteq> None then ask s else s)"
| "read_step (Arrive p) s = (if asked s \<noteq> None then arrive p s else s)"
| "read_step Fail s = (if asked s \<noteq> None then fail s else s)"

text \<open>An answer is that of the server to the cursor asked with.\<close>

fun honest :: "(jsstring \<Rightarrow> 'a page) \<Rightarrow> 'a reading \<Rightarrow> 's \<Rightarrow> bool" where
  "honest serve (Arrive p) s = (\<forall>c. asked s = Some c \<longrightarrow> p = serve c)"
| "honest serve _ s = True"

fun read_run :: "(jsstring \<Rightarrow> 'a page) \<Rightarrow> 'a reading list \<Rightarrow> 's \<Rightarrow> 's option" where
  "read_run serve [] s = Some s"
| "read_run serve (e # es) s = (if honest serve e s then read_run serve es (read_step e s) else None)"

text \<open>What is shown and what the server still holds add up to the same list.\<close>

definition reads_list :: "(jsstring \<Rightarrow> 'a page) \<Rightarrow> 'a list \<Rightarrow> 's \<Rightarrow> bool" where
  "reads_list serve all s \<longleftrightarrow>
     (asked s \<noteq> None \<longrightarrow> asked s = cursor s) \<and>
     (\<exists>n rest. held serve n (cursor s) = Some rest \<and> all = shown s @ rest)"

lemma reads_list_step:
  assumes reads: "reads_list serve all s" and honest: "honest serve e s"
  shows "reads_list serve all (read_step e s)"
proof -
  obtain n rest where held: "held serve n (cursor s) = Some rest" "all = shown s @ rest"
    and asked: "asked s \<noteq> None \<Longrightarrow> asked s = cursor s"
    using reads by (auto simp: reads_list_def)
  show ?thesis
  proof (cases e)
    case Ask
    show ?thesis
    proof (cases "ready s \<and> cursor s \<noteq> None")
      case True
      then obtain c where "ready s" "cursor s = Some c" by auto
      with ask_cursor [OF this] held Ask True show ?thesis
        by (auto simp: reads_list_def ask_frame)
    next
      case False
      with Ask reads show ?thesis by auto
    qed
  next
    case (Arrive p)
    show ?thesis
    proof (cases "asked s")
      case (Some c)
      with asked honest Arrive have c: "cursor s = Some c" "p = serve c" by auto
      with held obtain m rest' where
        "held serve m (non_empty (pg_next_cursor (page_pagination p))) = Some rest'" "rest = page_data p @ rest'"
        by (cases n) auto
      with held Arrive Some show ?thesis
        by (auto simp: reads_list_def arrive_shown arrive_cursor arrive_asked)
    qed (use Arrive reads in simp)
  next
    case Fail
    with reads show ?thesis by (auto simp: reads_list_def fail_frame)
  qed
qed

theorem reads_list_run: "reads_list serve all s \<Longrightarrow> read_run serve es s = Some s' \<Longrightarrow> reads_list serve all s'"
proof (induction es arbitrary: s)
  case (Cons e es)
  then show ?case
    using reads_list_step [of serve all s e] by (simp split: if_splits)
qed simp

text \<open>What is shown is always a prefix of the list.\<close>

lemma shown_prefix: "reads_list serve all s \<Longrightarrow> prefix (shown s) all"
  by (auto simp: reads_list_def)

text \<open>And asking on reads it to its end, whatever has failed before.\<close>

lemma reads_to_end:
  "held serve n (cursor s) = Some rest \<Longrightarrow> ready s \<Longrightarrow>
     \<exists>es s'. read_run serve es s = Some s' \<and> cursor s' = None \<and> shown s' = shown s @ rest \<and> length es \<le> 2 * n"
proof (induction n arbitrary: s rest)
  case 0
  then have "cursor s = None" by (cases "cursor s") auto
  with 0 have "read_run serve [] s = Some s \<and> cursor s = None \<and> shown s = shown s @ rest" by simp
  then show ?case by (metis list.size(3) zero_le)
next
  case (Suc n)
  show ?case
  proof (cases "cursor s")
    case None
    with Suc.prems have "read_run serve [] s = Some s \<and> cursor s = None \<and> shown s = shown s @ rest" by simp
    then show ?thesis by (metis list.size(3) zero_le)
  next
    case (Some c)
    let ?t = "arrive (serve c) (ask s)"
    obtain rest' where rest': "held serve n (cursor ?t) = Some rest'" "rest = page_data (serve c) @ rest'"
      using Suc.prems(1) Some by (auto simp: arrive_cursor)
    from Suc.IH [OF this(1) arrive_ready] obtain es s' where
      run: "read_run serve es ?t = Some s'" "cursor s' = None" "shown s' = shown ?t @ rest'" "length es \<le> 2 * n"
      by blast
    have "read_run serve (Ask # Arrive (serve c) # es) s = Some s'"
      using run(1) Suc.prems(2) Some ask_cursor [OF Suc.prems(2) Some] by simp
    moreover have "shown s' = shown s @ rest"
      using run(3) rest'(2) by (simp add: arrive_shown ask_frame)
    ultimately show ?thesis
      using run(2,4) by (intro exI [of _ "Ask # Arrive (serve c) # es"] exI [of _ s']) simp
  qed
qed

end

end
