(* ===== verification/Scholarships.thy ===== *)
theory Scholarships
  imports Paged_Lists Js_Date
begin

text \<open>
  The scholarship catalogue of a student: the filters in the URL (\<^verbatim>\<open>app/lib/scholarships/filters.ts\<close>), the
  texts of a scholarship (\<^verbatim>\<open>format.ts\<close>), the results read page by page, the card with its saved mark and
  the actions on the detail page (\<^verbatim>\<open>app/components/scholarships\<close>).
\<close>

section \<open>Filters\<close>

definition SCHOLARSHIP_SORTS :: "jsstring list" where
  "SCHOLARSHIP_SORTS = [js ''relevance'', js ''deadline'', js ''recently_verified'', js ''funding_amount'']"

definition STUDY_LEVELS :: "jsstring list" where
  "STUDY_LEVELS = [js ''undergraduate'', js ''postgraduate'', js ''doctoral'', js ''other'']"

definition FUNDING_TYPES :: "jsstring list" where
  "FUNDING_TYPES = [js ''full'', js ''partial'', js ''tuition'', js ''stipend'', js ''research'', js ''other'']"

definition TEXT_KEYS :: "jsstring list" where
  "TEXT_KEYS =
     [js ''q'', js ''field'', js ''destination'', js ''nationality'', js ''residency'',
      js ''deadline_from'', js ''deadline_to'']"

text \<open>
  Query parameters as the router hands them over: a text, or the texts of a repeated name.  The
  filters are the object handed to \<open>listScholarships\<close>, key by key.
\<close>

datatype SearchParamValue = One jsstring | Many "jsstring list"

type_synonym search_params = "(jsstring, SearchParamValue) dict"
type_synonym ScholarshipFilters = query

definition first :: "SearchParamValue option \<Rightarrow> jsstring option" where
  "first v = (case v of Some (One s) \<Rightarrow> Some s | Some (Many (s # _)) \<Rightarrow> Some s | _ \<Rightarrow> None)"

definition isOneOf :: "jsstring option \<Rightarrow> jsstring list \<Rightarrow> bool" where
  "isOneOf v options = (case v of None \<Rightarrow> False | Some s \<Rightarrow> s \<in> set options)"

definition set_text :: "search_params \<Rightarrow> jsstring \<Rightarrow> ScholarshipFilters \<Rightarrow> ScholarshipFilters" where
  "set_text params key filters =
     (case non_empty (map_option trim (first (map_of params key))) of
        Some v \<Rightarrow> dict_set key (QText v) filters
      | None \<Rightarrow> filters)"

definition set_choice ::
  "search_params \<Rightarrow> jsstring \<Rightarrow> jsstring list \<Rightarrow> ScholarshipFilters \<Rightarrow> ScholarshipFilters" where
  "set_choice params key options filters =
     (let v = first (map_of params key)
      in if isOneOf v options then dict_set key (QText (the v)) filters else filters)"

definition parseScholarshipFilters :: "search_params \<Rightarrow> ScholarshipFilters" where
  "parseScholarshipFilters params =
     (let texts = fold (set_text params) TEXT_KEYS [(js ''limit'', QNumber 12)];
          chosen = set_choice params (js ''funding_type'') FUNDING_TYPES
                     (set_choice params (js ''study_level'') STUDY_LEVELS texts);
          sort = first (map_of params (js ''sort''));
          sorted = dict_set (js ''sort'')
                     (QText (if isOneOf sort SCHOLARSHIP_SORTS then the sort else js ''relevance'')) chosen
      in if first (map_of params (js ''verified'')) = Some (js ''true'')
         then dict_set (js ''verified'') (QBool True) sorted else sorted)"

definition serialize_params :: "ScholarshipFilters \<Rightarrow> params" where
  "serialize_params filters =
     fold (\<lambda>(key, v) ps.
             if key \<noteq> js ''limit'' \<and> v \<noteq> QUndefined \<and> v \<noteq> QText []
             then params_set key (query_text v) ps else ps) filters []"

definition serializeScholarshipFilters :: "ScholarshipFilters \<Rightarrow> jsstring" where
  "serializeScholarshipFilters filters = params_string (serialize_params filters)"

text \<open>\<open>Object.fromEntries\<close> of parameters: the last value of a name counts.\<close>

definition from_entries :: "params \<Rightarrow> search_params" where
  "from_entries ps = fold (\<lambda>(k, v). dict_set k (One v)) ps []"

lemmas [js_defs] = SCHOLARSHIP_SORTS_def STUDY_LEVELS_def FUNDING_TYPES_def TEXT_KEYS_def first_def isOneOf_def
  set_text_def set_choice_def parseScholarshipFilters_def serialize_params_def
  serializeScholarshipFilters_def from_entries_def

section \<open>Texts\<close>

text \<open>What the engine is asked for: \<open>Intl\<close> and dates in forms of the engine's own.\<close>

record texts =
  tx_engine :: "jsstring \<Rightarrow> int option"
  tx_date :: "int \<Rightarrow> jsstring"
  tx_currency :: "jsstring \<Rightarrow> number \<Rightarrow> jsstring option"
  tx_number :: "number \<Rightarrow> jsstring"
  tx_moment :: "int \<Rightarrow> jsstring"

definition formatDate :: "texts \<Rightarrow> jsstring option \<Rightarrow> jsstring" where
  "formatDate tx v =
     (case non_empty v of
        None \<Rightarrow> js ''No deadline published''
      | Some s \<Rightarrow>
          (case date_parse (tx_engine tx) (if 0x54 \<in> set s then s else s @ js ''T00:00:00Z'') of
             None \<Rightarrow> js ''Date unavailable''
           | Some t \<Rightarrow> tx_date tx t))"

datatype deadline_state = Open_Deadline | Expired_Deadline | Unknown_Deadline

definition deadlineState ::
  "(jsstring \<Rightarrow> int option) \<Rightarrow> jsstring option \<Rightarrow> ScholarshipStatus \<Rightarrow> int \<Rightarrow> deadline_state" where
  "deadlineState engine deadline status now =
     (if status = Closed then Expired_Deadline
      else (case non_empty deadline of
        None \<Rightarrow> Unknown_Deadline
      | Some d \<Rightarrow>
          (case date_parse engine (d @ js ''T23:59:59.999Z'') of
             None \<Rightarrow> Unknown_Deadline
           | Some endOfDeadline \<Rightarrow> if endOfDeadline < now then Expired_Deadline else Open_Deadline)))"

text \<open>Spaces for underscores, and a capital at the start of each word of letters, digits.\<close>

definition is_word :: "code_unit \<Rightarrow> bool" where
  "is_word u \<longleftrightarrow> is_alnum (unat u) \<or> u = 0x5F"

fun capitals :: "bool \<Rightarrow> jsstring \<Rightarrow> jsstring" where
  "capitals inside [] = []"
| "capitals inside (u # s) = (if is_word u \<and> \<not> inside then upper_unit u else [u]) @ capitals (is_word u) s"

definition titleCase :: "jsstring \<Rightarrow> jsstring" where
  "titleCase s = capitals False (map (\<lambda>u. if u = 0x5F then 0x20 else u) s)"

definition formatFunding :: "texts \<Rightarrow> ScholarshipResponse \<Rightarrow> jsstring" where
  "formatFunding tx s =
     (case non_empty (sch_funding_summary s) of
        Some t \<Rightarrow> t
      | None \<Rightarrow>
          (case (sch_amount s, non_empty (sch_currency s)) of
             (Some amount, Some currency) \<Rightarrow>
               (case tx_currency tx (to_upper currency) amount of
                  Some t \<Rightarrow> t
                | None \<Rightarrow> tx_number tx amount @ js '' '' @ to_upper currency)
           | _ \<Rightarrow> titleCase (funding_type_name (sch_funding_type s)) @ js '' funding''))"

text \<open>A fresh key: the prefix and a random UUID.\<close>

definition idempotencyKey :: "jsstring \<Rightarrow> jsstring \<Rightarrow> jsstring" where
  "idempotencyKey before uuid = before @ js ''-'' @ uuid"

datatype signal_icon = Shield_Check | Alert_Triangle | Circle_X | Circle_Help

fun signal_content :: "EligibilityStatus \<Rightarrow> jsstring \<times> signal_icon" where
  "signal_content Eligible = (js ''Eligible'', Shield_Check)"
| "signal_content PotentiallyEligible = (js ''Potentially eligible'', Alert_Triangle)"
| "signal_content Ineligible = (js ''Ineligible'', Circle_X)"
| "signal_content EligibilityUnknown = (js ''Unknown '' @ [0x2014] @ js '' profile data missing'', Circle_Help)"

lemmas [js_defs] = formatDate_def deadlineState_def is_word_def titleCase_def formatFunding_def idempotencyKey_def

section \<open>The filters survive the URL\<close>

lemma all_dict_set: "P (k, v) \<Longrightarrow> \<forall>x \<in> set d. P x \<Longrightarrow> \<forall>x \<in> set (dict_set k v d). P x"
  by (induction k v d rule: dict_set.induct) auto

lemma all_params_set: "P (k, v) \<Longrightarrow> \<forall>x \<in> set ps. P x \<Longrightarrow> \<forall>x \<in> set (params_set k v ps). P x"
  by (induction k v ps rule: params_set.induct) auto

lemma keys_params_set: "set (map fst (params_set k v ps)) = insert k (set (map fst ps))"
  by (induction k v ps rule: params_set.induct) auto

lemma distinct_params_set: "distinct (map fst ps) \<Longrightarrow> distinct (map fst (params_set k v ps))"
proof (induction k v ps rule: params_set.induct)
  case (2 k v k' v' ps)
  then show ?case
    using keys_params_set [of k v ps] distinct_map_filter [of fst ps] by auto
qed simp

text \<open>A value that is written out.\<close>

definition written :: "jsstring \<times> query_value \<Rightarrow> bool" where
  "written e \<longleftrightarrow> fst e \<noteq> js ''limit'' \<and> snd e \<noteq> QUndefined \<and> snd e \<noteq> QText []"

definition write_entry :: "jsstring \<times> query_value \<Rightarrow> params \<Rightarrow> params" where
  "write_entry e ps = (if written e then params_set (fst e) (query_text (snd e)) ps else ps)"

lemma get_write_entry:
  "params_get (write_entry e ps) k =
     (if written e \<and> k = fst e then Some (query_text (snd e)) else params_get ps k)"
  by (simp add: write_entry_def params_get_set)

lemma serialize_fold: "serialize_params filters = fold write_entry filters []"
proof -
  have "(\<lambda>(key, v) ps. if key \<noteq> js ''limit'' \<and> v \<noteq> QUndefined \<and> v \<noteq> QText []
      then params_set key (query_text v) ps else ps) = write_entry"
    by (simp add: fun_eq_iff written_def write_entry_def)
  then show ?thesis by (simp add: serialize_params_def)
qed

lemma serialize_get:
  "distinct (map fst filters) \<Longrightarrow>
   params_get (fold write_entry filters ps) k =
     (case map_of filters k of
        Some v \<Rightarrow> if written (k, v) then Some (query_text v) else params_get ps k
      | None \<Rightarrow> params_get ps k)"
proof (induction filters arbitrary: ps)
  case (Cons e filters)
  obtain key v where e: "e = (key, v)" by (cases e)
  have none: "k = key \<Longrightarrow> map_of filters k = None"
    using Cons.prems e by (simp add: map_of_eq_None_iff)
  show ?case
  proof (cases "k = key")
    case True
    with Cons e none show ?thesis by (simp add: get_write_entry)
  next
    case False
    with Cons e show ?thesis by (simp add: get_write_entry split: option.split)
  qed
qed simp

lemma serialize_distinct:
  "distinct (map fst ps) \<Longrightarrow> distinct (map fst (fold write_entry filters ps))"
  by (induction filters arbitrary: ps) (auto simp: distinct_params_set write_entry_def)

lemma serialize_all:
  "\<forall>e \<in> set filters. written e \<longrightarrow> P (fst e, query_text (snd e)) \<Longrightarrow> \<forall>x \<in> set ps. P x \<Longrightarrow>
   \<forall>x \<in> set (fold write_entry filters ps). P x"
proof (induction filters arbitrary: ps)
  case (Cons e filters)
  have "\<forall>x \<in> set (write_entry e ps). P x"
  proof (cases "written e")
    case True
    then have "P (fst e, query_text (snd e))"
      using Cons.prems(1) by (simp only: list.set_intros)
    from all_params_set [OF this Cons.prems(2)] True show ?thesis
      by (simp only: write_entry_def if_True)
  next
    case False
    with Cons.prems(2) show ?thesis by (simp only: write_entry_def if_False)
  qed
  with Cons.IH [OF _ this] Cons.prems(1) show ?case
    by (metis fold_simps(2) list.set_intros(2))
qed simp

lemma from_entries_get:
  "distinct (map fst ps) \<Longrightarrow>
   map_of (fold (\<lambda>(k, v). dict_set k (One v)) ps d) k =
     (case map_of ps k of Some v \<Rightarrow> Some (One v) | None \<Rightarrow> map_of d k)"
proof (induction ps arbitrary: d)
  case (Cons e ps)
  obtain key v where e: "e = (key, v)" by (cases e)
  have "k = key \<Longrightarrow> map_of ps k = None"
    using Cons.prems e by (simp add: map_of_eq_None_iff)
  with Cons e show ?case
    by (auto split: option.split)
qed simp

text \<open>What the parser reads of the parameters, and that it reads nothing else.\<close>

definition text_value :: "search_params \<Rightarrow> jsstring \<Rightarrow> jsstring option" where
  "text_value params key = non_empty (map_option trim (first (map_of params key)))"

definition choice_value :: "search_params \<Rightarrow> jsstring \<Rightarrow> jsstring list \<Rightarrow> jsstring option" where
  "choice_value params key options =
     (let v = first (map_of params key) in if isOneOf v options then v else None)"

definition set_value :: "jsstring \<Rightarrow> query_value option \<Rightarrow> ScholarshipFilters \<Rightarrow> ScholarshipFilters" where
  "set_value key v filters = (case v of Some x \<Rightarrow> dict_set key x filters | None \<Rightarrow> filters)"

definition read_values :: "search_params \<Rightarrow> (jsstring \<times> query_value option) list" where
  "read_values params =
     map (\<lambda>k. (k, map_option QText (text_value params k))) TEXT_KEYS @
     [(js ''study_level'', map_option QText (choice_value params (js ''study_level'') STUDY_LEVELS)),
      (js ''funding_type'', map_option QText (choice_value params (js ''funding_type'') FUNDING_TYPES)),
      (js ''sort'', Some (QText (or_else (choice_value params (js ''sort'') SCHOLARSHIP_SORTS) (js ''relevance'')))),
      (js ''verified'',
       if first (map_of params (js ''verified'')) = Some (js ''true'') then Some (QBool True) else None)]"

lemma parse_values:
  "parseScholarshipFilters params =
     fold (\<lambda>(k, v). set_value k v) (read_values params) [(js ''limit'', QNumber 12)]"
proof -
  have texts: "set_text params k = set_value k (map_option QText (text_value params k))" for k
    by (rule ext) (simp add: set_text_def set_value_def text_value_def split: option.split)
  have choice: "set_choice params k options = set_value k (map_option QText (choice_value params k options))" for k options
    by (rule ext) (auto simp: set_choice_def set_value_def choice_value_def Let_def isOneOf_def split: option.split)
  have sort: "(if isOneOf v options then the v else d) = or_else (if isOneOf v options then v else None) d" for v options d
    by (auto simp: isOneOf_def or_else_def split: option.split)
  show ?thesis
    by (simp add: parseScholarshipFilters_def read_values_def TEXT_KEYS_def texts choice sort Let_def)
       (simp add: set_value_def choice_value_def Let_def)
qed

lemma map_of_set_values:
  "distinct (map fst vs) \<Longrightarrow> map_of (fold (\<lambda>(k, v). set_value k v) vs d) k =
     (case map_of vs k of Some (Some v) \<Rightarrow> Some v | _ \<Rightarrow> map_of d k)"
proof (induction vs arbitrary: d)
  case (Cons e vs)
  obtain key v where e: "e = (key, v)" by (cases e)
  have "k = key \<Longrightarrow> map_of vs k = None"
    using Cons.prems e by (simp add: map_of_eq_None_iff)
  with Cons e show ?case
    by (auto simp: set_value_def split: option.splits)
qed simp

lemma distinct_set_value: "distinct (map fst d) \<Longrightarrow> distinct (map fst (set_value k v d))"
  using distinct_dict_set [of d k] by (simp add: set_value_def keys_of_def split: option.split)

lemma distinct_set_values:
  "distinct (map fst d) \<Longrightarrow> distinct (map fst (fold (\<lambda>(k, v). set_value k v) vs d))"
  by (induction vs arbitrary: d) (auto simp: distinct_set_value)

lemma all_set_values:
  "\<forall>(k, v) \<in> set vs. \<forall>x. v = Some x \<longrightarrow> P (k, x) \<Longrightarrow> \<forall>e \<in> set d. P e \<Longrightarrow>
   \<forall>e \<in> set (fold (\<lambda>(k, v). set_value k v) vs d). P e"
proof (induction vs arbitrary: d)
  case (Cons e vs)
  obtain key v where e: "e = (key, v)" by (cases e)
  have "\<forall>e \<in> set (set_value key v d). P e"
    using Cons.prems e by (cases v) (auto simp: set_value_def intro: all_dict_set [THEN bspec])
  with Cons e show ?case by simp
qed simp

lemma read_values_keys:
  "map fst (read_values params) =
     TEXT_KEYS @ [js ''study_level'', js ''funding_type'', js ''sort'', js ''verified'']"
  by (simp add: read_values_def TEXT_KEYS_def)

lemma filter_keys_distinct:
  "distinct (js ''limit'' # TEXT_KEYS @ [js ''study_level'', js ''funding_type'', js ''sort'', js ''verified''])"
  by (simp add: TEXT_KEYS_def)

text \<open>What is read of the parameters written out for parsed filters.\<close>

lemma first_One [simp]: "first (Some (One s)) = Some s" "first None = None"
  by (simp_all add: first_def)

lemma parsed_distinct: "distinct (map fst (parseScholarshipFilters params))"
  unfolding parse_values by (rule distinct_set_values) simp

lemma reading_back:
  assumes "k \<noteq> js ''limit''"
  shows "first (map_of (from_entries (serialize_params (parseScholarshipFilters params))) k) =
    (case map_of (read_values params) k of
       Some (Some v) \<Rightarrow> if written (k, v) then Some (query_text v) else None
     | _ \<Rightarrow> None)"
proof -
  let ?f = "parseScholarshipFilters params"
  have "distinct (map fst (serialize_params ?f))"
    unfolding serialize_fold by (rule serialize_distinct) simp
  then have "first (map_of (from_entries (serialize_params ?f)) k) = params_get (serialize_params ?f) k"
    by (simp add: from_entries_def from_entries_get params_get_def split: option.split)
  moreover have "params_get (serialize_params ?f) k =
      (case map_of ?f k of Some v \<Rightarrow> if written (k, v) then Some (query_text v) else None | None \<Rightarrow> None)"
    unfolding serialize_fold serialize_get [OF parsed_distinct] by (simp add: params_get_def split: option.split)
  moreover have "distinct (map fst (read_values params))"
    using filter_keys_distinct by (simp add: read_values_keys)
  then have "map_of ?f k = (case map_of (read_values params) k of Some (Some v) \<Rightarrow> Some v | _ \<Rightarrow> None)"
    using assms unfolding parse_values by (simp add: map_of_set_values split: option.split)
  ultimately show ?thesis by (simp split: option.split)
qed

lemma map_of_pairs: "map_of (map (\<lambda>k. (k, f k)) ks @ vs) k = (if k \<in> set ks then Some (f k) else map_of vs k)"
  by (induction ks) auto

lemma text_value_Some: "text_value params k = Some v \<Longrightarrow> v \<noteq> [] \<and> trim v = v"
  by (auto simp: text_value_def non_empty_Some)

lemma choice_value_Some:
  "choice_value params k options = Some v \<Longrightarrow> v \<in> set options"
  by (auto simp: choice_value_def Let_def isOneOf_def split: if_splits option.splits)

lemma text_value_back:
  assumes "k \<in> set TEXT_KEYS"
  shows "text_value (from_entries (serialize_params (parseScholarshipFilters params))) k = text_value params k"
proof -
  have "k \<noteq> js ''limit''"
    using assms filter_keys_distinct by auto
  moreover have "map_of (read_values params) k = Some (map_option QText (text_value params k))"
    using assms by (simp add: read_values_def map_of_pairs del: map_of_append)
  ultimately show ?thesis
    using text_value_Some [of params k]
    by (subst text_value_def, cases "text_value params k") (auto simp: reading_back written_def non_empty_Some non_empty_def split: list.split)
qed

lemma choice_value_back:
  assumes "map_of (read_values params) k = Some (map_option QText v)"
    and "k \<noteq> js ''limit''" and "\<And>x. v = Some x \<Longrightarrow> x \<in> set options" and "[] \<notin> set options"
  shows "choice_value (from_entries (serialize_params (parseScholarshipFilters params))) k options = v"
proof (cases v)
  case None
  with assms show ?thesis by (simp add: choice_value_def reading_back isOneOf_def)
next
  case (Some x)
  with assms have "x \<in> set options" "x \<noteq> []" by auto
  with assms Some show ?thesis by (simp add: choice_value_def reading_back isOneOf_def written_def)
qed

lemma read_values_back:
  "read_values (from_entries (serialize_params (parseScholarshipFilters params))) = read_values params"
proof -
  let ?p = "from_entries (serialize_params (parseScholarshipFilters params))"
  have later: "map_of (read_values params) k = map_of (drop 7 (read_values params)) k" if "k \<notin> set TEXT_KEYS" for k
    using that by (simp add: read_values_def map_of_pairs) (simp add: TEXT_KEYS_def)
  have texts: "map (\<lambda>k. (k, map_option QText (text_value ?p k))) TEXT_KEYS =
      map (\<lambda>k. (k, map_option QText (text_value params k))) TEXT_KEYS"
    by (simp add: text_value_back)
  have study: "choice_value ?p (js ''study_level'') STUDY_LEVELS = choice_value params (js ''study_level'') STUDY_LEVELS"
    by (rule choice_value_back) (auto simp: read_values_def map_of_pairs TEXT_KEYS_def dest: choice_value_Some, simp add: STUDY_LEVELS_def)
  have funding: "choice_value ?p (js ''funding_type'') FUNDING_TYPES = choice_value params (js ''funding_type'') FUNDING_TYPES"
    by (rule choice_value_back) (auto simp: read_values_def map_of_pairs TEXT_KEYS_def dest: choice_value_Some, simp add: FUNDING_TYPES_def)
  let ?s = "or_else (choice_value params (js ''sort'') SCHOLARSHIP_SORTS) (js ''relevance'')"
  have "?s \<in> set SCHOLARSHIP_SORTS"
    using choice_value_Some [of params "js ''sort''" SCHOLARSHIP_SORTS]
    by (simp add: or_else_def SCHOLARSHIP_SORTS_def split: option.split)
  then have sort: "choice_value ?p (js ''sort'') SCHOLARSHIP_SORTS = Some ?s"
    by (intro choice_value_back) (simp_all add: read_values_def map_of_pairs TEXT_KEYS_def, simp add: SCHOLARSHIP_SORTS_def)
  have verified: "first (map_of ?p (js ''verified'')) = Some (js ''true'') \<longleftrightarrow>
      first (map_of params (js ''verified'')) = Some (js ''true'')"
    by (simp add: reading_back later TEXT_KEYS_def) (simp add: read_values_def map_of_pairs TEXT_KEYS_def written_def)
  show ?thesis
    unfolding read_values_def [of ?p] texts study funding sort verified
    by (simp add: read_values_def or_else_def)
qed

lemma parsed_well_formed:
  assumes "\<forall>k v. first (map_of params k) = Some v \<longrightarrow> well_formed (trim v)"
  shows "\<forall>x \<in> set (serialize_params (parseScholarshipFilters params)). well_formed (fst x) \<and> well_formed (snd x)"
proof -
  have choice: "well_formed v" if "choice_value params k options = Some v" "list_all well_formed options" for k options v
    using choice_value_Some [OF that(1)] that(2) by (auto simp: list_all_iff)
  have options: "list_all well_formed STUDY_LEVELS" "list_all well_formed FUNDING_TYPES" "list_all well_formed SCHOLARSHIP_SORTS"
    by (simp_all add: STUDY_LEVELS_def FUNDING_TYPES_def SCHOLARSHIP_SORTS_def)
  have txt_ok: "well_formed v" if "text_value params k = Some v" for k v
    using that assms by (auto simp: text_value_def non_empty_Some)
  have "\<forall>e \<in> set (parseScholarshipFilters params). well_formed (fst e) \<and> (written e \<longrightarrow> well_formed (query_text (snd e)))"
    unfolding parse_values
  proof (rule all_set_values)
    have "well_formed k" if "k \<in> set TEXT_KEYS" for k
      using that by (auto simp: TEXT_KEYS_def)
    then show "\<forall>(k, v) \<in> set (read_values params). \<forall>x. v = Some x \<longrightarrow>
        well_formed (fst (k, x)) \<and> (written (k, x) \<longrightarrow> well_formed (query_text (snd (k, x))))"
      by (auto simp: read_values_def or_else_def dest!: txt_ok choice [OF _ options(1)] choice [OF _ options(2)]
          choice [OF _ options(3)] split: option.splits)
  qed (simp add: written_def)
  then show ?thesis
    unfolding serialize_fold by (intro serialize_all) auto
qed

text \<open>
  C?: Filters survive the URL: what the page reads from the query string that
  \<open>serializeScholarshipFilters\<close> writes for parsed filters is those filters, key by key and in
  the same order, for any query parameters that are proper Unicode text.
\<close>

theorem filters_roundtrip:
  assumes "\<forall>k v. first (map_of params k) = Some v \<longrightarrow> well_formed (trim v)"
  shows "parseScholarshipFilters
           (from_entries (parse_params (serializeScholarshipFilters (parseScholarshipFilters params)))) =
         parseScholarshipFilters params"
proof -
  let ?ps = "serialize_params (parseScholarshipFilters params)"
  have "parse_params (params_string ?ps) = ?ps"
    using parsed_well_formed [OF assms] by (intro parse_params_string) (auto simp: case_prod_beta)
  then show ?thesis
    unfolding serializeScholarshipFilters_def by (simp only: parse_values read_values_back [unfolded parse_values])
qed

definition sample_params :: search_params where
  "sample_params =
     [(js ''q'', One (js '' renewable energy '')), (js ''study_level'', Many [js ''postgraduate'', js ''primary'']),
      (js ''sort'', One (js ''popular'')), (js ''verified'', One (js ''true''))]"

lemma filters_roundtrip_witness:
  "parseScholarshipFilters
     (from_entries (parse_params (serializeScholarshipFilters (parseScholarshipFilters sample_params)))) =
   parseScholarshipFilters sample_params"
proof (rule filters_roundtrip)
  have "well_formed (trim (js '' renewable energy ''))" "well_formed (trim (js ''postgraduate''))"
    "well_formed (trim (js ''popular''))" "well_formed (trim (js ''true''))"
    by code_simp+
  then show "\<forall>k v. first (map_of sample_params k) = Some v \<longrightarrow> well_formed (trim v)"
    by (auto simp: sample_params_def first_def split: if_splits)
qed

section \<open>A deadline counts through its last millisecond\<close>

lemma read_digits_append:
  assumes "read_digits n s = Some (v, r)"
  shows "read_digits n (s @ t) = Some (v, r @ t)"
proof -
  have "n \<le> length s"
    using assms by (simp add: read_digits_def not_less split: if_split_asm)
  with assms show ?thesis
    by (auto simp: read_digits_def)
qed

lemma expect_append: "expect u s = Some r \<Longrightarrow> expect u (s @ t) = Some (r @ t)"
  by (cases s) (auto simp: expect_def split: if_split_asm)

lemma bind_pairE:
  assumes "x \<bind> (\<lambda>(a, b). f a b) = Some z"
  obtains a b where "x = Some (a, b)" "f a b = Some z"
  using assms by (cases x) auto

lemma bind_someE:
  assumes "x \<bind> f = Some z"
  obtains a where "x = Some a" "f a = Some z"
  using assms by (cases x) auto

lemma read_date_append:
  assumes "read_date s = Some (day, r)"
  shows "read_date (s @ t) = Some (day, r @ t)"
proof -
  obtain y m d s1 s2 s3 s4 s5 where parts: "read_digits 4 s = Some (y, s1)" "expect 0x2D s1 = Some s2"
    "read_digits 2 s2 = Some (m, s3)" "expect 0x2D s3 = Some s4" "read_digits 2 s4 = Some (d, s5)"
    and rest: "(if 1 \<le> m \<and> m \<le> 12 \<and> 1 \<le> d \<and> int d \<le> month_length (int y) (int m)
       then Some (days_from_civil (int y) (int m) (int d), s5) else None) = Some (day, r)"
    using assms unfolding read_date_def by (elim bind_pairE bind_someE) (rule that)
  have "(if 1 \<le> m \<and> m \<le> 12 \<and> 1 \<le> d \<and> int d \<le> month_length (int y) (int m)
       then Some (days_from_civil (int y) (int m) (int d), s5 @ t) else None) = Some (day, r @ t)"
    using rest by (simp split: if_split_asm)
  then show ?thesis
    by (simp only: read_date_def read_digits_append [OF parts(1)] expect_append [OF parts(2)]
        read_digits_append [OF parts(3)] expect_append [OF parts(4)] read_digits_append [OF parts(5)]
        Option.bind.simps prod.case)
qed

lemma milliseconds_999: "milliseconds (js ''999'') = Some 999" 
  by (simp add: milliseconds_def js_Cons digit_def of_char_unit)
lemma fraction_999: "read_fraction (js ''.999Z'') = Some (999, js ''Z'')" 
proof -
  have "js ''.999Z'' = 0x2E # js ''999Z''" "takeWhile (\<lambda>v. digit v \<noteq> None) (js ''999Z'') = js ''999''"
   "dropWhile (\<lambda>v. digit v \<noteq> None) (js ''999Z'') = js ''Z''"
    by code_simp+
  then show ?thesis by (simp add: read_fraction_def milliseconds_999)
qed
lemma seconds_59_999: "read_seconds (js '':59.999Z'') = Some (59999, js ''Z'')"
proof -
  have "js '':59.999Z'' = 0x3A # js ''59.999Z''" "read_digits 2 (js ''59.999Z'') = Some (59, js ''.999Z'')"
    by code_simp+
  then show ?thesis by (simp add: read_seconds_def fraction_999)
qed

lemma end_of_day:
  assumes "read_date d = Some (day, [])"
  shows "date_parse engine (d @ js ''T23:59:59.999Z'') = Some (day * DAY_MS + (DAY_MS - 1))"
proof -
  let ?t = "js ''T23:59:59.999Z''"
  have "expect 0x54 ?t = Some (js ''23:59:59.999Z'')" by code_simp
  moreover have "read_digits 2 (js ''23:59:59.999Z'') = Some (23, js '':59:59.999Z'')" by code_simp
  moreover have "expect 0x3A (js '':59:59.999Z'') = Some (js ''59:59.999Z'')" by code_simp
  moreover have "read_digits 2 (js ''59:59.999Z'') = Some (59, js '':59.999Z'')" by code_simp
  moreover note seconds_59_999
  moreover have "read_zone (js ''Z'') = Some 0" by code_simp
  moreover have "?t \<noteq> []" by simp
  ultimately have "iso_time (d @ ?t) = Some (day * DAY_MS + (3600000 * 23 + 60000 * 59 + 59999) - 0)"
    using read_date_append [OF assms, of ?t]
    by (simp only: iso_time_def append_Nil Option.bind.simps prod.case if_False) simp
  then show ?thesis
    by (simp add: date_parse_def DAY_MS_def)
qed

text \<open>
  A published scholarship with a calendar date for a deadline stays open through the last
  millisecond of that day in UTC and is expired from the next midnight on; a closed one is expired
  whatever its deadline, and one without a deadline, or with one that is no date, is never expired.
\<close>

theorem deadline_through_day:
  "deadlineState engine deadline Closed now = Expired_Deadline"
  "non_empty deadline = None \<Longrightarrow> deadlineState engine deadline Published now = Unknown_Deadline"
  "read_date d = Some (day, []) \<Longrightarrow> deadlineState engine (Some d) Published now =
     (if now < (day + 1) * DAY_MS then Open_Deadline else Expired_Deadline)"
  "non_empty deadline = Some d \<Longrightarrow> date_parse engine (d @ js ''T23:59:59.999Z'') = None \<Longrightarrow>
     deadlineState engine deadline Published now = Unknown_Deadline"
proof -
  show "deadlineState engine deadline Closed now = Expired_Deadline"
    by (simp add: deadlineState_def)
  show "deadlineState engine deadline Published now = Unknown_Deadline" if "non_empty deadline = None"
    using that by (simp add: deadlineState_def)
  show "deadlineState engine deadline Published now = Unknown_Deadline"
    if "non_empty deadline = Some d" "date_parse engine (d @ js ''T23:59:59.999Z'') = None"
    using that by (simp add: deadlineState_def)
  show "deadlineState engine (Some d) Published now =
     (if now < (day + 1) * DAY_MS then Open_Deadline else Expired_Deadline)" if day: "read_date d = Some (day, [])"
  proof -
    have "read_date [] = None" by code_simp
    with day have "non_empty (Some d) = Some d"
      by (auto simp: non_empty_def split: list.split)
    moreover have "(day * DAY_MS + (DAY_MS - 1) < now) \<longleftrightarrow> \<not> now < (day + 1) * DAY_MS"
      by (auto simp: distrib_right)
    ultimately show ?thesis
      by (simp add: deadlineState_def end_of_day [OF day])
  qed
qed

lemma deadline_through_day_witness:
  "deadlineState (\<lambda>_. None) (Some (js ''2026-03-31'')) Published 1774999999000 = Open_Deadline \<and>
   deadlineState (\<lambda>_. None) (Some (js ''2026-03-31'')) Published 1775001600000 = Expired_Deadline \<and>
   deadlineState (\<lambda>_. None) None Published 0 = Unknown_Deadline \<and>
   deadlineState (\<lambda>_. None) (Some (js ''soon'')) Published 0 = Unknown_Deadline"
proof -
  have "read_date (js ''2026-03-31'') = Some (20543, [])" by code_simp
  note day = deadline_through_day(3) [OF this]
  have "date_parse (\<lambda>_. None) (js ''soon'' @ js ''T23:59:59.999Z'') = None" "non_empty (Some (js ''soon'')) = Some (js ''soon'')"
    by code_simp+
  note none = deadline_through_day(4) [OF this(2) this(1)]
  have "non_empty None = None" by (simp add: non_empty_def)
  from deadline_through_day(2) [OF this] day none show ?thesis
    by (simp add: DAY_MS_def)
qed

section \<open>Results, page by page\<close>

record results = "ScholarshipResponse listing" +
  rs_filters :: ScholarshipFilters

definition initial_results :: "ScholarshipPage \<Rightarrow> ScholarshipFilters \<Rightarrow> results" where
  "initial_results page filters =
     \<lparr>li_items = page_data page, li_pagination = page_pagination page, li_loading = False, li_error = [],
      li_asked = None, rs_filters = filters\<rparr>"

definition more_error :: jsstring where
  "more_error = js ''The next page could not be loaded. Your current results are still here.''"

definition loadMore :: "results \<Rightarrow> results \<times> RequestOptions list" where
  "loadMore s =
     (case next_cursor s of
        None \<Rightarrow> (s, [])
      | Some c \<Rightarrow> (ask_page c s, [listScholarships (dict_set (js ''cursor'') (QText c) (rs_filters s))]))"

text \<open>
  The events: a click on the button (there while it is shown, and disabled while loading), the
  answer, and a render with new properties after a navigation that keeps the page mounted, whose
  initial page the state ignores.
\<close>

datatype results_event =
    Click_More
  | Page_Arrived ScholarshipPage
  | Page_Failed
  | Rerender ScholarshipPage ScholarshipFilters

fun results_step :: "results_event \<Rightarrow> results \<Rightarrow> results \<times> RequestOptions list" where
  "results_step Click_More s = (if shows_more s \<and> \<not> li_loading s then loadMore s else (s, []))"
| "results_step (Page_Arrived page) s = (if li_asked s \<noteq> None then page_arrives page s else s, [])"
| "results_step Page_Failed s = (if li_asked s \<noteq> None then page_fails more_error s else s, [])"
| "results_step (Rerender page filters) s = (s\<lparr>rs_filters := filters\<rparr>, [])"

interpretation reader: paged_list
  li_items next_cursor li_asked "\<lambda>s. \<not> li_loading s" "\<lambda>s. fst (loadMore s)" page_arrives "page_fails more_error"
  by unfold_locales (auto simp: listing_defs loadMore_def split: option.splits)

text \<open>A run in which the server answers for fixed filters.\<close>

fun answered :: "(jsstring \<Rightarrow> ScholarshipPage) \<Rightarrow> results_event \<Rightarrow> results \<Rightarrow> bool" where
  "answered serve (Page_Arrived page) s = (\<forall>c. li_asked s = Some c \<longrightarrow> page = serve c)"
| "answered serve (Rerender page filters) s = False"
| "answered serve _ s = True"

fun results_run :: "(jsstring \<Rightarrow> ScholarshipPage) \<Rightarrow> results_event list \<Rightarrow> results \<Rightarrow> results option" where
  "results_run serve [] s = Some s"
| "results_run serve (e # es) s =
     (if answered serve e s then results_run serve es (fst (results_step e s)) else None)"

lemma results_step_reads:
  assumes "answered serve e s" and "reader.reads_list serve all s"
  shows "reader.reads_list serve all (fst (results_step e s))"
proof (cases e)
  case Click_More
  then have "fst (results_step e s) = s \<or> fst (results_step e s) = reader.read_step Ask s"
    by (auto simp: shows_more_def)
  with reader.reads_list_step [OF assms(2), of Ask] assms(2) show ?thesis by auto
next
  case (Page_Arrived page)
  with reader.reads_list_step [OF assms(2), of "Arrive page"] assms(1) show ?thesis by simp
next
  case Page_Failed
  with reader.reads_list_step [OF assms(2), of Fail] show ?thesis by simp
qed (use assms in simp)

lemma results_run_reads:
  "results_run serve es s = Some s' \<Longrightarrow> reader.reads_list serve all s \<Longrightarrow> reader.reads_list serve all s'"
proof (induction es arbitrary: s)
  case (Cons e es)
  then show ?case
    using results_step_reads [of serve e s all] by (simp split: if_split_asm)
qed simp

lemma initial_results_simps [simp]:
  "li_items (initial_results page filters) = page_data page" "li_asked (initial_results page filters) = None"
  "\<not> li_loading (initial_results page filters)"
  "next_cursor (initial_results page filters) = non_empty (pg_next_cursor (page_pagination page))"
  by (simp_all add: initial_results_def next_cursor_def)


fun event_of :: "ScholarshipResponse reading \<Rightarrow> results_event" where
  "event_of Ask = Click_More"
| "event_of (Arrive page) = Page_Arrived page"
| "event_of Fail = Page_Failed"

definition offers_next :: "results \<Rightarrow> bool" where
  "offers_next s \<longleftrightarrow> li_items s \<noteq> [] \<and> pg_has_more (li_pagination s) = (next_cursor s \<noteq> None) \<and>
     li_loading s = (li_asked s \<noteq> None)"

definition honest_pagination :: "'a page \<Rightarrow> bool" where
  "honest_pagination page \<longleftrightarrow>
     pg_has_more (page_pagination page) = (non_empty (pg_next_cursor (page_pagination page)) \<noteq> None)"

lemma offers_next_steps:
  "offers_next s \<Longrightarrow> offers_next (fst (loadMore s))"
  "offers_next s \<Longrightarrow> offers_next (page_fails more_error s)"
  "offers_next s \<Longrightarrow> honest_pagination page \<Longrightarrow> offers_next (page_arrives page s)"
  by (auto simp: offers_next_def honest_pagination_def loadMore_def listing_defs split: option.split)

lemma event_simulates:
  assumes "offers_next s" "reader.honest serve e s" "\<And>c. honest_pagination (serve c)"
  shows "fst (results_step (event_of e) s) = reader.read_step e s" "answered serve (event_of e) s"
    "offers_next (reader.read_step e s)"
proof -
  show "answered serve (event_of e) s"
    using assms(2) by (cases e) auto
  show "fst (results_step (event_of e) s) = reader.read_step e s"
    using assms(1) by (cases e) (auto simp: offers_next_def shows_more_def)
  show "offers_next (reader.read_step e s)"
    using assms by (cases e) (auto simp: offers_next_steps)
qed

lemma reading_is_run:
  assumes "\<And>c. honest_pagination (serve c)"
  shows "offers_next s \<Longrightarrow> reader.read_run serve es s = Some s' \<Longrightarrow> results_run serve (map event_of es) s = Some s'"
proof (induction es arbitrary: s)
  case (Cons e es)
  then have "reader.honest serve e s" by (simp split: if_split_asm)
  note step = event_simulates [OF Cons.prems(1) this assms]
  from Cons.IH [OF step(3)] Cons.prems(2) step(1,2) show ?case
    by (simp split: if_split_asm)
qed simp


text \<open>
  Following a link to other filters that keeps the page mounted leaves the results and the cursor
  of the old filters in place, whatever page the server sent; the next request asks for the new
  filters with the cursor of the old ones.
\<close>

theorem new_filters_keep_results:
  assumes "next_cursor s = Some c" "shows_more s" "\<not> li_loading s"
  shows "li_items (fst (results_step (Rerender page filters) s)) = li_items s"
    and "snd (results_step Click_More (fst (results_step (Rerender page filters) s))) =
           [listScholarships (dict_set (js ''cursor'') (QText c) filters)]"
  using assms by (simp_all add: loadMore_def listing_defs)

section \<open>The examples\<close>

definition catalogue_entry :: "jsstring \<Rightarrow> ScholarshipResponse" where
  "catalogue_entry i =
     \<lparr>sch_id = i, sch_title = js ''Grant'', sch_provider = js ''P'', sch_description = None, sch_amount = None,
      sch_currency = None, sch_funding_type = FundingFull, sch_funding_summary = None, sch_study_levels = [],
      sch_fields_of_study = [], sch_destination_countries = [], sch_nationality_requirements = [],
      sch_residency_requirements = [], sch_deadline = None, sch_eligibility_summary = None,
      sch_eligibility = \<lparr>elig_status = Eligible, elig_summary = [], elig_reasons = [], elig_missing_facts = []\<rparr>,
      sch_requirements = [], sch_required_documents = [], sch_source_url = js ''u'', sch_application_url = None,
      sch_provenance = \<lparr>prov_source_name = [], prov_source_url = [], prov_ingested_at = [], prov_last_checked_at = []\<rparr>,
      sch_verified_at = None, sch_saved = False, sch_status = Published, sch_created_at = [], sch_updated_at = []\<rparr>"

definition sample_first :: ScholarshipPage where
  "sample_first = \<lparr>page_data = [catalogue_entry (js ''a'')],
     page_pagination = \<lparr>pg_next_cursor = Some (js ''c1''), pg_has_more = True, pg_limit = 12\<rparr>\<rparr>"

definition sample_server :: "jsstring \<Rightarrow> ScholarshipPage" where
  "sample_server c = \<lparr>page_data = [catalogue_entry (js ''b'')],
     page_pagination = \<lparr>pg_next_cursor = None, pg_has_more = False, pg_limit = 12\<rparr>\<rparr>"

lemma sample_held:
  "held sample_server (Suc 0) (non_empty (pg_next_cursor (page_pagination sample_first))) =
     Some [catalogue_entry (js ''b'')]"
  by (simp add: sample_server_def sample_first_def non_empty_def js_Cons)



lemma new_filters_keep_results_witness:
  "li_items (fst (results_step (Rerender (sample_server []) [(js ''q'', QText (js ''x''))]) (initial_results sample_first []))) =
     [catalogue_entry (js ''a'')]"
  using new_filters_keep_results(1) [of "initial_results sample_first []" "js ''c1''" "sample_server []" "[(js ''q'', QText (js ''x''))]"]
  by (simp add: shows_more_def sample_first_def initial_results_def next_cursor_def non_empty_def js_Cons)

end
