(* ===== verification/Scholarship_Actions.thy ===== *)
theory Scholarship_Actions
  imports Scholarships
begin

text \<open>
  What a student can do with a scholarship: the saved mark of a card (\<^verbatim>\<open>scholarship-card.tsx\<close>) and the
  actions of the detail page (\<^verbatim>\<open>scholarship-actions.tsx\<close>).  A button is disabled while a request is in
  flight, so an event of the user happens only when its button is enabled.
\<close>

section \<open>The card\<close>

record card_mark =
  cm_saved :: bool
  cm_pending :: bool
  cm_error :: jsstring
  cm_next :: "bool option"

definition initial_mark :: "ScholarshipResponse \<Rightarrow> card_mark" where
  "initial_mark scholarship =
     \<lparr>cm_saved = sch_saved scholarship, cm_pending = False, cm_error = [], cm_next = None\<rparr>"

definition toggleSaved :: "ScholarshipResponse \<Rightarrow> card_mark \<Rightarrow> card_mark \<times> RequestOptions option list" where
  "toggleSaved scholarship s =
     (let next = \<not> cm_saved s
      in (s\<lparr>cm_pending := True, cm_error := [], cm_next := Some next\<rparr>,
          [setScholarshipSaved (sch_id scholarship) next]))"

definition toggle_settles :: "bool \<Rightarrow> card_mark \<Rightarrow> card_mark" where
  "toggle_settles ok s =
     (case cm_next s of
        None \<Rightarrow> s
      | Some next \<Rightarrow>
          (if ok then s\<lparr>cm_saved := next\<rparr>
           else s\<lparr>cm_error := js ''Could not update saved state. Try again.''\<rparr>)\<lparr>cm_pending := False, cm_next := None\<rparr>)"

datatype card_event = Click_Save | Save_Settles bool

fun card_step :: "ScholarshipResponse \<Rightarrow> card_event \<Rightarrow> card_mark \<Rightarrow> card_mark \<times> RequestOptions option list" where
  "card_step scholarship Click_Save s = (if cm_pending s then (s, []) else toggleSaved scholarship s)"
| "card_step scholarship (Save_Settles ok) s = (toggle_settles ok s, [])"

section \<open>The actions\<close>

datatype action_job = Save_Job bool | Start_Job | Report_Job

record actions =
  ac_saved :: bool
  ac_pending :: "jsstring option"
  ac_notice :: jsstring
  ac_reportOpen :: bool
  ac_job :: "action_job option"

definition initial_actions :: "ScholarshipResponse \<Rightarrow> actions" where
  "initial_actions scholarship =
     \<lparr>ac_saved = sch_saved scholarship, ac_pending = None, ac_notice = [], ac_reportOpen = False, ac_job = None\<rparr>"

definition run_action :: "jsstring \<Rightarrow> action_job \<Rightarrow> actions \<Rightarrow> actions" where
  "run_action kind job s = s\<lparr>ac_pending := Some kind, ac_notice := [], ac_job := Some job\<rparr>"

text \<open>The rest of the action, then \<open>run\<close>: the notice of success or of failure, and nothing pending.\<close>

fun job_done :: "action_job \<Rightarrow> actions \<Rightarrow> actions" where
  "job_done (Save_Job next) s = s\<lparr>ac_saved := next\<rparr>"
| "job_done Start_Job s = s"
| "job_done Report_Job s = s\<lparr>ac_reportOpen := False\<rparr>"

fun success_notice :: "action_job \<Rightarrow> jsstring" where
  "success_notice (Save_Job next) =
     (if next then js ''Scholarship saved.'' else js ''Scholarship removed from saved items.'')"
| "success_notice Start_Job = js ''Application added to your tracker.''"
| "success_notice Report_Job = js ''Thanks. Your accuracy report was received.''"

definition action_settles :: "bool \<Rightarrow> actions \<Rightarrow> actions" where
  "action_settles ok s =
     (case ac_job s of
        None \<Rightarrow> s
      | Some job \<Rightarrow>
          (if ok then (job_done job s)\<lparr>ac_notice := success_notice job\<rparr>
           else s\<lparr>ac_notice := js ''That action could not be completed. Please try again.''\<rparr>)
          \<lparr>ac_pending := None, ac_job := None\<rparr>)"

definition toggleSave :: "ScholarshipResponse \<Rightarrow> actions \<Rightarrow> actions \<times> RequestOptions option list" where
  "toggleSave scholarship s =
     (let next = \<not> ac_saved s
      in (run_action (js ''save'') (Save_Job next) s, [setScholarshipSaved (sch_id scholarship) next]))"

definition startApplication ::
  "ScholarshipResponse \<Rightarrow> jsstring \<Rightarrow> actions \<Rightarrow> actions \<times> RequestOptions option list" where
  "startApplication scholarship uuid s =
     (run_action (js ''start'') Start_Job s,
      [Some (createApplication \<lparr>acreate_scholarship_id = sch_id scholarship, acreate_status = Some AppPreparing,
                 acreate_notes = None\<rparr>
               (idempotencyKey (js ''application'') uuid))])"

definition submitReport ::
  "ScholarshipResponse \<Rightarrow> ReportReason \<Rightarrow> jsstring \<Rightarrow> jsstring \<Rightarrow> actions \<Rightarrow> actions \<times> RequestOptions option list" where
  "submitReport scholarship reason details uuid s =
     (run_action (js ''report'') Report_Job s,
      [reportScholarship (sch_id scholarship)
         \<lparr>report_reason = reason, report_details = non_empty (Some (trim details))\<rparr>
         (idempotencyKey (js ''report'') uuid)])"

text \<open>
  The events; the form is there while it is open, its reason is required by the browser, and its
  button is disabled while something is pending, as those of the other actions are.
\<close>

datatype action_event =
    Toggle_Save
  | Start_Application jsstring
  | Toggle_Report
  | Submit_Report ReportReason jsstring jsstring
  | Settles bool

fun actions_step ::
  "ScholarshipResponse \<Rightarrow> bool \<Rightarrow> action_event \<Rightarrow> actions \<Rightarrow> actions \<times> RequestOptions option list" where
  "actions_step scholarship actionable Toggle_Save s =
     (if ac_pending s = None then toggleSave scholarship s else (s, []))"
| "actions_step scholarship actionable (Start_Application uuid) s =
     (if actionable \<and> ac_pending s = None then startApplication scholarship uuid s else (s, []))"
| "actions_step scholarship actionable Toggle_Report s = (s\<lparr>ac_reportOpen := \<not> ac_reportOpen s\<rparr>, [])"
| "actions_step scholarship actionable (Submit_Report reason details uuid) s =
     (if ac_reportOpen s \<and> ac_pending s = None then submitReport scholarship reason details uuid s else (s, []))"
| "actions_step scholarship actionable (Settles ok) s = (action_settles ok s, [])"

fun actions_run ::
  "ScholarshipResponse \<Rightarrow> bool \<Rightarrow> action_event list \<Rightarrow> actions \<times> RequestOptions option list \<Rightarrow>
     actions \<times> RequestOptions option list" where
  "actions_run scholarship actionable [] z = z"
| "actions_run scholarship actionable (e # es) (s, sent) =
     (let (s', more) = actions_step scholarship actionable e s
      in actions_run scholarship actionable es (s', sent @ more))"

section \<open>Lemmas\<close>

lemma job_done_simps [simp]:
  "ac_pending (job_done job s) = ac_pending s" "ac_job (job_done job s) = ac_job s"
  by (cases job; simp)+

text \<open>Something is pending exactly while a promise is in flight.\<close>

definition actions_ok :: "actions \<Rightarrow> bool" where
  "actions_ok s \<longleftrightarrow> (ac_pending s = None) = (ac_job s = None)"

lemma actions_step_ok: "actions_ok s \<Longrightarrow> actions_ok (fst (actions_step scholarship actionable e s))"
  by (cases e) (auto simp: actions_ok_def toggleSave_def startApplication_def submitReport_def run_action_def
      action_settles_def Let_def split: option.split)

lemma run_step [simp]:
  "actions_run scholarship actionable (e # es) (s, sent) =
     actions_run scholarship actionable es
       (fst (actions_step scholarship actionable e s), sent @ snd (actions_step scholarship actionable e s))"
  by (simp add: case_prod_beta)

declare actions_run.simps(2) [simp del]

text \<open>The requests of an open scholarship's page, and of one that is closed.\<close>

definition starts_application :: "RequestOptions option \<Rightarrow> bool" where
  "starts_application r \<longleftrightarrow> (\<exists>body key. r = Some (createApplication body key))"

lemma scholarship_path_not_application:
  "\<not> starts_application (setScholarshipSaved i saved)" "\<not> starts_application (reportScholarship i body key)"
proof -
  have "js ''/scholarships/'' @ e \<noteq> js ''/applications''" for e
    by (simp add: js_Cons)
  then show "\<not> starts_application (setScholarshipSaved i saved)" "\<not> starts_application (reportScholarship i body key)"
    by (auto simp: starts_application_def setScholarshipSaved_def reportScholarship_def createApplication_def
        id_path_def options_of_def)
qed

lemma actions_step_starts:
  "r \<in> set (snd (actions_step scholarship actionable e s)) \<Longrightarrow> starts_application r \<Longrightarrow> actionable"
  by (cases e) (auto simp: toggleSave_def submitReport_def Let_def scholarship_path_not_application split: if_split_asm)

lemma actions_run_inv:
  "actions_run scholarship actionable es (s, sent) = (s', sent') \<Longrightarrow> actions_ok s \<Longrightarrow>
   (\<forall>r \<in> set sent. starts_application r \<longrightarrow> actionable) \<Longrightarrow>
   actions_ok s' \<and> (\<forall>r \<in> set sent'. starts_application r \<longrightarrow> actionable)"
proof (induction es arbitrary: s sent)
  case (Cons e es)
  have "\<forall>r \<in> set (sent @ snd (actions_step scholarship actionable e s)). starts_application r \<longrightarrow> actionable"
    using Cons.prems(3) actions_step_starts by auto
  with Cons.IH [OF Cons.prems(1) [unfolded run_step] actions_step_ok [OF Cons.prems(2)]] show ?case by blast
qed simp



text \<open>
  Starting an application is not safe to retry: when the answer to a start is lost, the next
  click sends the same body under a new key, so the two requests are different to the server, which
  may have carried out the first.
\<close>

theorem retried_start_has_new_key:
  assumes "ac_pending s = None" and "u1 \<noteq> u2"
  shows "\<exists>s' body k1 k2.
    actions_run scholarship True [Start_Application u1, Settles False, Start_Application u2] (s, []) =
      (s', [Some (createApplication body k1), Some (createApplication body k2)]) \<and> k1 \<noteq> k2 \<and>
      createApplication body k1 \<noteq> createApplication body k2"
proof -
  let ?body = "\<lparr>acreate_scholarship_id = sch_id scholarship, acreate_status = Some AppPreparing,
                 acreate_notes = None\<rparr>"
  have keys: "idempotencyKey (js ''application'') u1 \<noteq> idempotencyKey (js ''application'') u2"
    using assms(2) by (simp add: idempotencyKey_def)
  with assms(1) show ?thesis
    by (intro exI [of _ "fst (actions_run scholarship True [Start_Application u1, Settles False, Start_Application u2] (s, []))"]
        exI [of _ ?body] exI [of _ "idempotencyKey (js ''application'') u1"] exI [of _ "idempotencyKey (js ''application'') u2"])
      (simp add: startApplication_def run_action_def action_settles_def createApplication_def options_of_def)
qed

lemma retried_start_has_new_key_witness:
  "\<exists>s' body k1 k2.
    actions_run (catalogue_entry (js ''a'')) True [Start_Application (js ''u1''), Settles False, Start_Application (js ''u2'')]
      (initial_actions (catalogue_entry (js ''a'')), []) =
      (s', [Some (createApplication body k1), Some (createApplication body k2)]) \<and> k1 \<noteq> k2 \<and>
      createApplication body k1 \<noteq> createApplication body k2"
  by (rule retried_start_has_new_key) (simp_all add: initial_actions_def)

end
