(* ===== verification/Matches.thy ===== *)
theory Matches
  imports Scholarships
begin

text \<open>
  The ranked matches: the texts of a match (\<^verbatim>\<open>app/lib/matches/presentation.ts\<close>), the score breakdown, the
  ranked list with its pages and its recalculation (\<^verbatim>\<open>ranked-match-list.tsx\<close>), and the feedback form.
\<close>

section \<open>Texts\<close>

definition SCORE_DIMENSIONS :: "ScoreDimension list" where
  "SCORE_DIMENSIONS =
     [ScoreAcademics, ScoreEligibilityFit, ScoreInterestsGoals, ScoreExperience, ScoreReadinessTiming]"

fun SCORE_LABELS :: "ScoreDimension \<Rightarrow> jsstring" where
  "SCORE_LABELS ScoreAcademics = js ''Academics''"
| "SCORE_LABELS ScoreEligibilityFit = js ''Eligibility fit''"
| "SCORE_LABELS ScoreInterestsGoals = js ''Interests and goals''"
| "SCORE_LABELS ScoreExperience = js ''Experience''"
| "SCORE_LABELS ScoreReadinessTiming = js ''Readiness and timing''"

datatype explanation_source = AI_Source | Deterministic_Source

record PresentedExplanation =
  px_explanation :: MatchExplanation
  px_source :: explanation_source
  px_statusMessage :: jsstring

definition presentExplanation :: "MatchResponse \<Rightarrow> PresentedExplanation" where
  "presentExplanation m =
     (case (match_explanation_status m, match_ai_explanation m) of
        (ExplanationReady, Some ai) \<Rightarrow>
          \<lparr>px_explanation = ai, px_source = AI_Source,
           px_statusMessage = js ''AI-assisted wording grounded in the deterministic score and published requirements.''\<rparr>
      | _ \<Rightarrow>
          \<lparr>px_explanation = match_deterministic_explanation m, px_source = Deterministic_Source,
           px_statusMessage =
             (if match_explanation_status m = ExplanationPending
              then js ''The AI explanation is still pending. This deterministic explanation remains available.''
              else js ''The AI explanation is unavailable. This deterministic explanation remains available.'')\<rparr>)"

text \<open>\<open>value * 100\<close> (exact here) and its rounding, as text.\<close>

fun hundredfold :: "number \<Rightarrow> number" where
  "hundredfold (Fin x) = Fin (x * 100)"
| "hundredfold n = n"

fun rounded :: "number \<Rightarrow> jsstring" where
  "rounded (Fin x) = js_of_int (math_round x)"
| "rounded NaN = js ''NaN''"
| "rounded Infinity = js ''Infinity''"
| "rounded NegInfinity = js ''-Infinity''"

definition formatScore :: "number \<Rightarrow> jsstring" where
  "formatScore v = rounded (hundredfold v) @ js '' / 100''"

definition formatConfidence :: "number \<Rightarrow> jsstring" where
  "formatConfidence v = rounded (hundredfold v) @ js ''%''"

definition formatMatchTimestamp :: "texts \<Rightarrow> jsstring \<Rightarrow> jsstring" where
  "formatMatchTimestamp tx v =
     (case date_parse (tx_engine tx) v of None \<Rightarrow> js ''Time unavailable'' | Some t \<Rightarrow> tx_moment tx t)"

text \<open>A row of the breakdown: the label, the weight, the width of the bar in percent and the score.\<close>

record score_row =
  sr_label :: jsstring
  sr_weight :: jsstring
  sr_width :: number
  sr_score :: jsstring

definition breakdown :: "MatchResponse \<Rightarrow> score_row list" where
  "breakdown m =
     map (\<lambda>dimension.
            (case find (\<lambda>c. sc_name c = dimension) (match_score_components m) of
               Some c \<Rightarrow>
                 \<lparr>sr_label = SCORE_LABELS dimension, sr_weight = rounded (hundredfold (sc_weight c)) @ js ''% weight'',
                  sr_width = hundredfold (sc_score c), sr_score = formatScore (sc_score c)\<rparr>
             | None \<Rightarrow>
                 \<lparr>sr_label = SCORE_LABELS dimension, sr_weight = js ''Not scored'', sr_width = Fin 0,
                  sr_score = js ''Unknown''\<rparr>))
       SCORE_DIMENSIONS"

lemmas [js_defs] = formatScore_def formatConfidence_def formatMatchTimestamp_def breakdown_def SCORE_DIMENSIONS_def

section \<open>The ranked list\<close>

text \<open>
  A recalculation is one asynchronous call; its stage is what it awaits: the answer of the request,
  the poll of a job (numbered from 0), the timer between polls, the hook given instead of polling,
  or the reloaded page.
\<close>

datatype recalc_stage =
    Queueing
  | Polling nat jsstring
  | Sleeping nat jsstring
  | Hook_Waiting
  | Reloading JobResponse

record match_list = "MatchResponse listing" +
  ml_pending :: bool
  ml_status :: jsstring
  ml_stage :: "recalc_stage option"

record match_hooks =
  has_recalculate :: bool
  has_waitForJob :: bool
  has_reload :: bool
  has_loadPage :: bool

record match_env =
  me_texts :: texts
  me_number :: "number \<Rightarrow> jsstring"
  me_hooks :: match_hooks
  me_limit :: nat

definition initial_matches :: "MatchPage \<Rightarrow> match_list" where
  "initial_matches page =
     \<lparr>li_items = page_data page, li_pagination = page_pagination page, li_loading = False, li_error = [],
      li_asked = None, ml_pending = False, ml_status = [], ml_stage = None\<rparr>"

text \<open>What goes out: a request, a call of a hook, or a timer.\<close>

datatype match_effect =
    Requests "RequestOptions option"
  | Polls "RequestOptions option"
  | Recalculate_Hook
  | Wait_Hook jsstring
  | Reload_Hook
  | Page_Hook jsstring
  | Timer nat

definition matchIdempotencyKey :: "jsstring \<Rightarrow> jsstring \<Rightarrow> jsstring" where
  "matchIdempotencyKey before uuid = before @ js ''-'' @ uuid"

definition recalculate :: "match_env \<Rightarrow> jsstring \<Rightarrow> match_list \<Rightarrow> match_list \<times> match_effect list" where
  "recalculate e uuid s =
     (if ml_pending s then (s, [])
      else (s\<lparr>ml_pending := True, li_error := [],
              ml_status := js ''Recalculation queued. You can keep reviewing these matches.'',
              ml_stage := Some Queueing\<rparr>,
            [if has_recalculate (me_hooks e) then Recalculate_Hook
             else Requests (Some (recalculateMatches (matchIdempotencyKey (js ''matches'') uuid)))]))"

text \<open>The catch and the finally of the call.\<close>

definition rate_limit_wait :: "match_env \<Rightarrow> ApiError \<Rightarrow> jsstring" where
  "rate_limit_wait e a =
     (case err_retryAfterSeconds a of
        Some wait \<Rightarrow>
          if wait = NaN \<or> wait = Fin 0 then js ''Recalculation is rate limited. Please wait and try again.''
          else js ''Recalculation is rate limited. Try again in '' @ me_number e wait @ js '' seconds.''
      | None \<Rightarrow> js ''Recalculation is rate limited. Please wait and try again.'')"

definition recalc_error :: "match_env \<Rightarrow> caught \<Rightarrow> jsstring" where
  "recalc_error e reason =
     (case reason of
        Client (Api_Error a) \<Rightarrow>
          if err_kind a = Rate_Limited then rate_limit_wait e a
          else js ''Matches could not be recalculated. Existing deterministic results remain available.''
      | _ \<Rightarrow> js ''Matches could not be recalculated. Existing deterministic results remain available.'')"

definition recalc_fails :: "match_env \<Rightarrow> caught \<Rightarrow> match_list \<Rightarrow> match_list \<times> match_effect list" where
  "recalc_fails e reason s =
     (s\<lparr>li_error := recalc_error e reason, ml_status := [], ml_pending := False, ml_stage := None\<rparr>, [])"

definition finished :: "JobResponse \<Rightarrow> bool" where
  "finished job \<longleftrightarrow> job_status job = JobCompleted \<or> job_status job = JobFailed"

text \<open>From \<open>completed\<close> on: a failed job throws, otherwise the first page is read again.\<close>

definition completed :: "match_env \<Rightarrow> JobResponse \<Rightarrow> match_list \<Rightarrow> match_list \<times> match_effect list" where
  "completed e job s =
     (if job_status job = JobFailed then recalc_fails e (Plain_Error (js ''Recalculation failed'')) s
      else (s\<lparr>ml_stage := Some (Reloading job)\<rparr>,
            [if has_reload (me_hooks e) then Reload_Hook
             else Requests (Some (listMatches \<lparr>po_limit = Some (me_limit e), po_cursor = None\<rparr>))]))"

definition poll :: "nat \<Rightarrow> jsstring \<Rightarrow> match_list \<Rightarrow> match_list \<times> match_effect list" where
  "poll attempt jobId s =
     (s\<lparr>ml_stage := Some (Polling attempt jobId)\<rparr>, [Polls (getMatchRecalculationJob jobId)])"

definition job_arrives :: "match_env \<Rightarrow> JobResponse \<Rightarrow> match_list \<Rightarrow> match_list \<times> match_effect list" where
  "job_arrives e job s =
     (case ml_stage s of
        Some Queueing \<Rightarrow>
          if finished job then completed e job s
          else if has_waitForJob (me_hooks e) then (s\<lparr>ml_stage := Some Hook_Waiting\<rparr>, [Wait_Hook (job_id job)])
          else poll 0 (job_id job) s
      | Some (Polling attempt jobId) \<Rightarrow>
          if finished job then completed e job s
          else (s\<lparr>ml_stage := Some (Sleeping attempt jobId)\<rparr>, [Timer 1500])
      | Some Hook_Waiting \<Rightarrow> completed e job s
      | _ \<Rightarrow> (s, []))"

definition timer_fires :: "match_env \<Rightarrow> match_list \<Rightarrow> match_list \<times> match_effect list" where
  "timer_fires e s =
     (case ml_stage s of
        Some (Sleeping attempt jobId) \<Rightarrow>
          if attempt + 1 < 40 then poll (attempt + 1) jobId s
          else recalc_fails e (Plain_Error (js ''Recalculation timed out'')) s
      | _ \<Rightarrow> (s, []))"

definition reload_arrives :: "match_env \<Rightarrow> MatchPage \<Rightarrow> match_list \<Rightarrow> match_list \<times> match_effect list" where
  "reload_arrives e page s =
     (case ml_stage s of
        Some (Reloading job) \<Rightarrow>
          (s\<lparr>li_items := page_data page, li_pagination := page_pagination page,
             ml_status := js ''Recalculation complete. Matches updated ''
               @ formatMatchTimestamp (me_texts e) (or_else (job_matches_updated_at job) (job_updated_at job)) @ js ''.'',
             ml_pending := False, ml_stage := None\<rparr>, [])
      | _ \<Rightarrow> (s, []))"

definition loadMore_matches :: "match_env \<Rightarrow> match_list \<Rightarrow> match_list \<times> match_effect list" where
  "loadMore_matches e s =
     (case next_cursor s of
        None \<Rightarrow> (s, [])
      | Some c \<Rightarrow>
          if li_loading s then (s, [])
          else (ask_page c s,
                [if has_loadPage (me_hooks e) then Page_Hook c
                 else Requests (Some (listMatches
                   \<lparr>po_limit = Some (pg_limit (li_pagination s)), po_cursor = Some c\<rparr>))]))"

definition more_matches_error :: jsstring where
  "more_matches_error = js ''The next page could not be loaded. Current matches remain available.''"

datatype match_event =
    Click_Recalculate jsstring
  | Got_Job JobResponse
  | Timer_Fires
  | Got_Page MatchPage
  | Recalc_Throws caught
  | Click_More_Matches
  | More_Matches MatchPage
  | More_Throws

fun match_step :: "match_env \<Rightarrow> match_event \<Rightarrow> match_list \<Rightarrow> match_list \<times> match_effect list" where
  "match_step e (Click_Recalculate uuid) s = recalculate e uuid s"
| "match_step e (Got_Job job) s = job_arrives e job s"
| "match_step e Timer_Fires s = timer_fires e s"
| "match_step e (Got_Page page) s = reload_arrives e page s"
| "match_step e (Recalc_Throws reason) s = (if ml_stage s \<noteq> None then recalc_fails e reason s else (s, []))"
| "match_step e Click_More_Matches s = (if shows_more s then loadMore_matches e s else (s, []))"
| "match_step e (More_Matches page) s = (if li_asked s \<noteq> None then page_arrives page s else s, [])"
| "match_step e More_Throws s = (if li_asked s \<noteq> None then page_fails more_matches_error s else s, [])"

fun match_run :: "match_env \<Rightarrow> match_event list \<Rightarrow> match_list \<times> match_effect list \<Rightarrow> match_list \<times> match_effect list" where
  "match_run e [] z = z"
| "match_run e (x # xs) z =
     match_run e xs (fst (match_step e x (fst z)), snd z @ snd (match_step e x (fst z)))"

section \<open>Facts about steps\<close>

text \<open>A recalculation is pending exactly while it is at a stage; a poll has a number below 40.\<close>

fun stage_ok :: "recalc_stage option \<Rightarrow> bool" where
  "stage_ok (Some (Polling n _)) = (n < 40)"
| "stage_ok (Some (Sleeping n _)) = (n < 40)"
| "stage_ok _ = True"

definition match_inv :: "match_list \<Rightarrow> bool" where
  "match_inv s \<longleftrightarrow> ml_pending s = (ml_stage s \<noteq> None) \<and> li_loading s = (li_asked s \<noteq> None) \<and>
     stage_ok (ml_stage s)"

lemmas recalc_defs = recalculate_def recalc_fails_def completed_def poll_def job_arrives_def timer_fires_def
  reload_arrives_def

lemma listing_frames [simp]:
  "ml_stage (page_arrives page s) = ml_stage s" "ml_pending (page_arrives page s) = ml_pending s"
  "ml_stage (page_fails message s) = ml_stage s" "ml_pending (page_fails message s) = ml_pending s"
  "li_items (page_fails message s) = li_items s" "li_pagination (page_fails message s) = li_pagination s"
  "ml_stage (fst (loadMore_matches e s)) = ml_stage s" "ml_pending (fst (loadMore_matches e s)) = ml_pending s"
  "li_items (fst (loadMore_matches e s)) = li_items s" "li_pagination (fst (loadMore_matches e s)) = li_pagination s"
  by (simp_all add: listing_defs loadMore_matches_def split: option.split)

lemma recalc_fails_inv: "match_inv s \<Longrightarrow> match_inv (fst (recalc_fails e reason s))"
  by (simp add: match_inv_def recalc_fails_def)

lemma stage_inv: "match_inv s \<Longrightarrow> ml_stage s \<noteq> None \<Longrightarrow> stage_ok (Some stage) \<Longrightarrow> match_inv (s\<lparr>ml_stage := Some stage\<rparr>)"
  by (simp add: match_inv_def)

lemma completed_inv: "match_inv s \<Longrightarrow> ml_stage s \<noteq> None \<Longrightarrow> match_inv (fst (completed e job s))"
  by (simp add: completed_def recalc_fails_inv stage_inv)

lemma job_arrives_inv: "match_inv s \<Longrightarrow> match_inv (fst (job_arrives e job s))"
proof -
  assume inv: "match_inv s"
  then have "stage_ok (ml_stage s)" by (simp add: match_inv_def)
  with inv show ?thesis
    by (auto simp: job_arrives_def completed_inv stage_inv poll_def split: option.split recalc_stage.split)
qed

lemma timer_fires_inv: "match_inv s \<Longrightarrow> match_inv (fst (timer_fires e s))"
  by (auto simp: timer_fires_def recalc_fails_inv stage_inv poll_def split: option.split recalc_stage.split)

lemma reload_arrives_inv: "match_inv s \<Longrightarrow> match_inv (fst (reload_arrives e page s))"
  by (auto simp: reload_arrives_def match_inv_def split: option.split recalc_stage.split)

lemma recalculate_inv: "match_inv s \<Longrightarrow> match_inv (fst (recalculate e uuid s))"
  by (simp add: recalculate_def match_inv_def)

lemma paging_inv:
  "match_inv s \<Longrightarrow> match_inv (fst (loadMore_matches e s))" "match_inv s \<Longrightarrow> match_inv (page_arrives page s)"
  "match_inv s \<Longrightarrow> match_inv (page_fails message s)"
  by (auto simp: match_inv_def loadMore_matches_def listing_defs split: option.split)

lemma match_step_inv: "match_inv s \<Longrightarrow> match_inv (fst (match_step e x s))"
  by (cases x) (simp_all add: recalc_fails_inv job_arrives_inv timer_fires_inv reload_arrives_inv recalculate_inv paging_inv)

text \<open>The answers and timers a recalculation still waits for, and the polls it still sends, at most.\<close>

fun steps_left :: "recalc_stage option \<Rightarrow> nat" where
  "steps_left None = 0"
| "steps_left (Some (Reloading _)) = 1"
| "steps_left (Some Hook_Waiting) = 2"
| "steps_left (Some (Sleeping n _)) = 2 * (39 - n) + 1"
| "steps_left (Some (Polling n _)) = 2 * (39 - n) + 2"
| "steps_left (Some Queueing) = 81"

fun polls_left :: "recalc_stage option \<Rightarrow> nat" where
  "polls_left (Some (Sleeping n _)) = 39 - n"
| "polls_left (Some (Polling n _)) = 39 - n"
| "polls_left (Some Queueing) = 40"
| "polls_left _ = 0"

text \<open>An event the recalculation is waiting for.\<close>

fun awaited :: "match_event \<Rightarrow> recalc_stage option \<Rightarrow> bool" where
  "awaited (Got_Job _) (Some Queueing) = True"
| "awaited (Got_Job _) (Some (Polling _ _)) = True"
| "awaited (Got_Job _) (Some Hook_Waiting) = True"
| "awaited Timer_Fires (Some (Sleeping _ _)) = True"
| "awaited (Got_Page _) (Some (Reloading _)) = True"
| "awaited (Recalc_Throws _) (Some stage) = (case stage of Sleeping _ _ \<Rightarrow> False | _ \<Rightarrow> True)"
| "awaited _ _ = False"

fun is_poll :: "match_effect \<Rightarrow> bool" where
  "is_poll (Polls _) = True"
| "is_poll _ = False"

definition poll_count :: "match_effect list \<Rightarrow> nat" where
  "poll_count effects = length (filter is_poll effects)"

lemma poll_count_append [simp]: "poll_count (xs @ ys) = poll_count xs + poll_count ys"
  by (simp add: poll_count_def)

lemma completed_left:
  "steps_left (ml_stage (fst (completed e job s))) \<le> 1" "polls_left (ml_stage (fst (completed e job s))) = 0"
  "poll_count (snd (completed e job s)) = 0"
  by (simp_all add: completed_def recalc_fails_def poll_count_def)

lemma fails_left:
  "ml_stage (fst (recalc_fails e reason s)) = None" "poll_count (snd (recalc_fails e reason s)) = 0"
  by (simp_all add: recalc_fails_def poll_count_def)

lemma poll_left:
  "ml_stage (fst (poll n i s)) = Some (Polling n i)" "poll_count (snd (poll n i s)) = 1"
  by (simp_all add: poll_def poll_count_def)

definition makes_progress :: "match_list \<Rightarrow> match_list \<times> match_effect list \<Rightarrow> bool" where
  "makes_progress s z \<longleftrightarrow> steps_left (ml_stage (fst z)) < steps_left (ml_stage s) \<and>
     poll_count (snd z) + polls_left (ml_stage (fst z)) \<le> polls_left (ml_stage s)"

lemma completed_progress: "1 < steps_left (ml_stage s) \<Longrightarrow> makes_progress s (completed e job s)"
  unfolding makes_progress_def using completed_left [of e job s] by linarith

lemma fails_progress: "0 < steps_left (ml_stage s) \<Longrightarrow> makes_progress s (recalc_fails e reason s)"
  by (simp add: makes_progress_def fails_left)

lemma job_progress:
  assumes "stage_ok (ml_stage s)" "awaited (Got_Job job) (ml_stage s)"
  shows "makes_progress s (job_arrives e job s)"
proof -
  consider "ml_stage s = Some Queueing" | n i where "ml_stage s = Some (Polling n i)" "n < 40"
    | "ml_stage s = Some Hook_Waiting"
    using assms by (cases "ml_stage s"; cases "the (ml_stage s)") auto
  then show ?thesis
  proof cases
    case 1
    then have "makes_progress s (completed e job s)" by (intro completed_progress) simp
    moreover have "makes_progress s (poll 0 (job_id job) s)"
      using 1 by (simp add: makes_progress_def poll_left)
    moreover have "makes_progress s (s\<lparr>ml_stage := Some Hook_Waiting\<rparr>, [Wait_Hook (job_id job)])"
      using 1 by (simp add: makes_progress_def poll_count_def)
    ultimately show ?thesis
      using 1 by (simp add: job_arrives_def)
  next
    case 2
    then have "makes_progress s (completed e job s)" by (intro completed_progress) simp
    moreover have "makes_progress s (s\<lparr>ml_stage := Some (Sleeping n i)\<rparr>, [Timer 1500])"
      using 2 by (simp add: makes_progress_def poll_count_def)
    ultimately show ?thesis
      using 2 by (simp add: job_arrives_def)
  next
    case 3
    then have "makes_progress s (completed e job s)" by (intro completed_progress) simp
    with 3 show ?thesis by (simp add: job_arrives_def)
  qed
qed

lemma steps_left_positive: "0 < steps_left (Some stage)"
  by (cases stage) simp_all

lemma awaited_positive: "awaited x stage \<Longrightarrow> 0 < steps_left stage"
  using steps_left_positive by (cases stage) auto

lemma awaited_step:
  assumes ok: "stage_ok (ml_stage s)" and awaited: "awaited x (ml_stage s)"
  shows "makes_progress s (match_step e x s)"
proof (cases x)
  case (Got_Job job)
  with job_progress [OF ok] awaited show ?thesis by simp
next
  case Timer_Fires
  then obtain n i where stage: "ml_stage s = Some (Sleeping n i)"
    using awaited by (cases "ml_stage s"; cases "the (ml_stage s)") auto
  then have "makes_progress s (recalc_fails e (Plain_Error (js ''Recalculation timed out'')) s)"
    by (intro fails_progress) simp
  moreover have "n + 1 < 40 \<Longrightarrow> makes_progress s (poll (n + 1) i s)"
    unfolding makes_progress_def poll_left stage steps_left.simps polls_left.simps by linarith
  ultimately show ?thesis
    using Timer_Fires stage by (simp add: timer_fires_def)
next
  case (Got_Page page)
  then obtain job where "ml_stage s = Some (Reloading job)"
    using awaited by (cases "ml_stage s"; cases "the (ml_stage s)") auto
  with Got_Page show ?thesis
    by (simp add: reload_arrives_def makes_progress_def poll_count_def)
next
  case (Recalc_Throws reason)
  with fails_progress [OF awaited_positive [OF awaited]] awaited show ?thesis
    by (cases "ml_stage s") simp_all
qed (use awaited in simp_all)

text \<open>Other events leave the recalculation where it is.\<close>

fun of_recalculation :: "match_event \<Rightarrow> bool" where
  "of_recalculation Click_More_Matches = False"
| "of_recalculation (More_Matches _) = False"
| "of_recalculation More_Throws = False"
| "of_recalculation _ = True"

lemma other_step:
  assumes "\<not> of_recalculation x"
  shows "ml_stage (fst (match_step e x s)) = ml_stage s" and "poll_count (snd (match_step e x s)) = 0"
  using assms
  by (cases x; auto simp: loadMore_matches_def poll_count_def listing_defs split: option.splits)+

text \<open>
  A run in which every event of the recalculation is one it awaits: answers come only to questions
  and timers fire only when set.
\<close>

fun orderly :: "match_env \<Rightarrow> match_event list \<Rightarrow> match_list \<Rightarrow> bool" where
  "orderly e [] s = True"
| "orderly e (x # xs) s \<longleftrightarrow>
     (of_recalculation x \<longrightarrow> awaited x (ml_stage s)) \<and> orderly e xs (fst (match_step e x s))"

lemma match_run_snd: "snd (match_run e xs (s, out)) = out @ snd (match_run e xs (s, []))"
proof (induction xs arbitrary: s out)
  case (Cons x xs)
  show ?case
    using Cons.IH [of "fst (match_step e x s)" "out @ snd (match_step e x s)"]
      Cons.IH [of "fst (match_step e x s)" "snd (match_step e x s)"] by simp
qed simp

lemma match_run_fst: "fst (match_run e xs (s, out)) = fst (match_run e xs (s, []))"
proof (induction xs arbitrary: s out)
  case (Cons x xs)
  show ?case
    using Cons.IH [of "fst (match_step e x s)" "out @ snd (match_step e x s)"]
      Cons.IH [of "fst (match_step e x s)" "snd (match_step e x s)"] by simp
qed simp

lemma match_run_inv: "match_inv s \<Longrightarrow> match_inv (fst (match_run e xs (s, out)))"
  by (induction xs arbitrary: s out) (simp_all add: match_step_inv)

lemma orderly_run:
  assumes "orderly e xs s" and "match_inv s"
  shows "length (filter of_recalculation xs) + steps_left (ml_stage (fst (match_run e xs (s, [])))) \<le> steps_left (ml_stage s)"
    and "poll_count (snd (match_run e xs (s, []))) \<le> polls_left (ml_stage s)"
proof -
  have "length (filter of_recalculation xs) + steps_left (ml_stage (fst (match_run e xs (s, [])))) \<le> steps_left (ml_stage s) \<and>
      poll_count (snd (match_run e xs (s, []))) + polls_left (ml_stage (fst (match_run e xs (s, [])))) \<le> polls_left (ml_stage s)"
    using assms
  proof (induction xs arbitrary: s)
    case Nil
    show ?case by (simp add: poll_count_def)
  next
    case (Cons x xs)
    let ?t = "fst (match_step e x s)"
    have run: "match_run e (x # xs) (s, []) = match_run e xs (?t, snd (match_step e x s))" by simp
    note IH = Cons.IH [of ?t] and inv = match_step_inv [OF Cons.prems(2), of e x]
    have later: "length (filter of_recalculation xs) + steps_left (ml_stage (fst (match_run e (x # xs) (s, [])))) \<le> steps_left (ml_stage ?t)"
      "poll_count (snd (match_run e xs (?t, []))) + polls_left (ml_stage (fst (match_run e (x # xs) (s, [])))) \<le> polls_left (ml_stage ?t)"
      using IH inv Cons.prems(1) unfolding run match_run_fst [of e xs ?t "snd (match_step e x s)"] by simp_all
    have polls: "poll_count (snd (match_run e (x # xs) (s, []))) =
        poll_count (snd (match_step e x s)) + poll_count (snd (match_run e xs (?t, [])))"
      unfolding run by (subst match_run_snd) simp
    show ?case
    proof (cases "of_recalculation x")
      case True
      then have "makes_progress s (match_step e x s)"
        using Cons.prems by (intro awaited_step) (simp_all add: match_inv_def)
      with later polls True show ?thesis
        unfolding makes_progress_def by (simp del: match_run.simps)
    next
      case False
      with later polls other_step [OF False, of e s] show ?thesis
        by (simp del: match_run.simps)
    qed
  qed
  then show "length (filter of_recalculation xs) + steps_left (ml_stage (fst (match_run e xs (s, [])))) \<le> steps_left (ml_stage s)"
    "poll_count (snd (match_run e xs (s, []))) \<le> polls_left (ml_stage s)" by simp_all
qed

text \<open>
  C9: A recalculation ends: however the reading of pages is interleaved with it, it waits for at
  most 81 answers and timers and polls the job at most 40 times, and after the last of them nothing
  is pending.  While it is pending, there is something it is waiting for.
\<close>

theorem recalculation_ends:
  assumes "match_inv s" and "\<not> ml_pending s"
    and "orderly e xs (fst (match_step e (Click_Recalculate uuid) s))"
    and "match_run e xs (fst (match_step e (Click_Recalculate uuid) s), []) = (r, effects)"
  shows "length (filter of_recalculation xs) \<le> 81 \<and> poll_count effects \<le> 40 \<and>
         (length (filter of_recalculation xs) = 81 \<longrightarrow> \<not> ml_pending r) \<and>
         (ml_pending r \<longrightarrow> (\<exists>x. awaited x (ml_stage r)))"
proof -
  define t where "t = fst (match_step e (Click_Recalculate uuid) s)"
  have run: "match_run e xs (t, []) = (r, effects)"
    using assms(4) by (simp add: t_def)
  have stage: "ml_stage t = Some Queueing"
    using assms(2) by (simp add: recalculate_def t_def)
  have inv: "match_inv t"
    unfolding t_def by (rule match_step_inv [OF assms(1)])
  have bounds: "length (filter of_recalculation xs) + steps_left (ml_stage r) \<le> 81" "poll_count effects \<le> 40"
    using orderly_run [OF assms(3) [folded t_def] inv] unfolding stage run by simp_all
  have pending: "ml_pending r = (ml_stage r \<noteq> None)"
    using match_run_inv [OF inv, of e xs "[]"] unfolding run match_inv_def by simp
  have waiting: "\<exists>x. awaited x (Some st)" for st
  proof (cases st)
    case (Sleeping n i)
    then have "awaited Timer_Fires (Some st)" by simp
    then show ?thesis by blast
  next
    case (Reloading job)
    then have "awaited (Recalc_Throws (Plain_Error [])) (Some st)" by simp
    then show ?thesis by blast
  qed (auto intro: exI [of _ "Got_Job undefined"])
  have "\<not> ml_pending r" if "length (filter of_recalculation xs) = 81"
  proof -
    have "steps_left (ml_stage r) = 0" using bounds(1) that by linarith
    then have "ml_stage r = None" by (metis less_numeral_extra(3) option.exhaust steps_left_positive)
    with pending show ?thesis by simp
  qed
  moreover have "\<exists>x. awaited x (ml_stage r)" if "ml_pending r"
    using that pending waiting by (metis option.exhaust)
  ultimately show ?thesis using bounds by simp
qed

section \<open>Pages and recalculation together\<close>

interpretation ranking: paged_list
  li_items next_cursor li_asked "\<lambda>s. \<not> li_loading s" "\<lambda>s. fst (loadMore_matches e s)" page_arrives
  "page_fails more_matches_error" for e
  by unfold_locales (auto simp: listing_defs loadMore_matches_def split: option.splits)

text \<open>A run without recalculation whose pages are those of the server.\<close>

fun served :: "match_env \<Rightarrow> (jsstring \<Rightarrow> MatchPage) \<Rightarrow> match_event list \<Rightarrow> match_list \<Rightarrow> bool" where
  "served e serve [] s = True"
| "served e serve (x # xs) s \<longleftrightarrow>
     \<not> of_recalculation x \<and> (\<forall>page c. x = More_Matches page \<longrightarrow> li_asked s = Some c \<longrightarrow> page = serve c) \<and>
     served e serve xs (fst (match_step e x s))"

lemma match_step_reads:
  assumes "\<not> of_recalculation x" "\<forall>page c. x = More_Matches page \<longrightarrow> li_asked s = Some c \<longrightarrow> page = serve c"
    and "ranking.reads_list serve all s"
  shows "ranking.reads_list serve all (fst (match_step e x s))"
proof (cases x)
  case Click_More_Matches
  moreover have "ranking.read_step e Ask s = fst (loadMore_matches e s) \<or> fst (loadMore_matches e s) = s"
    unfolding ranking.read_step.simps by (simp add: loadMore_matches_def split: option.split)
  ultimately have "fst (match_step e x s) = s \<or> fst (match_step e x s) = ranking.read_step e Ask s"
    by (cases "shows_more s") auto
  with ranking.reads_list_step [OF assms(3), of Ask e] assms(3) show ?thesis by auto
next
  case (More_Matches page)
  with ranking.reads_list_step [OF assms(3), of "Arrive page" e] assms(2) show ?thesis by simp
next
  case More_Throws
  with ranking.reads_list_step [OF assms(3), of Fail e] show ?thesis by simp
qed (use assms(1) in simp_all)

lemma served_reads:
  "served e serve xs s \<Longrightarrow> ranking.reads_list serve all s \<Longrightarrow>
     ranking.reads_list serve all (fst (match_run e xs (s, out)))"
proof (induction xs arbitrary: s out)
  case (Cons x xs)
  then show ?case
    using match_step_reads [of x s serve all e] by simp
qed simp

text \<open>
  C21: In every run the matches on display change only when a page arrives: the first page of a new
  ranking replaces them, a page that was asked for is added at their end, and no failure of a
  recalculation or of a page removes any; between two recalculations they are a prefix of the
  ranking the server holds.
\<close>

theorem matches_kept:
  "(li_items (fst (match_step e x s)) \<noteq> li_items s \<longrightarrow>
         (\<exists>page. x = Got_Page page \<and> li_items (fst (match_step e x s)) = page_data page) \<or>
         (\<exists>page. x = More_Matches page \<and> li_asked s \<noteq> None \<and>
            li_items (fst (match_step e x s)) = li_items s @ page_data page)) \<and>
   (held serve n (next_cursor t) = Some rest \<longrightarrow> li_asked t = None \<longrightarrow> served e serve xs t \<longrightarrow>
         prefix (li_items (fst (match_run e xs (t, [])))) (li_items t @ rest))"
proof -
  have "(\<exists>page. x = Got_Page page \<and> li_items (fst (match_step e x s)) = page_data page) \<or>
         (\<exists>page. x = More_Matches page \<and> li_asked s \<noteq> None \<and>
            li_items (fst (match_step e x s)) = li_items s @ page_data page)"
    if changed: "li_items (fst (match_step e x s)) \<noteq> li_items s"
  proof (cases x)
    case (Got_Page page)
    with changed show ?thesis
      by (auto simp: reload_arrives_def split: option.splits recalc_stage.splits)
  next
    case (More_Matches page)
    with changed show ?thesis by (auto simp: listing_defs split: if_split_asm)
  next
    case (Got_Job job)
    have "li_items (fst (completed e job s)) = li_items s" "li_items (fst (poll 0 (job_id job) s)) = li_items s"
      by (simp_all add: completed_def recalc_fails_def poll_def)
    with Got_Job changed show ?thesis
      by (auto simp: job_arrives_def split: option.splits recalc_stage.splits if_split_asm)
  next
    case Timer_Fires
    with changed show ?thesis
      by (auto simp: timer_fires_def recalc_fails_def poll_def split: option.splits recalc_stage.splits if_split_asm)
  qed (use changed in \<open>auto simp: recalculate_def recalc_fails_def split: if_split_asm\<close>)
  moreover have "prefix (li_items (fst (match_run e xs (t, [])))) (li_items t @ rest)"
    if "held serve n (next_cursor t) = Some rest" "li_asked t = None" "served e serve xs t"
  proof -
    have "ranking.reads_list serve (li_items t @ rest) t"
      using that by (auto simp: ranking.reads_list_def)
    from ranking.shown_prefix [OF served_reads [OF that(3) this]] show ?thesis .
  qed
  ultimately show ?thesis by blast
qed

text \<open>
  C39: A page that was asked for before a recalculation finishes is added to the new ranking: the
  first page of the new ranking is followed by a later page of the old one, its cursor is lost, and
  its next pages come from the old ranking.
\<close>

theorem old_page_joins_new_ranking:
  assumes "li_asked s \<noteq> None" and "ml_stage s = Some (Reloading job)"
  shows "li_items (fst (match_run e [Got_Page new, More_Matches old] (s, []))) = page_data new @ page_data old \<and>
         next_cursor (fst (match_run e [Got_Page new, More_Matches old] (s, []))) =
           non_empty (pg_next_cursor (page_pagination old))"
  using assms by (simp_all add: reload_arrives_def listing_defs)

section \<open>What a match shows\<close>

text \<open>
  The AI text is shown exactly when it is ready and there, otherwise the deterministic one, so a
  match never lacks an explanation; the breakdown has a row for each of the five dimensions, in their
  order, whatever components the server sent; and a score between 0 and 1 reads as an integer
  between 0 and 100, a larger one never as a smaller integer.
\<close>

theorem match_presentation:
  "px_source (presentExplanation m) = AI_Source \<longleftrightarrow>
     match_explanation_status m = ExplanationReady \<and> match_ai_explanation m \<noteq> None"
  "px_explanation (presentExplanation m) =
     (if px_source (presentExplanation m) = AI_Source then the (match_ai_explanation m)
      else match_deterministic_explanation m)"
  "map sr_label (breakdown m) = map SCORE_LABELS SCORE_DIMENSIONS"
  "0 \<le> v \<Longrightarrow> v \<le> w \<Longrightarrow> w \<le> 1 \<Longrightarrow>
     \<exists>a b. formatScore (Fin v) = js_of_int a @ js '' / 100'' \<and> formatScore (Fin w) = js_of_int b @ js '' / 100'' \<and>
           0 \<le> a \<and> a \<le> b \<and> b \<le> 100"
proof -
  show "px_source (presentExplanation m) = AI_Source \<longleftrightarrow>
     match_explanation_status m = ExplanationReady \<and> match_ai_explanation m \<noteq> None"
    by (simp add: presentExplanation_def split: ExplanationStatus.split option.split)
  show "px_explanation (presentExplanation m) =
     (if px_source (presentExplanation m) = AI_Source then the (match_ai_explanation m)
      else match_deterministic_explanation m)"
    by (simp add: presentExplanation_def split: ExplanationStatus.split option.split)
  have "sr_label (case c of Some c \<Rightarrow> \<lparr>sr_label = l, sr_weight = f c, sr_width = g c, sr_score = h c\<rparr>
      | None \<Rightarrow> \<lparr>sr_label = l, sr_weight = x, sr_width = y, sr_score = z\<rparr>) = l" for c :: "ScoreComponent option" and l f g h x y z
    by (cases c) simp_all
  then show "map sr_label (breakdown m) = map SCORE_LABELS SCORE_DIMENSIONS"
    by (simp add: breakdown_def)
  show "\<exists>a b. formatScore (Fin v) = js_of_int a @ js '' / 100'' \<and> formatScore (Fin w) = js_of_int b @ js '' / 100'' \<and>
      0 \<le> a \<and> a \<le> b \<and> b \<le> 100" if "0 \<le> v" "v \<le> w" "w \<le> 1"
  proof -
    have "math_round (of_int 0) \<le> math_round (v * 100)" "math_round (v * 100) \<le> math_round (w * 100)"
      "math_round (w * 100) \<le> math_round (of_int 100)"
      using that by (intro math_round_mono; simp)+
    moreover have "formatScore (Fin x) = js_of_int (math_round (x * 100)) @ js '' / 100''" for x
      by (simp add: formatScore_def)
    ultimately show ?thesis
      unfolding math_round_of_int by blast
  qed
qed

lemma match_presentation_witness:
  "\<exists>a b. formatScore (Fin (1 / 3)) = js_of_int a @ js '' / 100'' \<and> formatScore (Fin 1) = js_of_int b @ js '' / 100'' \<and>
     0 \<le> a \<and> a \<le> b \<and> b \<le> 100"
  by (rule match_presentation(4)) simp_all

section \<open>Feedback\<close>

record feedback_form =
  ff_useful :: "bool option"
  ff_reason :: "FeedbackReason option"
  ff_pending :: bool
  ff_status :: jsstring

definition initial_feedback :: feedback_form where
  "initial_feedback = \<lparr>ff_useful = None, ff_reason = None, ff_pending = False, ff_status = []\<rparr>"

definition submit_feedback ::
  "jsstring \<Rightarrow> jsstring \<Rightarrow> jsstring \<Rightarrow> feedback_form \<Rightarrow> feedback_form \<times> RequestOptions option list" where
  "submit_feedback scholarshipId details uuid s =
     (case (ff_useful s, ff_reason s) of
        (Some useful, Some reason) \<Rightarrow>
          (s\<lparr>ff_pending := True, ff_status := []\<rparr>,
           [createMatchFeedback scholarshipId
              \<lparr>fb_useful = useful, fb_reason = reason, fb_details = non_empty (Some (trim details))\<rparr>
              (matchIdempotencyKey (js ''match-feedback'') uuid)])
      | _ \<Rightarrow> (s\<lparr>ff_status := js ''Choose whether the explanation was useful and select a reason.''\<rparr>, []))"

definition feedback_settles :: "bool \<Rightarrow> feedback_form \<Rightarrow> feedback_form" where
  "feedback_settles ok s =
     s\<lparr>ff_status := (if ok then js ''Thanks. Your feedback was recorded for review.''
                     else js ''Feedback could not be submitted. Please try again.''),
       ff_pending := False\<rparr>"

datatype feedback_event =
    Choose_Useful bool
  | Choose_Reason "FeedbackReason option"
  | Submit_Feedback jsstring jsstring
  | Feedback_Settles bool

fun feedback_step ::
  "jsstring \<Rightarrow> feedback_event \<Rightarrow> feedback_form \<Rightarrow> feedback_form \<times> RequestOptions option list" where
  "feedback_step i (Choose_Useful b) s = (s\<lparr>ff_useful := Some b\<rparr>, [])"
| "feedback_step i (Choose_Reason r) s = (s\<lparr>ff_reason := r\<rparr>, [])"
| "feedback_step i (Submit_Feedback details uuid) s =
     (if ff_pending s then (s, []) else submit_feedback i details uuid s)"
| "feedback_step i (Feedback_Settles ok) s = (if ff_pending s then feedback_settles ok s else s, [])"

lemma feedback_complete:
  "snd (feedback_step i x s) \<noteq> [] \<Longrightarrow>
     \<exists>useful reason. ff_useful s = Some useful \<and> ff_reason s = Some reason \<and> \<not> ff_pending s"
  by (cases x) (auto simp: submit_feedback_def split: option.splits if_split_asm)

section \<open>Witnesses\<close>

definition sample_env :: match_env where
  "sample_env =
     \<lparr>me_texts = \<lparr>tx_engine = (\<lambda>_. None), tx_date = (\<lambda>_. []), tx_currency = (\<lambda>_ _. None), tx_number = (\<lambda>_. []),
                  tx_moment = (\<lambda>_. js ''today'')\<rparr>, me_number = rounded,
      me_hooks = \<lparr>has_recalculate = False, has_waitForJob = False, has_reload = False, has_loadPage = False\<rparr>,
      me_limit = 20\<rparr>"

definition sample_job :: "JobStatus \<Rightarrow> JobResponse" where
  "sample_job status =
     \<lparr>job_id = js ''j1'', job_status = status, job_created_at = [], job_updated_at = [], job_completed_at = None,
      job_matches_updated_at = None, job_error_code = None\<rparr>"

definition sample_match :: "nat \<Rightarrow> MatchResponse" where
  "sample_match rank =
     \<lparr>match_id = js_of_nat rank, match_rank = rank, match_scholarship = catalogue_entry (js ''a''), match_score = Fin (1 / 2),
      match_confidence = Fin 1, match_score_components = [], match_requirement_evidence = [],
      match_deterministic_explanation =
        \<lparr>expl_why_this_matches = [], expl_what_may_block_you = [], expl_missing_information = [], expl_next_actions = []\<rparr>,
      match_ai_explanation = None, match_reasons = None, match_gaps = None,
      match_explanation_status = ExplanationUnavailable, match_algorithm_version = [],
      match_calculation_status = CalcCurrent, match_stale_reasons = [], match_calculated_at = []\<rparr>"

lemma recalculation_ends_witness:
  "\<exists>xs. length (filter of_recalculation xs) = 3 \<and>
     poll_count (snd (match_run sample_env xs
       (fst (match_step sample_env (Click_Recalculate (js ''u'')) (initial_matches (sample_page []))), []))) \<le> 40"
proof -
  let ?xs = "[Got_Job (sample_job JobQueued), Click_More_Matches, Got_Job (sample_job JobRunning), Timer_Fires]"
  have "orderly sample_env ?xs (fst (match_step sample_env (Click_Recalculate (js ''u'')) (initial_matches (sample_page []))))"
    by (simp add: recalculate_def job_arrives_def finished_def sample_job_def initial_matches_def poll_def sample_env_def
        shows_more_def sample_page_def)
  from recalculation_ends [OF _ _ this prod.collapse [symmetric]]
  have "poll_count (snd (match_run sample_env ?xs
      (fst (match_step sample_env (Click_Recalculate (js ''u'')) (initial_matches (sample_page []))), []))) \<le> 40"
    by (simp only: initial_matches_def match_inv_def) simp
  then show ?thesis by (intro exI [of _ ?xs]) simp
qed

lemma matches_kept_witness:
  "prefix (li_items (fst (match_run sample_env [Click_More_Matches, More_Throws]
     (initial_matches (sample_page [sample_match 1]), [])))) [sample_match 1]"
proof -
  let ?t = "initial_matches (sample_page [sample_match 1])"
  have "next_cursor ?t = None" "li_asked ?t = None" "li_items ?t = [sample_match 1]"
    by (simp_all add: initial_matches_def sample_page_def next_cursor_def non_empty_def)
  then have "held (\<lambda>_. sample_page []) 0 (next_cursor ?t) = Some []" "li_asked ?t = None" "li_items ?t = [sample_match 1]"
    "served sample_env (\<lambda>_. sample_page []) [Click_More_Matches, More_Throws] ?t" by simp_all
  with matches_kept show ?thesis by (metis append_Nil2)
qed

lemma old_page_joins_new_ranking_witness:
  "li_items (fst (match_run sample_env [Got_Page (sample_page [sample_match 1]), More_Matches (sample_page [sample_match 2])]
     ((initial_matches (sample_page []))\<lparr>li_asked := Some (js ''c''), ml_stage := Some (Reloading (sample_job JobCompleted))\<rparr>, []))) =
   [sample_match 1, sample_match 2]"
proof -
  let ?s = "(initial_matches (sample_page []))\<lparr>li_asked := Some (js ''c''), ml_stage := Some (Reloading (sample_job JobCompleted))\<rparr>"
  have "li_asked ?s \<noteq> None" "ml_stage ?s = Some (Reloading (sample_job JobCompleted))" by simp_all
  from old_page_joins_new_ranking [OF this] show ?thesis
    by (simp add: sample_page_def)
qed

end
