(* ===== verification/Auth.thy ===== *)
theory Auth
  imports Routing Api_Client
begin

text \<open>
  Who may see what, and what signing in and up answers: the roles (\<^verbatim>\<open>app/lib/auth/access.ts\<close>), the session
  every private page asks for (\<^verbatim>\<open>server-session.ts\<close>), the normalised failures (\<^verbatim>\<open>errors.ts\<close>), the
  validation of the forms (\<^verbatim>\<open>validate.ts\<close>) and the calls of Supabase behind them (\<^verbatim>\<open>client-actions.ts\<close>).
\<close>

section \<open>Roles and sessions\<close>

datatype WorkspaceRole = Student_Role | Admin_Role | Unknown_Role

text \<open>What is read of a Supabase user; \<open>None\<close> is \<open>undefined\<close>.\<close>

record auth_user =
  au_role :: "json option"
  au_preferred_name :: "json option"
  au_full_name :: "json option"

definition workspaceRole :: "auth_user \<Rightarrow> WorkspaceRole" where
  "workspaceRole user =
     (let role = au_role user
      in if role = None \<or> role = Some JNull \<or> role = Some (JStr (js ''student'')) then Student_Role
         else if role = Some (JStr (js ''admin'')) then Admin_Role
         else Unknown_Role)"

definition canAccessStudentWorkspace :: "auth_user \<Rightarrow> bool" where
  "canAccessStudentWorkspace user \<longleftrightarrow> workspaceRole user = Student_Role"

definition canAccessAdminWorkspace :: "auth_user \<Rightarrow> bool" where
  "canAccessAdminWorkspace user \<longleftrightarrow> workspaceRole user = Admin_Role"

record AuthenticatedSession =
  se_user :: auth_user
  se_accessToken :: jsstring

text \<open>A server function either returns or ends in a redirect.\<close>

datatype 'a served = Returns 'a | Redirects jsstring

text \<open>\<open>user\<close> and \<open>token\<close> are the answers of \<open>getUser\<close> and \<open>getSession\<close>.\<close>

definition currentSession :: "auth_user option \<Rightarrow> jsstring option \<Rightarrow> AuthenticatedSession option" where
  "currentSession user token =
     (case (user, non_empty token) of
        (Some u, Some t) \<Rightarrow> Some \<lparr>se_user = u, se_accessToken = t\<rparr>
      | _ \<Rightarrow> None)"

definition requireAuthenticatedSession ::
  "auth_user option \<Rightarrow> jsstring option \<Rightarrow> jsstring \<Rightarrow> AuthenticatedSession served" where
  "requireAuthenticatedSession user token returnTo =
     (case currentSession user token of
        None \<Rightarrow> Redirects (buildSignInUrl returnTo None)
      | Some session \<Rightarrow> Returns session)"

definition requireStudentSession ::
  "auth_user option \<Rightarrow> jsstring option \<Rightarrow> jsstring \<Rightarrow> AuthenticatedSession served" where
  "requireStudentSession user token returnTo =
     (case requireAuthenticatedSession user token returnTo of
        Redirects p \<Rightarrow> Redirects p
      | Returns session \<Rightarrow>
          if \<not> canAccessStudentWorkspace (se_user session) then Redirects (js ''/access-denied'')
          else Returns session)"

definition requireAdminSession ::
  "auth_user option \<Rightarrow> jsstring option \<Rightarrow> jsstring \<Rightarrow> AuthenticatedSession served" where
  "requireAdminSession user token returnTo =
     (case requireAuthenticatedSession user token returnTo of
        Redirects p \<Rightarrow> Redirects p
      | Returns session \<Rightarrow>
          if \<not> canAccessAdminWorkspace (se_user session) then Redirects (js ''/access-denied'')
          else Returns session)"

definition name_in :: "json option \<Rightarrow> jsstring option" where
  "name_in v = (case v of Some (JStr s) \<Rightarrow> non_empty (Some (trim s)) | _ \<Rightarrow> None)"

definition sessionDisplayName :: "auth_user \<Rightarrow> jsstring \<Rightarrow> jsstring" where
  "sessionDisplayName user fallback =
     or_else (name_in (au_preferred_name user)) (or_else (name_in (au_full_name user)) fallback)"

lemmas session_defs = currentSession_def requireAuthenticatedSession_def requireStudentSession_def requireAdminSession_def
  canAccessStudentWorkspace_def canAccessAdminWorkspace_def workspaceRole_def

section \<open>Failures\<close>

datatype AuthErrorKind =
    Invalid_Credentials
  | Auth_Rate_Limited
  | Auth_Offline
  | Weak_Password
  | Expired_Link
  | Auth_Validation
  | Auth_Unknown

record AuthFailure =
  af_kind :: AuthErrorKind
  af_message :: jsstring
  af_fieldErrors :: "(jsstring, jsstring) dict option"

text \<open>
  What a call throws or answers with: an API error of the SDK with its status and code, another
  error of the SDK, a \<open>TypeError\<close> (\<open>fetch\<close> without a network), or anything else.
\<close>

datatype auth_error =
    Auth_Api_Error "nat option" "jsstring option" jsstring
  | Auth_Error jsstring
  | Type_Error
  | Other_Error

definition failure :: "AuthErrorKind \<Rightarrow> jsstring \<Rightarrow> AuthFailure" where
  "failure kind message = \<lparr>af_kind = kind, af_message = message, af_fieldErrors = None\<rparr>"

definition api_failure :: "nat option \<Rightarrow> jsstring \<Rightarrow> AuthFailure option" where
  "api_failure status code =
     (if status = Some 429 \<or> code = js ''over_request_rate_limit'' \<or> code = js ''over_email_send_rate_limit''
      then Some (failure Auth_Rate_Limited (js ''Too many attempts. Please wait a minute before trying again.''))
      else if code = js ''invalid_credentials'' \<or> status = Some 400
      then Some (failure Invalid_Credentials (js ''That email and password combination is not correct.''))
      else if code = js ''weak_password''
      then Some ((failure Weak_Password (js ''Choose a stronger password with at least 8 characters.''))
        \<lparr>af_fieldErrors := Some [(js ''password'', js ''Choose a stronger password.'')]\<rparr>)
      else if code = js ''otp_expired'' \<or> code = js ''flow_state_expired''
      then Some (failure Expired_Link (js ''That link has expired. Request a new one to continue.''))
      else None)"

definition toAuthFailure :: "auth_error \<Rightarrow> AuthFailure" where
  "toAuthFailure error =
     (case error of
        Auth_Api_Error status code message \<Rightarrow>
          or_else (api_failure status (or_else code [])) (failure Auth_Unknown message)
      | Auth_Error message \<Rightarrow> failure Auth_Unknown message
      | Type_Error \<Rightarrow>
          failure Auth_Offline (js ''You appear to be offline. Check your connection and try again.'')
      | Other_Error \<Rightarrow> failure Auth_Unknown (js ''Something went wrong. Please try again.''))"

section \<open>Validation\<close>

definition MIN_PASSWORD_LENGTH :: nat where
  "MIN_PASSWORD_LENGTH = 8"

text \<open>The pattern of an email address, without blanks: one \<open>@\<close>, and a point inside the part after it.\<close>

definition EMAIL_PATTERN :: "jsstring \<Rightarrow> bool" where
  "EMAIL_PATTERN s =
     (case split_on 0x40 s of
        [l, d] \<Rightarrow> l \<noteq> [] \<and> (\<forall>u \<in> set s. \<not> is_space u) \<and> 0x2E \<in> set (butlast (tl d))
      | _ \<Rightarrow> False)"

definition validateEmail :: "jsstring \<Rightarrow> jsstring option" where
  "validateEmail email =
     (let trimmed = trim email
      in if trimmed = [] then Some (js ''Enter your email address.'')
         else if \<not> EMAIL_PATTERN trimmed then Some (js ''Enter a valid email address.'')
         else None)"

definition validatePassword :: "jsstring \<Rightarrow> jsstring option" where
  "validatePassword password =
     (if password = [] then Some (js ''Enter a password.'')
      else if length password < MIN_PASSWORD_LENGTH
      then Some (js ''Use at least '' @ js_of_nat MIN_PASSWORD_LENGTH @ js '' characters.'')
      else None)"

definition validatePasswordConfirmation :: "jsstring \<Rightarrow> jsstring \<Rightarrow> jsstring option" where
  "validatePasswordConfirmation password confirmation =
     (if confirmation = [] then Some (js ''Re-enter your password.'')
      else if password \<noteq> confirmation then Some (js ''Passwords do not match.'')
      else None)"

section \<open>Calls\<close>

datatype auth_call =
    Sign_Up jsstring jsstring jsstring
  | Sign_In jsstring jsstring
  | Reset_Password jsstring jsstring
  | Update_Password jsstring
  | Resend jsstring jsstring

text \<open>
  The answer of a call: thrown, an error, or success; with success, \<open>signUp\<close> gives the user, if
  any, and the user's identities, if any.
\<close>

datatype auth_reply = Reply_Throws auth_error | Reply_Error auth_error | Reply_Ok "nat option option"

datatype AuthOutcome = Auth_Ok | Auth_Failed AuthFailure

datatype SignUpOutcome = Verification_Sent | Possibly_Existing | Sign_Up_Failed AuthFailure

definition confirmUrl :: "PublicEnv \<Rightarrow> jsstring \<Rightarrow> jsstring" where
  "confirmUrl env next = siteUrl env @ js ''/auth/confirm?'' @ params_string [(js ''next'', next)]"

definition auth_outcome :: "auth_reply \<Rightarrow> AuthOutcome" where
  "auth_outcome reply =
     (case reply of
        Reply_Throws e \<Rightarrow> Auth_Failed (toAuthFailure e)
      | Reply_Error e \<Rightarrow> Auth_Failed (toAuthFailure e)
      | Reply_Ok _ \<Rightarrow> Auth_Ok)"

definition sign_up_outcome :: "auth_reply \<Rightarrow> SignUpOutcome" where
  "sign_up_outcome reply =
     (case reply of
        Reply_Throws e \<Rightarrow> Sign_Up_Failed (toAuthFailure e)
      | Reply_Error e \<Rightarrow> Sign_Up_Failed (toAuthFailure e)
      | Reply_Ok (Some identities) \<Rightarrow>
          if or_else identities 0 = 0 then Possibly_Existing else Verification_Sent
      | Reply_Ok None \<Rightarrow> Verification_Sent)"

text \<open>The actions: the call that goes out; its outcome is the reply through the functions above.\<close>

definition signUp :: "PublicEnv \<Rightarrow> jsstring \<Rightarrow> jsstring \<Rightarrow> auth_call" where
  "signUp env email password = Sign_Up email password (confirmUrl env (js ''/onboarding''))"

definition signIn :: "jsstring \<Rightarrow> jsstring \<Rightarrow> auth_call" where
  "signIn email password = Sign_In email password"

definition requestPasswordReset :: "PublicEnv \<Rightarrow> jsstring \<Rightarrow> auth_call" where
  "requestPasswordReset env email = Reset_Password email (confirmUrl env (js ''/reset-password''))"

definition updatePassword :: "jsstring \<Rightarrow> auth_call" where
  "updatePassword password = Update_Password password"

definition resendVerification :: "PublicEnv \<Rightarrow> jsstring \<Rightarrow> auth_call" where
  "resendVerification env email = Resend email (confirmUrl env (js ''/onboarding''))"

lemmas [js_defs] = workspaceRole_def name_in_def sessionDisplayName_def failure_def api_failure_def toAuthFailure_def
  EMAIL_PATTERN_def validateEmail_def validatePassword_def validatePasswordConfirmation_def MIN_PASSWORD_LENGTH_def
  confirmUrl_def auth_outcome_def sign_up_outcome_def

section \<open>Lemmas\<close>

lemma split_on_one: "split_on d s = [x] \<Longrightarrow> s = x \<and> d \<notin> set s"
proof (induction s arbitrary: x)
  case (Cons u s)
  show ?case
  proof (cases "u = d")
    case True
    with Cons.prems split_on_nonempty [of d s] show ?thesis by simp
  next
    case False
    with Cons.prems obtain y where "split_on d s = [y]" "x = u # y"
      by (auto split: list.splits)
    with Cons.IH False show ?thesis by auto
  qed
qed simp

lemma split_on_two: "split_on d s = [x, y] \<Longrightarrow> s = x @ d # y \<and> d \<notin> set x \<and> d \<notin> set y"
proof (induction s arbitrary: x)
  case (Cons u s)
  show ?case
  proof (cases "u = d")
    case True
    with Cons.prems have "x = []" "split_on d s = [y]" by auto
    with split_on_one [of d s y] True show ?thesis by auto
  next
    case False
    with Cons.prems obtain z where "split_on d s = [z, y]" "x = u # z"
      by (auto split: list.splits)
    with Cons.IH [of z] False show ?thesis by auto
  qed
qed simp

lemma dot_inside: "u \<in> set (butlast (tl d)) \<longleftrightarrow> (\<exists>a b. d = a @ u # b \<and> a \<noteq> [] \<and> b \<noteq> [])"
proof
  assume u: "u \<in> set (butlast (tl d))"
  then obtain x t where d: "d = x # t" by (cases d) auto
  with u have "t \<noteq> []" by auto
  from u d obtain a b where ab: "butlast t = a @ u # b" by (auto simp: in_set_conv_decomp)
  have "d = (x # a) @ u # (b @ [last t])"
    using d ab append_butlast_last_id [OF \<open>t \<noteq> []\<close>] by simp
  then show "\<exists>a b. d = a @ u # b \<and> a \<noteq> [] \<and> b \<noteq> []" by blast
next
  assume "\<exists>a b. d = a @ u # b \<and> a \<noteq> [] \<and> b \<noteq> []"
  then obtain x a b where "d = x # a @ u # b" "b \<noteq> []"
    by (metis append_Cons neq_Nil_conv)
  then show "u \<in> set (butlast (tl d))"
    by (simp add: butlast_append)
qed


lemma access_denied_stays: "\<not> leaves_origin (js ''/access-denied'')"
  by code_simp

lemma require_student_cases:
  "requireStudentSession user token p = Returns s \<Longrightarrow>
     user = Some (se_user s) \<and> token = Some (se_accessToken s) \<and> se_accessToken s \<noteq> [] \<and>
     workspaceRole (se_user s) = Student_Role"
  by (auto simp: session_defs non_empty_Some split: option.splits if_split_asm)

lemma require_admin_cases:
  "requireAdminSession user token p = Returns s \<Longrightarrow>
     user = Some (se_user s) \<and> token = Some (se_accessToken s) \<and> se_accessToken s \<noteq> [] \<and>
     workspaceRole (se_user s) = Admin_Role"
  by (auto simp: session_defs non_empty_Some split: option.splits if_split_asm)

lemma require_redirects:
  "requireStudentSession user token p = Redirects q \<Longrightarrow> q = buildSignInUrl p None \<or> q = js ''/access-denied''"
  "requireAdminSession user token p = Redirects q \<Longrightarrow> q = buildSignInUrl p None \<or> q = js ''/access-denied''"
  by (auto simp: session_defs split: option.splits if_split_asm)

text \<open>
  C5: A private page goes on only with a signed-in user, a token and the role it asks for: a page for
  students never serves an administrator and the other way round, any other claim is denied, and
  without one of these the answer is a redirect that stays on the site.
\<close>

theorem session_gate:
  "(requireStudentSession user token p = Returns s \<longrightarrow>
     token = Some (se_accessToken s) \<and> se_accessToken s \<noteq> [] \<and> workspaceRole (se_user s) = Student_Role \<and>
     requireAdminSession user token q = Redirects (js ''/access-denied'')) \<and>
   (requireAdminSession user token p = Returns s \<longrightarrow>
     token = Some (se_accessToken s) \<and> se_accessToken s \<noteq> [] \<and> workspaceRole (se_user s) = Admin_Role \<and>
     requireStudentSession user token q = Redirects (js ''/access-denied'')) \<and>
   (requireStudentSession user token p = Redirects r \<or> requireAdminSession user token p = Redirects r \<longrightarrow>
     \<not> leaves_origin r)"
proof -
  have student: "token = Some (se_accessToken s) \<and> se_accessToken s \<noteq> [] \<and> workspaceRole (se_user s) = Student_Role \<and>
     requireAdminSession user token q = Redirects (js ''/access-denied'')"
    if "requireStudentSession user token p = Returns s"
  proof -
    note c = require_student_cases [OF that]
    then have "non_empty token = Some (se_accessToken s)" by (simp add: non_empty_Some)
    with c show ?thesis
      by (simp add: requireAdminSession_def requireAuthenticatedSession_def currentSession_def canAccessAdminWorkspace_def)
  qed
  have admin: "token = Some (se_accessToken s) \<and> se_accessToken s \<noteq> [] \<and> workspaceRole (se_user s) = Admin_Role \<and>
     requireStudentSession user token q = Redirects (js ''/access-denied'')"
    if "requireAdminSession user token p = Returns s"
  proof -
    note c = require_admin_cases [OF that]
    then have "non_empty token = Some (se_accessToken s)" by (simp add: non_empty_Some)
    with c show ?thesis
      by (simp add: requireStudentSession_def requireAuthenticatedSession_def currentSession_def canAccessStudentWorkspace_def)
  qed
  have "\<not> leaves_origin r"
    if "requireStudentSession user token p = Redirects r \<or> requireAdminSession user token p = Redirects r"
    using that require_redirects [of user token p r] sign_in_url_stays access_denied_stays by blast
  with student admin show ?thesis by blast
qed

definition sample_admin :: auth_user where
  "sample_admin = \<lparr>au_role = Some (JStr (js ''admin'')), au_preferred_name = None, au_full_name = None\<rparr>"

definition sample_student :: auth_user where
  "sample_student = \<lparr>au_role = None, au_preferred_name = None, au_full_name = Some (JStr (js '' Ada ''))\<rparr>"

lemma session_gate_witness:
  "requireStudentSession (Some sample_admin) (Some (js ''t'')) (js ''/dashboard'') = Redirects (js ''/access-denied'') \<and>
   requireAdminSession (Some sample_student) (Some (js ''t'')) (js ''/admin'') = Redirects (js ''/access-denied'') \<and>
   \<not> leaves_origin (js ''/access-denied'')"
proof -
  have "requireAdminSession (Some sample_admin) (Some (js ''t'')) (js ''/admin'') =
      Returns \<lparr>se_user = sample_admin, se_accessToken = js ''t''\<rparr>"
    "requireStudentSession (Some sample_student) (Some (js ''t'')) (js ''/dashboard'') =
      Returns \<lparr>se_user = sample_student, se_accessToken = js ''t''\<rparr>"
    by (simp_all add: session_defs sample_admin_def sample_student_def non_empty_def js_Cons)
  with session_gate [of "Some sample_admin" "Some (js ''t'')" "js ''/admin''" "\<lparr>se_user = sample_admin, se_accessToken = js ''t''\<rparr>"
      "js ''/dashboard''" "js ''/access-denied''"]
    session_gate [of "Some sample_student" "Some (js ''t'')" "js ''/dashboard''" "\<lparr>se_user = sample_student, se_accessToken = js ''t''\<rparr>"
      "js ''/admin''" "js ''/access-denied''"]
    session_gate [of "Some sample_admin" "Some (js ''t'')" "js ''/dashboard''" undefined undefined "js ''/access-denied''"]
  show ?thesis by simp
qed

text \<open>
  C?: The links in the emails arrive: when Supabase hands the code of a link it has accepted to the
  confirm route together with the \<open>next\<close> the link was built with, the visitor is sent on to the
  onboarding after signing up, and to the new password after asking for a reset; and the proxy lets a
  signed-in visitor through to both.
\<close>

theorem emailed_links_arrive:
  assumes "(n, call) \<in> {(js ''/onboarding'', signUp env email password), (js ''/onboarding'', resendVerification env email),
                        (js ''/reset-password'', requestPasswordReset env email)}"
  shows "(\<exists>query. (call = Sign_Up email password (siteUrl env @ js ''/auth/confirm?'' @ query) \<or>
                 call = Resend email (siteUrl env @ js ''/auth/confirm?'' @ query) \<or>
                 call = Reset_Password email (siteUrl env @ js ''/auth/confirm?'' @ query)) \<and>
           (\<forall>search c. params_get search (js ''next'') = params_get (parse_params query) (js ''next'') \<longrightarrow>
              params_get search (js ''code'') = Some c \<longrightarrow> c \<noteq> [] \<longrightarrow> exchange c \<longrightarrow> confirm_GET exchange verify search = n)) \<and>
         (req_pathname req = n \<longrightarrow> snd (refreshSession auth req) \<noteq> None \<longrightarrow> (\<exists>jar. proxy auth req = Pass jar))"
proof -
  have n: "n = js ''/onboarding'' \<or> n = js ''/reset-password''"
    using assms by auto
  let ?query = "params_string [(js ''next'', n)]"
  have "parse_params ?query = [(js ''next'', n)]"
    using n by (intro parse_params_string) auto
  then have "params_get (parse_params ?query) (js ''next'') = Some n"
    by (simp add: params_get_def)
  moreover have "sanitizeRedirectPath (Some n) DEFAULT_DESTINATION = n"
    using n by (rule disjE) (simp, code_simp)+
  moreover have "call = Sign_Up email password (siteUrl env @ js ''/auth/confirm?'' @ ?query) \<or>
      call = Resend email (siteUrl env @ js ''/auth/confirm?'' @ ?query) \<or>
      call = Reset_Password email (siteUrl env @ js ''/auth/confirm?'' @ ?query)"
    using assms by (auto simp: signUp_def resendVerification_def requestPasswordReset_def confirmUrl_def)
  ultimately have link: "\<exists>query. (call = Sign_Up email password (siteUrl env @ js ''/auth/confirm?'' @ query) \<or>
                 call = Resend email (siteUrl env @ js ''/auth/confirm?'' @ query) \<or>
                 call = Reset_Password email (siteUrl env @ js ''/auth/confirm?'' @ query)) \<and>
           (\<forall>search c. params_get search (js ''next'') = params_get (parse_params query) (js ''next'') \<longrightarrow>
              params_get search (js ''code'') = Some c \<longrightarrow> c \<noteq> [] \<longrightarrow> exchange c \<longrightarrow> confirm_GET exchange verify search = n)"
    by (intro exI [of _ ?query]) (simp add: confirm_GET_def)
  have "\<not> isAuthEntryPath n"
    using n by (rule disjE) (simp, code_simp)+
  then have "req_pathname req = n \<longrightarrow> snd (refreshSession auth req) \<noteq> None \<longrightarrow> (\<exists>jar. proxy auth req = Pass jar)"
    by (cases "refreshSession auth req") (auto simp: proxy_def)
  with link show ?thesis by blast
qed


lemma emailed_links_arrive_witness:
  "\<exists>query. (\<forall>search c. params_get search (js ''next'') = params_get (parse_params query) (js ''next'') \<longrightarrow>
     params_get search (js ''code'') = Some c \<longrightarrow> c \<noteq> [] \<longrightarrow> True \<longrightarrow>
     confirm_GET (\<lambda>_. True) (\<lambda>_ _. False) search = js ''/reset-password'')"
  using emailed_links_arrive [where n = "js ''/reset-password''" and env = "\<lparr>siteUrl = js ''https://s.org'', apiBaseUrl = [],
      supabaseUrl = [], supabaseAnonKey = []\<rparr>" and email = "js ''a@b.c''" and exchange = "\<lambda>_. True" and verify = "\<lambda>_ _. False"
      and password = "[]", OF insertI2 [OF insertI2 [OF insertI1]], THEN conjunct1] by blast

end
