(* ===== verification/Auth_Forms.thy ===== *)
theory Auth_Forms
  imports Auth
begin

text \<open>
  The forms behind the auth pages, \<^verbatim>\<open>app/(auth)\<close>: signing in, signing up, asking for a reset, choosing a
  new password, and the view that sends the confirmation again.
\<close>

section \<open>State\<close>

text \<open>One record holds the state of every form; a form uses the fields its component has.  \<open>fm_submitted\<close> is
  the address the submission in flight has captured.\<close>

record auth_form =
  fm_email :: jsstring
  fm_password :: jsstring
  fm_confirmation :: jsstring
  fm_fieldErrors :: "(jsstring, jsstring) dict"
  fm_failure :: "AuthFailure option"
  fm_pending :: bool
  fm_duplicateNotice :: bool
  fm_sent :: bool
  fm_submitted :: jsstring

definition initial_form :: auth_form where
  "initial_form =
     \<lparr>fm_email = [], fm_password = [], fm_confirmation = [], fm_fieldErrors = [], fm_failure = None,
      fm_pending = False, fm_duplicateNotice = False, fm_sent = False, fm_submitted = []\<rparr>"

datatype form_kind = Sign_In_Form jsstring | Sign_Up_Form | Forgot_Form | Reset_Form

text \<open>What a step does outside the form: a call, a navigation, a refresh.\<close>

datatype form_effect = Calls auth_call | Replace jsstring | Refresh

definition error_entry :: "jsstring \<Rightarrow> jsstring option \<Rightarrow> (jsstring, jsstring) dict" where
  "error_entry field message = (case message of Some m \<Rightarrow> [(field, m)] | None \<Rightarrow> [])"

section \<open>Submitting\<close>

definition form_errors :: "form_kind \<Rightarrow> auth_form \<Rightarrow> (jsstring, jsstring) dict" where
  "form_errors kind s =
     (case kind of
        Sign_In_Form _ \<Rightarrow>
          error_entry (js ''email'') (validateEmail (fm_email s)) @
          error_entry (js ''password'') (if fm_password s = [] then Some (js ''Enter your password.'') else None)
      | Sign_Up_Form \<Rightarrow>
          error_entry (js ''email'') (validateEmail (fm_email s)) @
          error_entry (js ''password'') (validatePassword (fm_password s)) @
          error_entry (js ''confirmation'') (validatePasswordConfirmation (fm_password s) (fm_confirmation s))
      | Forgot_Form \<Rightarrow> error_entry (js ''email'') (validateEmail (fm_email s))
      | Reset_Form \<Rightarrow>
          error_entry (js ''password'') (validatePassword (fm_password s)) @
          error_entry (js ''confirmation'') (validatePasswordConfirmation (fm_password s) (fm_confirmation s)))"

definition form_call :: "PublicEnv \<Rightarrow> form_kind \<Rightarrow> auth_form \<Rightarrow> auth_call" where
  "form_call env kind s =
     (case kind of
        Sign_In_Form _ \<Rightarrow> signIn (trim (fm_email s)) (fm_password s)
      | Sign_Up_Form \<Rightarrow> signUp env (trim (fm_email s)) (fm_password s)
      | Forgot_Form \<Rightarrow> requestPasswordReset env (trim (fm_email s))
      | Reset_Form \<Rightarrow> updatePassword (fm_password s))"

text \<open>A sign-up also takes back the notice of an earlier one.\<close>

definition form_submit :: "PublicEnv \<Rightarrow> form_kind \<Rightarrow> auth_form \<Rightarrow> auth_form \<times> form_effect list" where
  "form_submit env kind s =
     (if fm_pending s then (s, [])
      else (let errors = form_errors kind s; s1 = s\<lparr>fm_fieldErrors := errors\<rparr>
            in if errors \<noteq> [] then (s1, [])
               else (s1\<lparr>fm_failure := None, fm_pending := True,
                        fm_duplicateNotice := (if kind = Sign_Up_Form then False else fm_duplicateNotice s),
                        fm_submitted := trim (fm_email s)\<rparr>,
                     [Calls (form_call env kind s)])))"

section \<open>The answer\<close>

definition form_fails :: "form_kind \<Rightarrow> AuthFailure \<Rightarrow> auth_form \<Rightarrow> auth_form" where
  "form_fails kind f s =
     s\<lparr>fm_failure := Some f,
       fm_fieldErrors := (if kind = Forgot_Form then fm_fieldErrors s else or_else (af_fieldErrors f) (fm_fieldErrors s))\<rparr>"

text \<open>The \<open>finally\<close> runs on every way out, the early returns after a success too.\<close>

definition form_done :: "auth_form \<Rightarrow> auth_form" where
  "form_done s = s\<lparr>fm_pending := False\<rparr>"

definition form_settles :: "form_kind \<Rightarrow> auth_reply \<Rightarrow> auth_form \<Rightarrow> auth_form \<times> form_effect list" where
  "form_settles kind reply s =
     (case kind of
        Sign_In_Form next \<Rightarrow>
          (case auth_outcome reply of
             Auth_Ok \<Rightarrow> (form_done s, [Replace next, Refresh])
           | Auth_Failed f \<Rightarrow> (form_done (form_fails kind f s), []))
      | Sign_Up_Form \<Rightarrow>
          (case sign_up_outcome reply of
             Possibly_Existing \<Rightarrow> (form_done (s\<lparr>fm_duplicateNotice := True\<rparr>), [])
           | Verification_Sent \<Rightarrow>
               (form_done s,
                (case encodeURIComponent (fm_submitted s) of
                   Some e \<Rightarrow> [Replace (js ''/verify-email?email='' @ e)] | None \<Rightarrow> []))
           | Sign_Up_Failed f \<Rightarrow> (form_done (form_fails kind f s), []))
      | Forgot_Form \<Rightarrow>
          (case auth_outcome reply of
             Auth_Ok \<Rightarrow> (form_done (s\<lparr>fm_sent := True\<rparr>), [])
           | Auth_Failed f \<Rightarrow> (form_done (form_fails kind f s), []))
      | Reset_Form \<Rightarrow>
          (case auth_outcome reply of
             Auth_Ok \<Rightarrow> (form_done s, [Replace (js ''/dashboard''), Refresh])
           | Auth_Failed f \<Rightarrow> (form_done (form_fails kind f s), [])))"

datatype form_event =
    Type_Email jsstring
  | Type_Password jsstring
  | Type_Confirmation jsstring
  | Submit_Form
  | Form_Settles auth_reply

fun form_step :: "PublicEnv \<Rightarrow> form_kind \<Rightarrow> form_event \<Rightarrow> auth_form \<Rightarrow> auth_form \<times> form_effect list" where
  "form_step env kind (Type_Email v) s = (s\<lparr>fm_email := v\<rparr>, [])"
| "form_step env kind (Type_Password v) s = (s\<lparr>fm_password := v\<rparr>, [])"
| "form_step env kind (Type_Confirmation v) s = (s\<lparr>fm_confirmation := v\<rparr>, [])"
| "form_step env kind Submit_Form s = form_submit env kind s"
| "form_step env kind (Form_Settles reply) s = (if fm_pending s then form_settles kind reply s else (s, []))"

text \<open>The page of the sign-in form: where it leads and the message of the reason.\<close>

definition sign_in_next :: "params \<Rightarrow> jsstring" where
  "sign_in_next search = sanitizeRedirectPath (params_get search (js ''next'')) DEFAULT_DESTINATION"

definition REASON_MESSAGES :: "(jsstring, jsstring) dict" where
  "REASON_MESSAGES =
     [(js ''session-expired'', js ''Your session expired. Please sign in again to continue.''),
      (js ''link-invalid'', js ''That link is invalid or has expired. Please sign in.'')]"

definition reasonMessage :: "params \<Rightarrow> jsstring option" where
  "reasonMessage search =
     (case non_empty (params_get search (js ''reason'')) of Some r \<Rightarrow> map_of REASON_MESSAGES r | None \<Rightarrow> None)"

section \<open>The recovery session and the confirmation sent again\<close>

datatype SessionState = Checking_Session | Session_Ready | No_Session

text \<open>\<open>check\<close> is what the probe answered, nothing when it threw; an unmounted form ignores it.\<close>

definition session_checked :: "bool \<Rightarrow> bool option \<Rightarrow> SessionState \<Rightarrow> SessionState" where
  "session_checked active check s =
     (if active then (if check = Some True then Session_Ready else No_Session) else s)"

record resend_view =
  rv_pending :: bool
  rv_notice :: "(bool \<times> jsstring) option"

definition handleResend :: "PublicEnv \<Rightarrow> jsstring \<Rightarrow> resend_view \<Rightarrow> resend_view \<times> auth_call list" where
  "handleResend env email s =
     (if rv_pending s \<or> email = [] then (s, [])
      else (s\<lparr>rv_notice := None, rv_pending := True\<rparr>, [resendVerification env email]))"

definition resend_settles :: "auth_reply \<Rightarrow> resend_view \<Rightarrow> resend_view" where
  "resend_settles reply s =
     s\<lparr>rv_notice := Some (case auth_outcome reply of
                            Auth_Ok \<Rightarrow> (True, js ''We'' @ [0x27] @ js ''ve sent another link.'')
                          | Auth_Failed f \<Rightarrow> (False, af_message f)),
       rv_pending := False\<rparr>"

section \<open>Properties\<close>

fun call_checked :: "auth_call \<Rightarrow> bool" where
  "call_checked (Sign_Up email password _) \<longleftrightarrow>
     EMAIL_PATTERN email \<and> trim email = email \<and> MIN_PASSWORD_LENGTH \<le> length password"
| "call_checked (Sign_In email password) \<longleftrightarrow> EMAIL_PATTERN email \<and> trim email = email \<and> password \<noteq> []"
| "call_checked (Reset_Password email _) \<longleftrightarrow> EMAIL_PATTERN email \<and> trim email = email"
| "call_checked (Update_Password password) \<longleftrightarrow> MIN_PASSWORD_LENGTH \<le> length password"
| "call_checked (Resend _ _) \<longleftrightarrow> True"

lemma error_entry_Nil [simp]: "error_entry field message = [] \<longleftrightarrow> message = None"
  by (simp add: error_entry_def split: option.split)

lemma validateEmail_None: "validateEmail email = None \<Longrightarrow> EMAIL_PATTERN (trim email)"
  by (simp add: validateEmail_def Let_def split: if_split_asm)

lemma validatePassword_None: "validatePassword password = None \<Longrightarrow> MIN_PASSWORD_LENGTH \<le> length password"
  by (simp add: validatePassword_def split: if_split_asm)

lemma confirmation_None: "validatePasswordConfirmation password confirmation = None \<Longrightarrow> confirmation = password"
  by (simp add: validatePasswordConfirmation_def split: if_split_asm)

lemma form_call_checked: "form_errors kind s = [] \<Longrightarrow> call_checked (form_call env kind s)"
  by (cases kind)
    (auto simp: form_errors_def form_call_def signIn_def signUp_def requestPasswordReset_def updatePassword_def
      dest: validateEmail_None validatePassword_None split: if_split_asm)

lemma settles_no_call: "Calls c \<notin> set (snd (form_settles kind reply s))"
  by (cases kind) (auto simp: form_settles_def split: AuthOutcome.split SignUpOutcome.split option.split)

text \<open>
  C18: No auth form sends anything unchecked: a call goes out of a form in whatever state only on a
  submission with nothing in flight, with a trimmed address of the right shape, a password of eight
  characters or more where one is chosen and its repetition equal to it; and no form leads off the
  site, the sign-in form included, whatever destination its URL asks for.
\<close>

theorem auth_forms_checked:
  "(Calls c \<in> set (snd (form_step env kind x s)) \<longrightarrow>
     x = Submit_Form \<and> \<not> fm_pending s \<and> call_checked c \<and>
     (kind \<in> {Sign_Up_Form, Reset_Form} \<longrightarrow> fm_confirmation s = fm_password s) \<and>
     form_step env kind Submit_Form (fst (form_step env kind x s)) = (fst (form_step env kind x s), [])) \<and>
   (Replace q \<in> set (snd (form_step env kind x s)) \<longrightarrow>
     kind \<in> {Sign_In_Form (sign_in_next search), Sign_Up_Form, Forgot_Form, Reset_Form} \<longrightarrow> \<not> leaves_origin q)"
proof -
  have calls: "x = Submit_Form \<and> \<not> fm_pending s \<and> call_checked c \<and>
     (kind \<in> {Sign_Up_Form, Reset_Form} \<longrightarrow> fm_confirmation s = fm_password s) \<and>
     form_step env kind Submit_Form (fst (form_step env kind x s)) = (fst (form_step env kind x s), [])"
    if call: "Calls c \<in> set (snd (form_step env kind x s))"
  proof -
    from call settles_no_call have x: "x = Submit_Form"
      by (cases x) (auto split: if_split_asm)
    with call have free: "\<not> fm_pending s" and ok: "form_errors kind s = []" and c: "c = form_call env kind s"
      by (auto simp: form_submit_def Let_def split: if_split_asm)
    have "kind \<in> {Sign_Up_Form, Reset_Form} \<longrightarrow> fm_confirmation s = fm_password s"
      using ok confirmation_None by (auto simp: form_errors_def)
    with x free ok c form_call_checked [OF ok, of env] show ?thesis
      by (simp add: form_submit_def Let_def)
  qed
  have "\<not> leaves_origin q"
    if replace: "Replace q \<in> set (snd (form_step env kind x s))"
      and kind: "kind \<in> {Sign_In_Form (sign_in_next search), Sign_Up_Form, Forgot_Form, Reset_Form}"
  proof -
    obtain reply where "Replace q \<in> set (snd (form_settles kind reply s))"
      using replace by (cases x) (auto simp: form_submit_def Let_def split: if_split_asm)
    then consider "kind = Sign_In_Form q" | "q = js ''/dashboard''"
      | e where "q = js ''/verify-email?email='' @ e"
      by (cases kind) (auto simp: form_settles_def split: AuthOutcome.splits SignUpOutcome.splits option.splits)
    then show ?thesis
    proof cases
      case 1
      with kind have "q = sign_in_next search" by auto
      then show ?thesis
        unfolding sign_in_next_def by (simp add: sanitize_stays leaves_origin_default)
    next
      case 2
      with leaves_origin_default show ?thesis by (simp add: DEFAULT_DESTINATION_def)
    next
      case 3
      have "js ''/verify-email?email='' @ e = 0x2F # 0x76 # (js ''erify-email?email='' @ e)"
        by (simp add: js_Cons of_char_unit)
      with 3 show ?thesis by (simp add: visible_path_stays is_slash_def)
    qed
  qed
  with calls show ?thesis by blast
qed

definition sample_public :: PublicEnv where
  "sample_public = \<lparr>siteUrl = js ''https://s.org'', apiBaseUrl = [], supabaseUrl = [], supabaseAnonKey = []\<rparr>"

definition sample_form :: auth_form where
  "sample_form = initial_form\<lparr>fm_email := js '' ada@uni.edu '', fm_password := js ''eightchars'',
     fm_confirmation := js ''eightchars''\<rparr>"

lemma sample_form_valid:
  "validateEmail (js '' ada@uni.edu '') = None" "validatePassword (js ''eightchars'') = None"
  "validatePasswordConfirmation (js ''eightchars'') (js ''eightchars'') = None" "trim (js '' ada@uni.edu '') = js ''ada@uni.edu''"
  by code_simp+

lemma sample_submit:
  "form_submit sample_public kind sample_form =
     (sample_form\<lparr>fm_pending := True, fm_submitted := js ''ada@uni.edu''\<rparr>, [Calls (form_call sample_public kind sample_form)])"
  by (cases kind) (simp_all add: form_submit_def form_errors_def sample_form_def initial_form_def error_entry_def sample_form_valid)

lemma auth_forms_checked_witness:
  "call_checked (form_call sample_public Sign_Up_Form sample_form) \<and>
   \<not> leaves_origin (sign_in_next [(js ''next'', js ''//evil.org'')])"
proof
  have "Calls (form_call sample_public Sign_Up_Form sample_form) \<in> set (snd (form_step sample_public Sign_Up_Form Submit_Form sample_form))"
    by (simp add: sample_submit)
  then show "call_checked (form_call sample_public Sign_Up_Form sample_form)" using auth_forms_checked by blast
  let ?kind = "Sign_In_Form (sign_in_next [(js ''next'', js ''//evil.org'')])"
  have "Replace (sign_in_next [(js ''next'', js ''//evil.org'')]) \<in>
      set (snd (form_step sample_public ?kind (Form_Settles (Reply_Ok None)) (sample_form\<lparr>fm_pending := True\<rparr>)))"
    by (simp add: form_settles_def auth_outcome_def)
  then show "\<not> leaves_origin (sign_in_next [(js ''next'', js ''//evil.org'')])"
    using auth_forms_checked by blast
qed

text \<open>
  The sign-up form tells registered addresses from new ones: the same valid submission ends with a
  notice on the page when Supabase's reply is that of a registered address, and with a navigation to
  the page that asks to confirm the address when it is new.
\<close>

theorem sign_up_tells_accounts_apart:
  assumes "fm_pending s" and "encodeURIComponent (fm_submitted s) = Some e" and "0 < n"
  shows "form_step env Sign_Up_Form (Form_Settles (Reply_Ok (Some (Some 0)))) s =
           (s\<lparr>fm_duplicateNotice := True, fm_pending := False\<rparr>, [])"
    and "form_step env Sign_Up_Form (Form_Settles (Reply_Ok (Some (Some n)))) s =
           (s\<lparr>fm_pending := False\<rparr>, [Replace (js ''/verify-email?email='' @ e)])"
  using assms by (simp_all add: form_settles_def sign_up_outcome_def or_else_def form_done_def)

lemma sign_up_tells_accounts_apart_witness:
  "snd (form_step sample_public Sign_Up_Form (Form_Settles (Reply_Ok (Some (Some 0)))) (fst (form_submit sample_public Sign_Up_Form sample_form))) = [] \<and>
   snd (form_step sample_public Sign_Up_Form (Form_Settles (Reply_Ok (Some (Some 1)))) (fst (form_submit sample_public Sign_Up_Form sample_form))) =
     [Replace (js ''/verify-email?email=ada%40uni.edu'')]"
proof -
  let ?s = "fst (form_submit sample_public Sign_Up_Form sample_form)"
  have "encodeURIComponent (js ''ada@uni.edu'') = Some (js ''ada%40uni.edu'')" by code_simp
  then have "fm_pending ?s" "encodeURIComponent (fm_submitted ?s) = Some (js ''ada%40uni.edu'')"
    by (simp_all add: sample_submit)
  moreover have "js ''/verify-email?email='' @ js ''ada%40uni.edu'' = js ''/verify-email?email=ada%40uni.edu''"
    by (simp flip: js_append)
  ultimately show ?thesis
    using sign_up_tells_accounts_apart [of ?s "js ''ada%40uni.edu''" 1 sample_public] by simp
qed

text \<open>
  After a sign-in has succeeded and its navigation has begun, the form takes a submission again
  and sends the credentials a second time.
\<close>

theorem sign_in_submits_again:
  assumes "form_submit env (Sign_In_Form next) s = (t, [Calls c])" and "\<not> fm_pending s"
    and "form_step env (Sign_In_Form next) (Form_Settles (Reply_Ok x)) t = (u, effects)"
  shows "effects = [Replace next, Refresh]" and "\<not> fm_pending u"
    and "snd (form_step env (Sign_In_Form next) Submit_Form u) = [Calls c]"
proof -
  have ok: "form_errors (Sign_In_Form next) s = []"
    and t: "t = s\<lparr>fm_fieldErrors := [], fm_failure := None, fm_pending := True, fm_submitted := trim (fm_email s)\<rparr>"
    and c: "c = form_call env (Sign_In_Form next) s"
    using assms(1,2) by (auto simp: form_submit_def Let_def split: if_split_asm)
  have u: "u = form_done t" and effects: "effects = [Replace next, Refresh]"
    using assms(3) t by (simp_all add: form_settles_def auth_outcome_def)
  then show "effects = [Replace next, Refresh]" "\<not> fm_pending u"
    by (simp_all add: form_done_def)
  have "form_errors (Sign_In_Form next) u = []" "form_call env (Sign_In_Form next) u = c"
    using ok c u t by (simp_all add: form_errors_def form_call_def form_done_def)
  with u show "snd (form_step env (Sign_In_Form next) Submit_Form u) = [Calls c]"
    by (simp add: form_submit_def form_done_def Let_def)
qed

lemma sign_in_submits_again_witness:
  "\<exists>u c. snd (form_step sample_public (Sign_In_Form (js ''/dashboard'')) Submit_Form u) = [Calls c] \<and> \<not> fm_pending u"
proof -
  let ?k = "Sign_In_Form (js ''/dashboard'')"
  obtain u effects where u: "form_step sample_public ?k (Form_Settles (Reply_Ok None))
      (sample_form\<lparr>fm_pending := True, fm_submitted := js ''ada@uni.edu''\<rparr>) = (u, effects)" by (metis surj_pair)
  have "\<not> fm_pending sample_form" by (simp add: sample_form_def initial_form_def)
  from sign_in_submits_again(2,3) [OF sample_submit this u] show ?thesis by blast
qed

text \<open>An address that is not confirmed yet reads as wrong credentials (Supabase answers 400).\<close>

lemma unconfirmed_reads_as_wrong:
  "toAuthFailure (Auth_Api_Error (Some 400) (Some (js ''email_not_confirmed'')) m) =
     failure Invalid_Credentials (js ''That email and password combination is not correct.'')"
  by (simp add: toAuthFailure_def api_failure_def or_else_def)

end
