(* ===== verification/Dashboard.thy ===== *)
theory Dashboard
  imports Auth Matches Onboarding_Model
begin

text \<open>
  The dashboard: how complete a profile is (\<^verbatim>\<open>app/lib/profile/completeness.ts\<close>), the view model with the
  urgent deadlines, the recent matches and the next action (\<^verbatim>\<open>app/lib/dashboard/model.ts\<close>), and the loads
  of the dashboard and the profile page (\<^verbatim>\<open>dashboard/server.ts\<close>, \<^verbatim>\<open>profile/server.ts\<close>).
\<close>

section \<open>Completeness\<close>

record CompletenessFact =
  cf_id :: jsstring
  cf_label :: jsstring
  cf_complete :: bool

record ProfileCompleteness =
  pc_percent :: int
  pc_completed :: nat
  pc_total :: nat
  pc_facts :: "CompletenessFact list"
  pc_missing :: "CompletenessFact list"

definition profile_facts :: "ProfileResponse \<Rightarrow> CompletenessFact list" where
  "profile_facts profile =
     [\<lparr>cf_id = js ''full_name'', cf_label = js ''Name'', cf_complete = trim (pr_full_name profile) \<noteq> []\<rparr>,
      \<lparr>cf_id = js ''country'', cf_label = js ''Country'', cf_complete = length (trim (pr_country profile)) = 2\<rparr>,
      \<lparr>cf_id = js ''study_level'', cf_label = js ''Study level'', cf_complete = study_level_name (pr_study_level profile) \<noteq> []\<rparr>,
      \<lparr>cf_id = js ''field_of_study'', cf_label = js ''Field of study'',
       cf_complete = non_empty (map_option trim (pr_field_of_study profile)) \<noteq> None\<rparr>,
      \<lparr>cf_id = js ''gpa'', cf_label = js ''Academic result'', cf_complete = pr_gpa profile \<noteq> None\<rparr>,
      \<lparr>cf_id = js ''interests'', cf_label = js ''Interests'', cf_complete = pr_interests profile \<noteq> []\<rparr>,
      \<lparr>cf_id = js ''goals'', cf_label = js ''Study goals'',
       cf_complete = non_empty (map_option trim (pr_goals profile)) \<noteq> None\<rparr>]"

definition profileCompleteness :: "ProfileResponse \<Rightarrow> ProfileCompleteness" where
  "profileCompleteness profile =
     (let facts = profile_facts profile; done = length (filter cf_complete facts)
      in \<lparr>pc_percent = math_round (of_nat done / of_nat (length facts) * 100), pc_completed = done,
          pc_total = length facts, pc_facts = facts, pc_missing = filter (\<lambda>f. \<not> cf_complete f) facts\<rparr>)"

section \<open>The view model\<close>

datatype DashboardSource = Matches_Source | Applications_Source

text \<open>The days are \<open>None\<close> for \<open>NaN\<close>, from a deadline that is no date.\<close>

record DashboardDeadline =
  dd_scholarshipId :: jsstring
  dd_title :: jsstring
  dd_provider :: jsstring
  dd_deadline :: jsstring
  dd_daysRemaining :: "int option"
  dd_applicationStatus :: "ApplicationStatus option"

record DashboardNextAction =
  na_eyebrow :: jsstring
  na_title :: jsstring
  na_description :: jsstring
  na_href :: jsstring
  na_label :: jsstring

record DashboardViewModel =
  dv_profile :: ProfileResponse
  dv_completeness :: ProfileCompleteness
  dv_urgentDeadlines :: "DashboardDeadline list"
  dv_recentMatches :: "MatchResponse list"
  dv_activeApplications :: "ApplicationResponse list"
  dv_applicationCounts :: "ApplicationStatus \<Rightarrow> nat"
  dv_nextAction :: DashboardNextAction
  dv_unavailableSources :: "DashboardSource list"

text \<open>
  The engine's reading of dates in forms of its own, and what its sort makes of a list whose
  comparison is not an order (some days are \<open>NaN\<close>).
\<close>

record dash_engine =
  den_date :: "jsstring \<Rightarrow> int option"
  den_order :: "DashboardDeadline list \<Rightarrow> DashboardDeadline list"

definition parseDateOnly :: "dash_engine \<Rightarrow> jsstring \<Rightarrow> int option" where
  "parseDateOnly e v = date_parse (den_date e) (v @ js ''T00:00:00.000Z'')"

text \<open>\<open>Math.ceil\<close> of a number of days.\<close>

definition ceil_days :: "int \<Rightarrow> int" where
  "ceil_days ms = - ((- ms) div DAY_MS)"

definition application_for :: "ApplicationResponse list \<Rightarrow> jsstring \<Rightarrow> ApplicationResponse option" where
  "application_for applications i = map_of (rev (map (\<lambda>a. (app_scholarship_id a, a)) applications)) i"

definition finished_status :: "ApplicationStatus option \<Rightarrow> bool" where
  "finished_status status \<longleftrightarrow>
     status \<in> {Some AppSubmitted, Some AppInterview, Some AppAwarded, Some AppUnsuccessful, Some AppWithdrawn}"

definition deadline_of ::
  "dash_engine \<Rightarrow> ApplicationResponse list \<Rightarrow> int \<Rightarrow> MatchResponse \<Rightarrow> DashboardDeadline list" where
  "deadline_of e applications now m =
     (let s = match_scholarship m
      in case non_empty (sch_deadline s) of
           None \<Rightarrow> []
         | Some deadline \<Rightarrow>
             if sch_status s \<noteq> Published then []
             else (let days = map_option (\<lambda>t. ceil_days (t - utc_day_start now)) (parseDateOnly e deadline);
                       status = map_option app_status (application_for applications (sch_id s))
                   in if (\<exists>d. days = Some d \<and> (d < 0 \<or> d > 30)) \<or> finished_status status then []
                      else [\<lparr>dd_scholarshipId = sch_id s, dd_title = sch_title s, dd_provider = sch_provider s,
                             dd_deadline = deadline, dd_daysRemaining = days, dd_applicationStatus = status\<rparr>]))"

definition sort_days :: "dash_engine \<Rightarrow> DashboardDeadline list \<Rightarrow> DashboardDeadline list" where
  "sort_days e ds =
     (if \<forall>d \<in> set ds. dd_daysRemaining d \<noteq> None then sort_key (\<lambda>d. the (dd_daysRemaining d)) ds else den_order e ds)"

definition urgentDeadlines ::
  "dash_engine \<Rightarrow> MatchResponse list \<Rightarrow> ApplicationResponse list \<Rightarrow> int \<Rightarrow> DashboardDeadline list" where
  "urgentDeadlines e matches applications now = sort_days e (concat (map (deadline_of e applications now) matches))"

definition calculated :: "dash_engine \<Rightarrow> MatchResponse \<Rightarrow> int option" where
  "calculated e m = date_parse (den_date e) (match_calculated_at m)"

definition recentMatches :: "dash_engine \<Rightarrow> MatchResponse list \<Rightarrow> int \<Rightarrow> MatchResponse list" where
  "recentMatches e matches now =
     sort_key (\<lambda>m. - the (calculated e m))
       (filter (\<lambda>m. case calculated e m of None \<Rightarrow> False | Some t \<Rightarrow> now - t \<le> 14 * DAY_MS \<and> t \<le> now) matches)"

definition activeApplications :: "ApplicationResponse list \<Rightarrow> ApplicationResponse list" where
  "activeApplications applications = filter (\<lambda>a. app_status a = AppSaved \<or> app_status a = AppPreparing) applications"

definition countApplications :: "ApplicationResponse list \<Rightarrow> ApplicationStatus \<Rightarrow> nat" where
  "countApplications applications =
     fold (\<lambda>a counts. counts(app_status a := counts (app_status a) + 1)) applications (\<lambda>_. 0)"

definition deadline_action :: "DashboardDeadline \<Rightarrow> DashboardNextAction" where
  "deadline_action d =
     (let preparing = dd_applicationStatus d = Some AppPreparing
      in \<lparr>na_eyebrow = (if dd_daysRemaining d = Some 0 then js ''Due today'' else js ''Deadline priority''),
          na_title = dd_title d,
          na_description =
            (if preparing then js ''Continue the application with the nearest confirmed deadline.''
             else js ''Review the nearest confirmed deadline before starting an application.''),
          na_href = (if preparing then js ''/applications'' else js ''/scholarships?focus='' @ dd_scholarshipId d),
          na_label = (if preparing then js ''Continue application'' else js ''Review scholarship'')\<rparr>)"

definition chooseNextAction ::
  "ProfileCompleteness \<Rightarrow> DashboardDeadline list \<Rightarrow> MatchResponse list \<Rightarrow> ApplicationResponse list \<Rightarrow>
     DashboardSource list \<Rightarrow> DashboardNextAction" where
  "chooseNextAction completeness deadlines recent active unavailable =
     (if pc_percent completeness < 100
      then \<lparr>na_eyebrow = js ''Best next step'',
            na_title =
              (case pc_missing completeness of
                 [] \<Rightarrow> js ''Complete your profile''
               | f # _ \<Rightarrow> (if cf_label f = [] then js ''Complete your profile''
                            else js ''Add your '' @ lower_ascii (cf_label f))),
            na_description = js ''More current profile facts can improve match confidence and reduce unknown eligibility checks. They do not guarantee eligibility.'',
            na_href = js ''/profile?edit=1'', na_label = js ''Complete profile''\<rparr>
      else (case deadlines of
        d # _ \<Rightarrow> deadline_action d
      | [] \<Rightarrow>
          if active \<noteq> []
          then \<lparr>na_eyebrow = js ''Keep moving'', na_title = js ''Continue an application in progress'',
                na_description = js ''Pick up your most recently updated application and check its remaining tasks.'',
                na_href = js ''/applications'', na_label = js ''View applications''\<rparr>
          else if recent \<noteq> []
          then \<lparr>na_eyebrow = js ''New match activity'', na_title = js ''Review your latest matches'',
                na_description = js ''See the profile facts behind each result and confirm any information marked unknown.'',
                na_href = js ''/matches'', na_label = js ''Review matches''\<rparr>
          else if Matches_Source \<in> set unavailable
          then \<lparr>na_eyebrow = js ''Data needs attention'', na_title = js ''Refresh your match activity'',
                na_description = js ''Match data is temporarily unavailable. Your saved profile has not been changed.'',
                na_href = js ''/dashboard'', na_label = js ''Try again''\<rparr>
          else \<lparr>na_eyebrow = js ''Ready when you are'', na_title = js ''Explore published scholarships'',
                na_description = js ''Browse available opportunities while ScholarMatch prepares profile-based recommendations.'',
                na_href = js ''/scholarships'', na_label = js ''Browse scholarships''\<rparr>))"

definition buildDashboardViewModel ::
  "dash_engine \<Rightarrow> ProfileResponse \<Rightarrow> MatchResponse list \<Rightarrow> ApplicationResponse list \<Rightarrow> DashboardSource list \<Rightarrow>
     int \<Rightarrow> DashboardViewModel" where
  "buildDashboardViewModel e profile matches applications unavailable now =
     (let completeness = profileCompleteness profile;
          urgent = urgentDeadlines e matches applications now;
          recent = recentMatches e matches now;
          active = activeApplications applications
      in \<lparr>dv_profile = profile, dv_completeness = completeness, dv_urgentDeadlines = urgent,
          dv_recentMatches = recent, dv_activeApplications = active,
          dv_applicationCounts = countApplications applications,
          dv_nextAction = chooseNextAction completeness urgent recent active unavailable,
          dv_unavailableSources = unavailable\<rparr>)"

section \<open>Loading\<close>

datatype DashboardLoadState = First_Use | Dashboard_Error jsstring | Dashboard_Ready DashboardViewModel

definition safeLoadMessage :: "thrown \<Rightarrow> jsstring" where
  "safeLoadMessage e =
     (case e of
        Api_Error a \<Rightarrow>
          if err_kind a = Offline
          then js ''ScholarMatch could not reach the profile service. Check your connection and try again.''
          else js ''We couldn'' @ [0x2019] @ js ''t load your profile right now. Your saved information has not been changed.''
      | _ \<Rightarrow> js ''We couldn'' @ [0x2019] @ js ''t load your profile right now. Your saved information has not been changed.'')"

text \<open>
  The three answers, awaited together; the requests go out only after the session was there.  A
  success without a body cannot be read as a page and is a rejection here.
\<close>

definition loadDashboard ::
  "dash_engine \<Rightarrow> auth_user option \<Rightarrow> jsstring option \<Rightarrow> thrown + ProfileResponse option \<Rightarrow> thrown + MatchPage \<Rightarrow>
     thrown + ApplicationPage \<Rightarrow> int \<Rightarrow> RequestOptions list \<times> DashboardLoadState served" where
  "loadDashboard e user token profile matches applications now =
     (case requireStudentSession user token (js ''/dashboard'') of
        Redirects p \<Rightarrow> ([], Redirects p)
      | Returns session \<Rightarrow>
          ([getProfile_options, listMatches \<lparr>po_limit = Some 50, po_cursor = None\<rparr>,
            listApplications \<lparr>po_limit = Some 50, po_cursor = None\<rparr>],
           Returns (case profile of
             Inl reason \<Rightarrow> Dashboard_Error (safeLoadMessage reason)
           | Inr None \<Rightarrow> First_Use
           | Inr (Some p) \<Rightarrow>
               Dashboard_Ready (buildDashboardViewModel e p
                 (case matches of Inr page \<Rightarrow> page_data page | Inl _ \<Rightarrow> [])
                 (case applications of Inr page \<Rightarrow> page_data page | Inl _ \<Rightarrow> [])
                 ((case matches of Inl _ \<Rightarrow> [Matches_Source] | Inr _ \<Rightarrow> []) @
                  (case applications of Inl _ \<Rightarrow> [Applications_Source] | Inr _ \<Rightarrow> [])) now))))"

datatype ProfileLoadState = Profile_Empty | Profile_Error jsstring | Profile_Ready ProfileResponse

definition loadProfile ::
  "auth_user option \<Rightarrow> jsstring option \<Rightarrow> thrown + ProfileResponse option \<Rightarrow> ProfileLoadState served" where
  "loadProfile user token profile =
     (case requireStudentSession user token (js ''/profile'') of
        Redirects p \<Rightarrow> Redirects p
      | Returns session \<Rightarrow>
          Returns (case profile of
             Inr (Some p) \<Rightarrow> Profile_Ready p
           | Inr None \<Rightarrow> Profile_Empty
           | Inl _ \<Rightarrow> Profile_Error
               (js ''We couldn'' @ [0x2019] @ js ''t load your profile right now. Your saved information has not been changed.'')))"

section \<open>Completeness is counted right\<close>

lemma percent_bounds:
  assumes "n \<le> 7"
  shows "0 \<le> math_round (of_nat n / of_nat 7 * 100) \<and> math_round (of_nat n / of_nat 7 * 100) \<le> 100"
    and "math_round (of_nat n / of_nat 7 * 100) = 100 \<longleftrightarrow> n = 7"
proof -
  have "n \<in> {0, 1, 2, 3, 4, 5, 6, 7}" using assms by auto
  moreover have "\<lfloor>1 / 2 :: rat\<rfloor> = 0" "\<lfloor>207 / 14 :: rat\<rfloor> = 14" "\<lfloor>407 / 14 :: rat\<rfloor> = 29" "\<lfloor>607 / 14 :: rat\<rfloor> = 43"
    "\<lfloor>807 / 14 :: rat\<rfloor> = 57" "\<lfloor>1007 / 14 :: rat\<rfloor> = 71" "\<lfloor>1207 / 14 :: rat\<rfloor> = 86" "\<lfloor>201 / 2 :: rat\<rfloor> = 100"
    by (simp_all add: floor_eq_iff)
  ultimately show "0 \<le> math_round (of_nat n / of_nat 7 * 100) \<and> math_round (of_nat n / of_nat 7 * 100) \<le> 100"
    "math_round (of_nat n / of_nat 7 * 100) = 100 \<longleftrightarrow> n = 7"
    by (auto simp: math_round_def)
qed

lemma completeness_simps:
  "pc_total (profileCompleteness p) = 7"
  "pc_completed (profileCompleteness p) = length (filter cf_complete (profile_facts p))"
  "pc_missing (profileCompleteness p) = filter (\<lambda>f. \<not> cf_complete f) (profile_facts p)"
  "pc_percent (profileCompleteness p) =
     math_round (of_nat (length (filter cf_complete (profile_facts p))) / of_nat 7 * 100)"
  by (simp_all add: profileCompleteness_def profile_facts_def Let_def)

lemma completed_and_missing:
  "length (filter cf_complete (profile_facts p)) + length (filter (\<lambda>f. \<not> cf_complete f) (profile_facts p)) = 7"
  using sum_length_filter_compl [of cf_complete "profile_facts p"] by (simp add: profile_facts_def)

text \<open>
  The completeness of a profile is a percentage of seven facts: it lies between 0 and 100, it is
  100 exactly when nothing is missing, and the facts counted and the facts missing add up; so the
  next action for a profile below 100 always names a missing fact.
\<close>

theorem completeness_percent:
  "0 \<le> pc_percent (profileCompleteness p) \<and> pc_percent (profileCompleteness p) \<le> 100"
  "pc_percent (profileCompleteness p) = 100 \<longleftrightarrow> pc_missing (profileCompleteness p) = []"
  "pc_completed (profileCompleteness p) + length (pc_missing (profileCompleteness p)) = pc_total (profileCompleteness p)"
  "pc_percent (profileCompleteness p) < 100 \<Longrightarrow>
     \<exists>f \<in> set (profile_facts p). \<not> cf_complete f \<and>
       na_title (chooseNextAction (profileCompleteness p) ds ms as us) = js ''Add your '' @ lower_ascii (cf_label f)"
proof -
  let ?n = "length (filter cf_complete (profile_facts p))"
  have n: "?n \<le> 7" using completed_and_missing [of p] by linarith
  show "0 \<le> pc_percent (profileCompleteness p) \<and> pc_percent (profileCompleteness p) \<le> 100"
    unfolding completeness_simps by (rule percent_bounds [OF n])
  show full: "pc_percent (profileCompleteness p) = 100 \<longleftrightarrow> pc_missing (profileCompleteness p) = []"
    unfolding completeness_simps percent_bounds(2) [OF n] using completed_and_missing [of p]
    by (metis add_cancel_right_right length_0_conv)
  show "pc_completed (profileCompleteness p) + length (pc_missing (profileCompleteness p)) = pc_total (profileCompleteness p)"
    unfolding completeness_simps by (rule completed_and_missing)
  show "\<exists>f \<in> set (profile_facts p). \<not> cf_complete f \<and>
       na_title (chooseNextAction (profileCompleteness p) ds ms as us) = js ''Add your '' @ lower_ascii (cf_label f)"
    if low: "pc_percent (profileCompleteness p) < 100"
  proof -
    obtain f fs where missing: "pc_missing (profileCompleteness p) = f # fs"
      using low full by (cases "pc_missing (profileCompleteness p)") auto
    then have "f \<in> set (filter (\<lambda>f. \<not> cf_complete f) (profile_facts p))"
      unfolding completeness_simps by simp
    moreover have "\<forall>f \<in> set (profile_facts p). cf_label f \<noteq> []"
      by (simp add: profile_facts_def)
    ultimately show ?thesis
      using low missing by (intro bexI [of _ f]) (auto simp: chooseNextAction_def)
  qed
qed

section \<open>Urgent deadlines are the open ones\<close>

lemma seconds_00_000: "read_seconds (js '':00.000Z'') = Some (0, js ''Z'')"
proof -
  have "milliseconds (js ''000'') = Some 0" "js ''.000Z'' = 0x2E # js ''000Z''"
    "takeWhile (\<lambda>v. digit v \<noteq> None) (js ''000Z'') = js ''000''" "dropWhile (\<lambda>v. digit v \<noteq> None) (js ''000Z'') = js ''Z''"
    by code_simp+
  then have "read_fraction (js ''.000Z'') = Some (0, js ''Z'')" by (simp add: read_fraction_def)
  moreover have "js '':00.000Z'' = 0x3A # js ''00.000Z''" "read_digits 2 (js ''00.000Z'') = Some (0, js ''.000Z'')"
    by code_simp+
  ultimately show ?thesis by (simp add: read_seconds_def)
qed

lemma start_of_day:
  assumes "read_date d = Some (day, [])"
  shows "parseDateOnly e d = Some (day * DAY_MS)"
proof -
  let ?t = "js ''T00:00:00.000Z''"
  have "expect 0x54 ?t = Some (js ''00:00:00.000Z'')" by code_simp
  moreover have "read_digits 2 (js ''00:00:00.000Z'') = Some (0, js '':00:00.000Z'')" by code_simp
  moreover have "expect 0x3A (js '':00:00.000Z'') = Some (js ''00:00.000Z'')" by code_simp
  moreover have "read_digits 2 (js ''00:00.000Z'') = Some (0, js '':00.000Z'')" by code_simp
  moreover note seconds_00_000
  moreover have "read_zone (js ''Z'') = Some 0" by code_simp
  moreover have "?t \<noteq> []" by simp
  ultimately have "iso_time (d @ ?t) = Some (day * DAY_MS + (3600000 * 0 + 60000 * 0 + 0) - 0)"
    using read_date_append [OF assms, of ?t]
    by (simp only: iso_time_def append_Nil Option.bind.simps prod.case if_False) simp
  then show ?thesis
    by (simp add: parseDateOnly_def date_parse_def)
qed

lemma days_left: "ceil_days (day * DAY_MS - utc_day_start now) = day - now div DAY_MS"
proof -
  have "- (day * DAY_MS - now div DAY_MS * DAY_MS) = (now div DAY_MS - day) * DAY_MS"
    by (simp add: left_diff_distrib)
  moreover have "(now div DAY_MS - day) * DAY_MS div DAY_MS = now div DAY_MS - day"
    by (rule nonzero_mult_div_cancel_right) (simp add: DAY_MS_def)
  ultimately show ?thesis
    by (simp add: ceil_days_def utc_day_start_def)
qed

lemma still_open: "now < (day + 1) * DAY_MS \<longleftrightarrow> 0 \<le> day - now div DAY_MS"
proof -
  have "now = DAY_MS * (now div DAY_MS) + now mod DAY_MS" "0 \<le> now mod DAY_MS" "now mod DAY_MS < DAY_MS"
    by (simp_all add: DAY_MS_def)
  then show ?thesis
    unfolding DAY_MS_def by (auto simp: algebra_simps)
qed

lemma calendar_deadline:
  assumes "sch_deadline s = Some d" and "read_date d = Some (day, [])"
  shows "non_empty (sch_deadline s) = Some d"
    and "deadlineState engine (sch_deadline s) (sch_status s) now = Open_Deadline \<longleftrightarrow>
           sch_status s = Published \<and> 0 \<le> day - now div DAY_MS"
proof -
  have "read_date [] = None" by code_simp
  with assms show ne: "non_empty (sch_deadline s) = Some d"
    by (auto simp: non_empty_def split: list.split)
  show "deadlineState engine (sch_deadline s) (sch_status s) now = Open_Deadline \<longleftrightarrow>
      sch_status s = Published \<and> 0 \<le> day - now div DAY_MS"
  proof (cases "sch_status s")
    case Published
    then show ?thesis
      using assms ne by (simp add: deadlineState_def end_of_day still_open [symmetric] not_less) (simp add: DAY_MS_def; linarith)
  qed (simp add: deadlineState_def)
qed

text \<open>The reference: the open scholarships of the next 30 days without a finished application, by day.\<close>

definition due_day :: "MatchResponse \<Rightarrow> int" where
  "due_day m = (case sch_deadline (match_scholarship m) of
     Some d \<Rightarrow> (case read_date d of Some (day, _) \<Rightarrow> day | None \<Rightarrow> 0) | None \<Rightarrow> 0)"

definition status_for :: "ApplicationResponse list \<Rightarrow> MatchResponse \<Rightarrow> ApplicationStatus option" where
  "status_for applications m = map_option app_status (application_for applications (sch_id (match_scholarship m)))"

definition open_soon :: "(jsstring \<Rightarrow> int option) \<Rightarrow> ApplicationResponse list \<Rightarrow> int \<Rightarrow> MatchResponse \<Rightarrow> bool" where
  "open_soon engine applications now m \<longleftrightarrow>
     sch_deadline (match_scholarship m) \<noteq> None \<and>
     deadlineState engine (sch_deadline (match_scholarship m)) (sch_status (match_scholarship m)) now = Open_Deadline \<and>
     due_day m - now div DAY_MS \<le> 30 \<and> \<not> finished_status (status_for applications m)"

definition deadline_entry :: "ApplicationResponse list \<Rightarrow> int \<Rightarrow> MatchResponse \<Rightarrow> DashboardDeadline" where
  "deadline_entry applications now m =
     \<lparr>dd_scholarshipId = sch_id (match_scholarship m), dd_title = sch_title (match_scholarship m),
      dd_provider = sch_provider (match_scholarship m), dd_deadline = the (sch_deadline (match_scholarship m)),
      dd_daysRemaining = Some (due_day m - now div DAY_MS), dd_applicationStatus = status_for applications m\<rparr>"

text \<open>A deadline is a calendar date, as the contract has it (\<open>format: date\<close>).\<close>

definition calendar :: "MatchResponse \<Rightarrow> bool" where
  "calendar m \<longleftrightarrow> (case sch_deadline (match_scholarship m) of
     None \<Rightarrow> True | Some d \<Rightarrow> \<exists>day. read_date d = Some (day, []))"

lemma deadline_of_entry:
  assumes "calendar m"
  shows "deadline_of e applications now m =
    (if open_soon engine applications now m then [deadline_entry applications now m] else [])"
proof (cases "sch_deadline (match_scholarship m)")
  case None
  then show ?thesis by (simp add: deadline_of_def open_soon_def non_empty_def)
next
  case (Some d)
  then obtain day where day: "read_date d = Some (day, [])"
    using assms by (auto simp: calendar_def)
  then have due: "due_day m = day" using Some by (simp add: due_day_def)
  note facts = calendar_deadline [OF Some day]
  show ?thesis
  proof (cases "sch_status (match_scholarship m) = Published")
    case True
    with facts(1) facts(2) [of engine now] Some show ?thesis
      by (auto simp: deadline_of_def open_soon_def deadline_entry_def start_of_day [OF day] days_left due status_for_def Let_def)
  next
    case False
    with facts(1) facts(2) [of engine now] show ?thesis
      by (simp add: deadline_of_def open_soon_def)
  qed
qed

lemma concat_map_filter: "concat (map (\<lambda>x. if P x then [f x] else []) xs) = map f (filter P xs)"
  by (induction xs) simp_all

text \<open>
  C15: The urgent deadlines are, in the order of their days and stably, the matches whose scholarship
  is open by the rule of the scholarship pages, due within 30 days and without an application that is
  past its submission: the two rules of the code for an open deadline agree on calendar dates, at
  every moment.
\<close>

theorem urgent_deadlines_are_open:
  assumes "\<forall>m \<in> set matches. calendar m"
  shows "urgentDeadlines e matches applications now =
     sort_key (\<lambda>d. the (dd_daysRemaining d))
       (map (deadline_entry applications now) (filter (open_soon engine applications now) matches))"
proof -
  let ?ds = "map (deadline_entry applications now) (filter (open_soon engine applications now) matches)"
  have "map (deadline_of e applications now) matches =
      map (\<lambda>m. if open_soon engine applications now m then [deadline_entry applications now m] else []) matches"
    using assms deadline_of_entry by simp
  then have "concat (map (deadline_of e applications now) matches) = ?ds"
    by (simp only: concat_map_filter)
  moreover have "\<forall>d \<in> set ?ds. dd_daysRemaining d \<noteq> None"
    by (auto simp: deadline_entry_def)
  ultimately show ?thesis
    unfolding urgentDeadlines_def sort_days_def by simp
qed

section \<open>Onboarding and the dashboard\<close>

text \<open>
  A student who keeps the results of the questionnaire private or does not know them never sees a
  deadline as the next action: the profile that is sent has no GPA, so it stays below 100 percent and
  the next action is to complete it, even with a deadline due today.
\<close>

theorem private_results_hide_deadlines:
  assumes "draftToProfileWrite draft = Some w" and "\<forall>v. gpa draft \<noteq> Some (Provided (Some v))"
    and "pr_gpa profile = pw_gpa w"
  shows "na_href (dv_nextAction (buildDashboardViewModel e profile matches applications unavailable now)) =
           js ''/profile?edit=1''"
proof -
  have "pr_gpa profile = None"
    using assms by (auto simp: draftToProfileWrite_def split: option.splits Disclosure.splits if_split_asm)
  then have "pc_missing (profileCompleteness profile) \<noteq> []"
    unfolding completeness_simps by (auto simp: profile_facts_def filter_empty_conv)
  moreover have low: "pc_percent (profileCompleteness profile) = 100 \<longleftrightarrow> pc_missing (profileCompleteness profile) = []"
    "pc_percent (profileCompleteness profile) \<le> 100"
    using percent_bounds [of "length (filter cf_complete (profile_facts profile))"] completed_and_missing [of profile]
    unfolding completeness_simps by (auto simp flip: length_0_conv)
  ultimately have "pc_percent (profileCompleteness profile) < 100" by auto
  then show ?thesis
    by (simp add: buildDashboardViewModel_def chooseNextAction_def Let_def)
qed


text \<open>The link of a deadline asks to focus a scholarship; the catalogue reads no such parameter.\<close>

lemma focus_is_not_read:
  "parseScholarshipFilters [(js ''focus'', One i)] = parseScholarshipFilters []"
  by (simp add: parse_values read_values_def TEXT_KEYS_def text_value_def choice_value_def)

lemma countApplications_length: "countApplications applications st = length (filter (\<lambda>a. app_status a = st) applications)"
proof -
  have "fold (\<lambda>a counts. counts(app_status a := counts (app_status a) + 1)) xs c st =
      c st + length (filter (\<lambda>a. app_status a = st) xs)" for xs and c :: "ApplicationStatus \<Rightarrow> nat"
    by (induction xs arbitrary: c) auto
  from this [of applications "\<lambda>_. 0"] show ?thesis by (simp add: countApplications_def)
qed

section \<open>Witnesses\<close>

definition sample_profile :: "number option \<Rightarrow> ProfileResponse" where
  "sample_profile v =
     \<lparr>pr_id = js ''p'', pr_full_name = js ''Ada'', pr_country = js ''BW'', pr_study_level = LevelPostgraduate,
      pr_field_of_study = None, pr_gpa = v, pr_interests = [], pr_goals = None, pr_created_at = [], pr_updated_at = []\<rparr>"

definition sample_engine :: dash_engine where
  "sample_engine = \<lparr>den_date = (\<lambda>_. None), den_order = (\<lambda>ds. ds)\<rparr>"

definition due_match :: "jsstring \<Rightarrow> jsstring \<Rightarrow> MatchResponse" where
  "due_match i deadline =
     (sample_match 1)\<lparr>match_scholarship := (catalogue_entry i)\<lparr>sch_deadline := Some deadline\<rparr>\<rparr>"

lemma completeness_percent_witness:
  "\<exists>f \<in> set (profile_facts (sample_profile None)). \<not> cf_complete f \<and>
     na_title (chooseNextAction (profileCompleteness (sample_profile None)) [] [] [] []) = js ''Add your '' @ lower_ascii (cf_label f)"
proof -
  have "pc_missing (profileCompleteness (sample_profile None)) \<noteq> []"
    unfolding completeness_simps by (simp add: profile_facts_def sample_profile_def)
  then have "pc_percent (profileCompleteness (sample_profile None)) < 100"
    using completeness_percent(1,2) [of "sample_profile None"] by linarith
  from completeness_percent(4) [OF this] show ?thesis .
qed

lemma urgent_deadlines_are_open_witness:
  "map dd_scholarshipId (urgentDeadlines sample_engine [due_match (js ''b'') (js ''2026-04-09''), due_match (js ''a'') (js ''2026-03-31'')]
     [] 1774999999000) = [js ''a'', js ''b'']"
proof -
  let ?ms = "[due_match (js ''b'') (js ''2026-04-09''), due_match (js ''a'') (js ''2026-03-31'')]"
  have days: "read_date (js ''2026-03-31'') = Some (20543, [])" "read_date (js ''2026-04-09'') = Some (20552, [])"
    by code_simp+
  then have "\<forall>m \<in> set ?ms. calendar m"
    by (simp add: calendar_def due_match_def)
  note urgent = urgent_deadlines_are_open [OF this, of sample_engine "[]" 1774999999000 "\<lambda>_. None"]
  have "open_soon (\<lambda>_. None) [] 1774999999000 (due_match i d) \<longleftrightarrow> day - 20543 \<in> {0..30}"
    if "read_date d = Some (day, [])" for i d day
  proof -
    let ?s = "match_scholarship (due_match i d)"
    have "sch_deadline ?s = Some d" "sch_status ?s = Published"
      by (simp_all add: due_match_def catalogue_entry_def)
    with calendar_deadline(2) [OF this(1) that, of "\<lambda>_. None" 1774999999000] that show ?thesis
      by (simp add: open_soon_def due_day_def status_for_def application_for_def finished_status_def DAY_MS_def)
  qed
  with urgent days show ?thesis
    by (simp add: deadline_entry_def due_day_def due_match_def catalogue_entry_def)
qed

lemma private_results_hide_deadlines_witness:
  "\<exists>draft w. draftToProfileWrite draft = Some w \<and>
     na_href (dv_nextAction (buildDashboardViewModel sample_engine (sample_profile (pw_gpa w))
       [due_match (js ''a'') (js ''2026-03-31'')] [] [] 1774999999000)) = js ''/profile?edit=1''"
proof -
  let ?d = "example_draft\<lparr>gpa := Some Prefer_Not_To_Say\<rparr>"
  have "draftToProfileWrite ?d \<noteq> None" by code_simp
  then obtain w where w: "draftToProfileWrite ?d = Some w" by blast
  have "\<forall>v. gpa ?d \<noteq> Some (Provided (Some v))" "pr_gpa (sample_profile (pw_gpa w)) = pw_gpa w"
    by (simp_all add: sample_profile_def)
  from private_results_hide_deadlines [OF w this] w show ?thesis by blast
qed


end
