(* ===== verification/Profile_Editor.thy ===== *)
theory Profile_Editor
  imports Dashboard
begin

text \<open>
  The profile page, \<^verbatim>\<open>app/(app)/profile/profile-editor.tsx\<close>: the draft of one section at a time, its
  validation and serialisation, the save with its failures; and the tag entry it and the questionnaire
  use, \<^verbatim>\<open>app/components/forms/tag-field.tsx\<close>.
\<close>

section \<open>Tags\<close>

text \<open>\<open>lower\<close> is \<open>toLowerCase\<close>.\<close>

definition add_tag :: "(jsstring \<Rightarrow> jsstring) \<Rightarrow> nat \<Rightarrow> jsstring \<Rightarrow> jsstring list \<times> jsstring \<Rightarrow> jsstring list \<times> jsstring" where
  "add_tag lower maxItems raw s =
     (let tag = trim raw; values = fst s
      in if tag = [] then s
         else if maxItems \<le> length values then s
         else if \<exists>v \<in> set values. lower v = lower tag then (values, [])
         else (values @ [tag], []))"

definition remove_tag :: "nat \<Rightarrow> jsstring list \<times> jsstring \<Rightarrow> jsstring list \<times> jsstring" where
  "remove_tag index s = (take index (fst s) @ drop (Suc index) (fst s), snd s)"

datatype tag_event = Type_Tag jsstring | Enter_Or_Comma | Backspace | Blur | Remove nat

fun tag_step ::
  "(jsstring \<Rightarrow> jsstring) \<Rightarrow> nat \<Rightarrow> tag_event \<Rightarrow> jsstring list \<times> jsstring \<Rightarrow> jsstring list \<times> jsstring" where
  "tag_step lower maxItems (Type_Tag t) s = (fst s, t)"
| "tag_step lower maxItems Enter_Or_Comma s = add_tag lower maxItems (snd s) s"
| "tag_step lower maxItems Backspace s =
     (if snd s = [] \<and> fst s \<noteq> [] then remove_tag (length (fst s) - 1) s else s)"
| "tag_step lower maxItems Blur s = add_tag lower maxItems (snd s) s"
| "tag_step lower maxItems (Remove index) s = remove_tag index s"

section \<open>Draft\<close>

datatype SectionId = Identity_Section | Academics_Section | Goals_Section

record Draft =
  pd_fullName :: jsstring
  pd_country :: jsstring
  pd_studyLevel :: ScholarshipStudyLevel
  pd_fieldOfStudy :: jsstring
  pd_gpa :: jsstring
  pd_interests :: "jsstring list"
  pd_goals :: jsstring

datatype draft_field =
    FullName_Field
  | Country_Field
  | StudyLevel_Field
  | FieldOfStudy_Field
  | Gpa_Field
  | Interests_Field
  | Goals_Field

text \<open>\<open>String\<close> of a number and \<open>Number\<close> of a string.\<close>

record number_io =
  nio_write :: "number \<Rightarrow> jsstring"
  nio_read :: "jsstring \<Rightarrow> number"

definition toDraft :: "number_io \<Rightarrow> ProfileResponse \<Rightarrow> Draft" where
  "toDraft io profile =
     \<lparr>pd_fullName = pr_full_name profile, pd_country = pr_country profile, pd_studyLevel = pr_study_level profile,
      pd_fieldOfStudy = or_else (pr_field_of_study profile) [],
      pd_gpa = (case pr_gpa profile of None \<Rightarrow> [] | Some v \<Rightarrow> nio_write io v),
      pd_interests = pr_interests profile, pd_goals = or_else (pr_goals profile) []\<rparr>"

definition toProfileWrite :: "number_io \<Rightarrow> Draft \<Rightarrow> ProfileWrite" where
  "toProfileWrite io draft =
     \<lparr>pw_full_name = trim (pd_fullName draft), pw_country = to_upper (pd_country draft),
      pw_study_level = pd_studyLevel draft, pw_field_of_study = non_empty (Some (trim (pd_fieldOfStudy draft))),
      pw_gpa = (if trim (pd_gpa draft) = [] then None else Some (nio_read io (pd_gpa draft))),
      pw_interests = filter (\<lambda>i. i \<noteq> []) (map trim (pd_interests draft)),
      pw_goals = non_empty (Some (trim (pd_goals draft)))\<rparr>"

definition gpa_in_range :: "number \<Rightarrow> bool" where
  "gpa_in_range v \<longleftrightarrow> is_finite v \<and> \<not> num_less v (Fin 0) \<and> \<not> num_less (Fin 4) v"

definition validateDraft :: "number_io \<Rightarrow> Draft \<Rightarrow> (draft_field \<times> jsstring) list" where
  "validateDraft io draft =
     (if trim (pd_fullName draft) = [] then [(FullName_Field, js ''Enter your full name.'')] else []) @
     (if \<not> isValidCountryCode (pd_country draft) then [(Country_Field, js ''Choose a valid country.'')] else []) @
     (if 200 < length (pd_fieldOfStudy draft) then [(FieldOfStudy_Field, js ''Use 200 characters or fewer.'')] else []) @
     (if 4000 < length (pd_goals draft) then [(Goals_Field, js ''Use 4,000 characters or fewer.'')] else []) @
     (if trim (pd_gpa draft) \<noteq> [] \<and> \<not> gpa_in_range (nio_read io (pd_gpa draft))
      then [(Gpa_Field, js ''Enter a GPA between 0 and 4.'')] else [])"

definition sectionForFirstGap :: "ProfileResponse \<Rightarrow> SectionId" where
  "sectionForFirstGap profile =
     (case pc_missing (profileCompleteness profile) of
        f # _ \<Rightarrow>
          if cf_id f = js ''full_name'' \<or> cf_id f = js ''country'' then Identity_Section
          else if cf_id f = js ''study_level'' \<or> cf_id f = js ''field_of_study'' \<or> cf_id f = js ''gpa'' then Academics_Section
          else Goals_Section
      | [] \<Rightarrow> Goals_Section)"

section \<open>The editor\<close>

record profile_editor =
  pe_profile :: ProfileResponse
  pe_draft :: Draft
  pe_editing :: "SectionId option"
  pe_errors :: "(draft_field \<times> jsstring) list"
  pe_pending :: bool
  pe_status :: "(bool \<times> jsstring) option"

definition initial_editor :: "number_io \<Rightarrow> ProfileResponse \<Rightarrow> bool \<Rightarrow> profile_editor" where
  "initial_editor io profile edit =
     \<lparr>pe_profile = profile, pe_draft = toDraft io profile,
      pe_editing = (if edit then Some (sectionForFirstGap profile) else None), pe_errors = [], pe_pending = False,
      pe_status = None\<rparr>"

text \<open>
  \<open>update\<close>: the new value of a field, its error taken back, the status cleared.  A field with a
  \<open>maxLength\<close> takes no longer text than that, unless it gets shorter.
\<close>

datatype field_edit =
    Set_FullName jsstring
  | Set_Country jsstring
  | Set_StudyLevel ScholarshipStudyLevel
  | Set_FieldOfStudy jsstring
  | Set_Gpa jsstring
  | Set_Interests "jsstring list"
  | Set_Goals jsstring

fun edited_field :: "field_edit \<Rightarrow> draft_field" where
  "edited_field (Set_FullName _) = FullName_Field"
| "edited_field (Set_Country _) = Country_Field"
| "edited_field (Set_StudyLevel _) = StudyLevel_Field"
| "edited_field (Set_FieldOfStudy _) = FieldOfStudy_Field"
| "edited_field (Set_Gpa _) = Gpa_Field"
| "edited_field (Set_Interests _) = Interests_Field"
| "edited_field (Set_Goals _) = Goals_Field"

fun edit_draft :: "field_edit \<Rightarrow> Draft \<Rightarrow> Draft" where
  "edit_draft (Set_FullName v) d = d\<lparr>pd_fullName := v\<rparr>"
| "edit_draft (Set_Country v) d = d\<lparr>pd_country := v\<rparr>"
| "edit_draft (Set_StudyLevel v) d = d\<lparr>pd_studyLevel := v\<rparr>"
| "edit_draft (Set_FieldOfStudy v) d = d\<lparr>pd_fieldOfStudy := v\<rparr>"
| "edit_draft (Set_Gpa v) d = d\<lparr>pd_gpa := v\<rparr>"
| "edit_draft (Set_Interests v) d = d\<lparr>pd_interests := v\<rparr>"
| "edit_draft (Set_Goals v) d = d\<lparr>pd_goals := v\<rparr>"

fun fits :: "field_edit \<Rightarrow> Draft \<Rightarrow> bool" where
  "fits (Set_FullName v) d \<longleftrightarrow> length v \<le> max 200 (length (pd_fullName d))"
| "fits (Set_FieldOfStudy v) d \<longleftrightarrow> length v \<le> max 200 (length (pd_fieldOfStudy d))"
| "fits (Set_Goals v) d \<longleftrightarrow> length v \<le> max 4000 (length (pd_goals d))"
| "fits _ _ \<longleftrightarrow> True"

definition update_field :: "field_edit \<Rightarrow> profile_editor \<Rightarrow> profile_editor" where
  "update_field edit s =
     s\<lparr>pe_draft := edit_draft edit (pe_draft s),
       pe_errors := filter (\<lambda>e. fst e \<noteq> edited_field edit) (pe_errors s), pe_status := None\<rparr>"

definition beginEdit :: "number_io \<Rightarrow> SectionId \<Rightarrow> profile_editor \<Rightarrow> profile_editor" where
  "beginEdit io sec s =
     s\<lparr>pe_draft := toDraft io (pe_profile s), pe_errors := [], pe_status := None, pe_editing := Some sec\<rparr>"

definition cancel :: "number_io \<Rightarrow> profile_editor \<Rightarrow> profile_editor" where
  "cancel io s =
     s\<lparr>pe_draft := toDraft io (pe_profile s), pe_errors := [], pe_status := None, pe_editing := None\<rparr>"

definition handleSave :: "number_io \<Rightarrow> profile_editor \<Rightarrow> profile_editor \<times> RequestOptions list" where
  "handleSave io s =
     (if pe_pending s then (s, [])
      else (let nextErrors = validateDraft io (pe_draft s)
            in if nextErrors \<noteq> [] then (s\<lparr>pe_errors := nextErrors\<rparr>, [])
               else (s\<lparr>pe_pending := True, pe_status := None\<rparr>, [replaceProfile (toProfileWrite io (pe_draft s))])))"

definition server_errors :: "ApiError \<Rightarrow> (draft_field \<times> jsstring) list" where
  "server_errors a =
     (let errors = fieldErrors a;
          entry = \<lambda>name f. (case map_of errors (js name) of Some m \<Rightarrow> [(f, m)] | None \<Rightarrow> [])
      in entry ''full_name'' FullName_Field @ entry ''country'' Country_Field @ entry ''study_level'' StudyLevel_Field @
         entry ''field_of_study'' FieldOfStudy_Field @ entry ''gpa'' Gpa_Field @ entry ''interests'' Interests_Field @
         entry ''goals'' Goals_Field)"

text \<open>The answer of the save; \<open>Inl\<close> is what was thrown.  The second part is where the router goes, if it does.\<close>

datatype router_effect = Router_Refresh | Router_Replace jsstring

definition save_settles ::
  "number_io \<Rightarrow> thrown + ProfileResponse \<Rightarrow> profile_editor \<Rightarrow> profile_editor \<times> router_effect list" where
  "save_settles io answer s =
     (case answer of
        Inr updated \<Rightarrow>
          (s\<lparr>pe_profile := updated, pe_draft := toDraft io updated, pe_editing := None,
             pe_status := Some (True, js ''Profile saved. Completeness is up to date.''), pe_pending := False\<rparr>,
           [Router_Refresh])
      | Inl (Api_Error a) \<Rightarrow>
          if err_kind a = Unauthorized
          then (s\<lparr>pe_pending := False\<rparr>,
                [Router_Replace (buildSignInUrl (js ''/profile'') (Some (js ''session-expired'')))])
          else (s\<lparr>pe_errors := server_errors a, pe_status := Some (False, err_message a), pe_pending := False\<rparr>, [])
      | Inl _ \<Rightarrow>
          (s\<lparr>pe_status := Some (False, js ''Your changes couldn'' @ [0x2019]
                  @ js ''t be saved. The previous profile is still active.''), pe_pending := False\<rparr>, []))"

text \<open>
  The events: typing in a field of the open section within its \<open>maxLength\<close>, opening another section
  (its button has no guard), cancelling (disabled while saving), submitting, the answer.
\<close>

datatype editor_event =
    Edit_Field field_edit
  | Begin_Edit SectionId
  | Cancel_Edit
  | Submit_Profile
  | Save_Settles "thrown + ProfileResponse"

fun section_of :: "draft_field \<Rightarrow> SectionId" where
  "section_of FullName_Field = Identity_Section"
| "section_of Country_Field = Identity_Section"
| "section_of StudyLevel_Field = Academics_Section"
| "section_of FieldOfStudy_Field = Academics_Section"
| "section_of Gpa_Field = Academics_Section"
| "section_of Interests_Field = Goals_Section"
| "section_of Goals_Field = Goals_Section"

fun editor_step ::
  "number_io \<Rightarrow> editor_event \<Rightarrow> profile_editor \<Rightarrow> profile_editor \<times> RequestOptions list \<times> router_effect list" where
  "editor_step io (Edit_Field edit) s =
     (if pe_editing s = Some (section_of (edited_field edit)) \<and> fits edit (pe_draft s)
      then update_field edit s else s, [], [])"
| "editor_step io (Begin_Edit sec) s = (if pe_editing s = Some sec then s else beginEdit io sec s, [], [])"
| "editor_step io Cancel_Edit s = (if pe_editing s \<noteq> None \<and> \<not> pe_pending s then cancel io s else s, [], [])"
| "editor_step io Submit_Profile s =
     (if pe_editing s \<noteq> None then (let (t, sent) = handleSave io s in (t, sent, [])) else (s, [], []))"
| "editor_step io (Save_Settles answer) s =
     (if pe_pending s then (let (t, moves) = save_settles io answer s in (t, [], moves)) else (s, [], []))"

text \<open>The errors on the page: those of the fields of the open section.\<close>

definition shown_errors :: "profile_editor \<Rightarrow> (draft_field \<times> jsstring) list" where
  "shown_errors s = filter (\<lambda>e. pe_editing s = Some (section_of (fst e))) (pe_errors s)"

text \<open>\<open>formatLabel\<close>: spaces for underscores, the first letter capital.\<close>

definition formatLabel :: "jsstring \<Rightarrow> jsstring" where
  "formatLabel v =
     (case map (\<lambda>u. if u = 0x5F then 0x20 else u) v of [] \<Rightarrow> [] | u # s \<Rightarrow> upper_unit u @ s)"

section \<open>Properties of tags\<close>

definition tags_ok :: "(jsstring \<Rightarrow> jsstring) \<Rightarrow> nat \<Rightarrow> jsstring list \<Rightarrow> bool" where
  "tags_ok lower maxItems values \<longleftrightarrow>
     distinct (map lower values) \<and> length values \<le> maxItems \<and> (\<forall>v \<in> set values. v \<noteq> [] \<and> trim v = v)"

lemma add_tag_ok: "tags_ok lower m (fst s) \<Longrightarrow> tags_ok lower m (fst (add_tag lower m raw s))"
  by (cases s) (auto simp: tags_ok_def add_tag_def Let_def)

lemma remove_tag_ok: "tags_ok lower m (fst s) \<Longrightarrow> tags_ok lower m (fst (remove_tag i s))"
proof -
  assume ok: "tags_ok lower m (fst s)"
  let ?vs = "fst s"
  have "set (take i ?vs @ drop (Suc i) ?vs) \<subseteq> set ?vs"
    by (auto dest: in_set_takeD in_set_dropD)
  moreover have "length (take i ?vs @ drop (Suc i) ?vs) \<le> length ?vs"
    by simp
  moreover have "distinct (map lower (take i ?vs @ drop (Suc i) ?vs))"
  proof (cases "i < length ?vs")
    case True
    have "distinct (map lower (take i ?vs @ ?vs ! i # drop (Suc i) ?vs))"
      using ok id_take_nth_drop [OF True] by (simp add: tags_ok_def)
    then show ?thesis by simp
  next
    case False
    with ok show ?thesis by (simp add: tags_ok_def)
  qed
  ultimately show ?thesis
    using ok unfolding tags_ok_def remove_tag_def by (auto simp del: set_append)
qed

text \<open>
  C17: Whatever is typed, entered and removed in a tag field, its tags stay trimmed, not empty, at most
  as many as allowed and different from each other whatever the case of their letters.
\<close>

theorem tags_stay_distinct:
  assumes "tags_ok lower m (fst s)"
  shows "tags_ok lower m (fst (fold (tag_step lower m) events s))"
  using assms
proof (induction events arbitrary: s)
  case (Cons x events)
  have "tags_ok lower m (fst (tag_step lower m x s))"
    using Cons.prems by (cases x) (simp_all add: add_tag_ok remove_tag_ok)
  with Cons.IH show ?case by simp
qed simp

lemma tags_stay_distinct_witness:
  "tags_ok lower_ascii 50 (fst (fold (tag_step lower_ascii 50)
     [Type_Tag (js '' Law ''), Enter_Or_Comma, Type_Tag (js ''law''), Blur, Backspace] ([], [])))"
  by (rule tags_stay_distinct) (simp add: tags_ok_def)

section \<open>Properties of the editor\<close>

lemma upper_capital: "0x41 \<le> u \<Longrightarrow> u \<le> 0x5A \<Longrightarrow> upper_unit u = [u]"
  by (auto simp: upper_unit_def word_le_nat_alt)

lemma to_upper_capitals: "\<forall>u \<in> set s. 0x41 \<le> u \<and> u \<le> 0x5A \<Longrightarrow> to_upper s = s"
  by (induction s) (auto simp: to_upper_def upper_capital)

lemma to_upper_code: "isValidCountryCode c \<Longrightarrow> to_upper (to_upper c) = to_upper c"
  using valid_country(3) by (rule to_upper_capitals)

lemma validateDraft_Nil:
  assumes "validateDraft io d = []"
  shows "trim (pd_fullName d) \<noteq> []" "isValidCountryCode (pd_country d)" "length (pd_fieldOfStudy d) \<le> 200"
    "length (pd_goals d) \<le> 4000" "trim (pd_gpa d) = [] \<or> gpa_in_range (nio_read io (pd_gpa d))"
  using assms by (auto simp: validateDraft_def split: if_split_asm)

lemma gpa_in_range_iff: "gpa_in_range v \<longleftrightarrow> (\<exists>x \<in> {0..4}. v = Fin x)"
  by (cases v) (auto simp: gpa_in_range_def)

lemma length_goals: "non_empty (Some (trim g)) = Some x \<Longrightarrow> x \<noteq> [] \<and> length x \<le> length g"
  by (auto simp: non_empty_Some length_trim_le)


text \<open>The server keeps what was written.\<close>

definition echoes :: "ProfileResponse \<Rightarrow> ProfileWrite \<Rightarrow> bool" where
  "echoes p w \<longleftrightarrow> pr_full_name p = pw_full_name w \<and> pr_country p = pw_country w \<and> pr_study_level p = pw_study_level w \<and>
     pr_field_of_study p = pw_field_of_study w \<and> pr_gpa p = pw_gpa w \<and> pr_interests p = pw_interests w \<and>
     pr_goals p = pw_goals w"

lemma optional_text [simp]: "or_else (non_empty (Some t)) [] = t"
  by (cases t) (simp_all add: non_empty_def or_else_def)

lemma interests_back: "filter (\<lambda>i. i \<noteq> []) (map trim (filter (\<lambda>i. i \<noteq> []) (map trim is))) = filter (\<lambda>i. i \<noteq> []) (map trim is)"
  by (induction "is") auto

text \<open>
  C?: Saving a profile again without a change writes the same profile: the draft made from the
  server's answer serialises to what had been written, provided the engine reads back the GPA as it
  writes it (\<open>Number(String(x))\<close> is \<open>x\<close> and the text is not blank).
\<close>

theorem save_is_stable:
  assumes "validateDraft io d = []" and "echoes p (toProfileWrite io d)"
    and "\<And>x. nio_read io (pd_gpa d) = Fin x \<Longrightarrow>
           nio_read io (nio_write io (Fin x)) = Fin x \<and> trim (nio_write io (Fin x)) \<noteq> []"
  shows "toProfileWrite io (toDraft io p) = toProfileWrite io d \<and> validateDraft io (toDraft io p) = []"
proof -
  note valid = validateDraft_Nil [OF assms(1)]
  have p: "toDraft io p = \<lparr>pd_fullName = trim (pd_fullName d), pd_country = to_upper (pd_country d), pd_studyLevel = pd_studyLevel d,
      pd_fieldOfStudy = trim (pd_fieldOfStudy d),
      pd_gpa = (if trim (pd_gpa d) = [] then [] else nio_write io (nio_read io (pd_gpa d))),
      pd_interests = filter (\<lambda>i. i \<noteq> []) (map trim (pd_interests d)),
      pd_goals = trim (pd_goals d)\<rparr>"
    using assms(2) by (simp add: toDraft_def echoes_def toProfileWrite_def)
  have gpa: "trim (pd_gpa d) = [] \<or> (\<exists>x \<in> {0..4}. nio_read io (pd_gpa d) = Fin x)"
    using valid(5) by (simp add: gpa_in_range_iff)
  have same: "toProfileWrite io (toDraft io p) = toProfileWrite io d"
    unfolding p using gpa assms(3) to_upper_code [OF valid(2)]
    by (auto simp: toProfileWrite_def interests_back)
  have "length (trim (pd_fieldOfStudy d)) \<le> 200" "length (trim (pd_goals d)) \<le> 4000"
    using length_trim_le [of "pd_fieldOfStudy d"] length_trim_le [of "pd_goals d"] valid(3,4) by linarith+
  moreover have "isValidCountryCode (to_upper (pd_country d))"
    using valid(2) to_upper_code [OF valid(2)] by (simp add: isValidCountryCode_def)
  moreover have "trim (pd_gpa (toDraft io p)) = [] \<or> gpa_in_range (nio_read io (pd_gpa (toDraft io p)))"
    unfolding p using gpa assms(3) by (auto simp: gpa_in_range_iff)
  ultimately have "validateDraft io (toDraft io p) = []"
    using valid(1) unfolding p by (auto simp: validateDraft_def)
  with same show ?thesis ..
qed

text \<open>
  A fault in a section that is not open blocks every save without a word: when all errors of the
  draft belong to other sections, submitting sends nothing, shows no error and no status.
\<close>

theorem hidden_error_blocks_save:
  assumes "pe_editing s = Some sec" and "\<not> pe_pending s" and "validateDraft io (pe_draft s) \<noteq> []"
    and "\<forall>e \<in> set (validateDraft io (pe_draft s)). section_of (fst e) \<noteq> sec"
  shows "fst (snd (editor_step io Submit_Profile s)) = []"
    and "shown_errors (fst (editor_step io Submit_Profile s)) = []"
    and "pe_status (fst (editor_step io Submit_Profile s)) = pe_status s"
proof -
  have step: "editor_step io Submit_Profile s = (s\<lparr>pe_errors := validateDraft io (pe_draft s)\<rparr>, [], [])"
    using assms(1-3) by (simp add: handleSave_def)
  show "fst (snd (editor_step io Submit_Profile s)) = []" "pe_status (fst (editor_step io Submit_Profile s)) = pe_status s"
    unfolding step by simp_all
  show "shown_errors (fst (editor_step io Submit_Profile s)) = []"
    unfolding step using assms(1,4) by (auto simp: shown_errors_def filter_empty_conv)
qed

text \<open>
  C40: A section opened while a save is in flight loses what is typed into it: when the save succeeds,
  the draft is made anew from the answer and the section is closed, whatever was edited meanwhile.
\<close>

theorem save_discards_later_edits:
  assumes "pe_pending s"
  shows "fst (editor_step io (Save_Settles (Inr updated))
            (fold (\<lambda>x t. fst (editor_step io x t)) (Begin_Edit sec # map Edit_Field edits) s)) =
         s\<lparr>pe_profile := updated, pe_draft := toDraft io updated, pe_editing := None,
           pe_errors := pe_errors (fold (\<lambda>x t. fst (editor_step io x t)) (Begin_Edit sec # map Edit_Field edits) s),
           pe_status := Some (True, js ''Profile saved. Completeness is up to date.''), pe_pending := False\<rparr>"
proof -
  let ?run = "\<lambda>xs t. fold (\<lambda>x t. fst (editor_step io x t)) xs t"
  have frame: "pe_pending (?run (map Edit_Field edits) t) = pe_pending t \<and> pe_profile (?run (map Edit_Field edits) t) = pe_profile t" for t
    by (induction edits arbitrary: t) (simp_all add: update_field_def)
  let ?t = "?run (Begin_Edit sec # map Edit_Field edits) s"
  have "pe_pending ?t"
    using assms frame by (simp add: beginEdit_def)
  then show ?thesis
    by (simp add: save_settles_def profile_editor.equality)
qed

definition plain_io :: number_io where
  "plain_io = \<lparr>nio_write = (\<lambda>v. case v of Fin x \<Rightarrow> js_of_int \<lfloor>x\<rfloor> | _ \<Rightarrow> []), nio_read = (\<lambda>_. Fin 3)\<rparr>"

definition sample_draft :: Draft where
  "sample_draft =
     \<lparr>pd_fullName = js '' Ada '', pd_country = js ''gb'', pd_studyLevel = LevelDoctoral, pd_fieldOfStudy = [],
      pd_gpa = js ''3'', pd_interests = [js ''logic''], pd_goals = []\<rparr>"

lemma sample_draft_valid: "validateDraft plain_io sample_draft = []"
  by code_simp

definition sample_editor :: "Draft \<Rightarrow> SectionId \<Rightarrow> profile_editor" where
  "sample_editor draft sec = (initial_editor plain_io (sample_profile None) True)\<lparr>pe_draft := draft, pe_editing := Some sec\<rparr>"


lemma hidden_error_blocks_save_witness:
  "fst (snd (editor_step plain_io Submit_Profile (sample_editor (sample_draft\<lparr>pd_country := js ''XK''\<rparr>) Goals_Section))) = [] \<and>
   shown_errors (fst (editor_step plain_io Submit_Profile (sample_editor (sample_draft\<lparr>pd_country := js ''XK''\<rparr>) Goals_Section))) = []"
proof -
  let ?s = "sample_editor (sample_draft\<lparr>pd_country := js ''XK''\<rparr>) Goals_Section"
  have errors: "validateDraft plain_io (sample_draft\<lparr>pd_country := js ''XK''\<rparr>) = [(Country_Field, js ''Choose a valid country.'')]"
    by code_simp
  have "pe_editing ?s = Some Goals_Section" "\<not> pe_pending ?s" "pe_draft ?s = sample_draft\<lparr>pd_country := js ''XK''\<rparr>"
    by (simp_all add: sample_editor_def initial_editor_def)
  with errors hidden_error_blocks_save(1,2) [of ?s Goals_Section plain_io] show ?thesis by simp
qed

lemma save_discards_later_edits_witness:
  "pe_draft (fst (editor_step plain_io (Save_Settles (Inr (sample_profile None)))
     (fold (\<lambda>x t. fst (editor_step plain_io x t)) (Begin_Edit Goals_Section # map Edit_Field [Set_Goals (js ''Law'')])
       ((sample_editor sample_draft Identity_Section)\<lparr>pe_pending := True\<rparr>)))) = toDraft plain_io (sample_profile None)"
  by (subst save_discards_later_edits) simp_all

definition echo_profile :: "ProfileWrite \<Rightarrow> ProfileResponse" where
  "echo_profile w =
     \<lparr>pr_id = [], pr_full_name = pw_full_name w, pr_country = pw_country w, pr_study_level = pw_study_level w,
      pr_field_of_study = pw_field_of_study w, pr_gpa = pw_gpa w, pr_interests = pw_interests w, pr_goals = pw_goals w,
      pr_created_at = [], pr_updated_at = []\<rparr>"

lemma save_is_stable_witness:
  "toProfileWrite plain_io (toDraft plain_io (echo_profile (toProfileWrite plain_io sample_draft))) =
   toProfileWrite plain_io sample_draft"
proof (rule save_is_stable [OF sample_draft_valid, THEN conjunct1])
  show "echoes (echo_profile (toProfileWrite plain_io sample_draft)) (toProfileWrite plain_io sample_draft)"
    by (simp add: echoes_def echo_profile_def)
  have "trim (js_of_int 3) \<noteq> []" by code_simp
  then show "nio_read plain_io (nio_write plain_io (Fin x)) = Fin x \<and> trim (nio_write plain_io (Fin x)) \<noteq> []"
    if "nio_read plain_io (pd_gpa sample_draft) = Fin x" for x
    using that by (simp add: plain_io_def)
qed

end
