(* ===== verification/Pages.thy ===== *)
theory Pages
  imports Applications Documents Admin_Queues Admin_Catalogue Scholarship_Actions Matches Profile_Editor
begin

text \<open>
  The pages of the two workspaces, \<^verbatim>\<open>app/(app)\<close> and \<^verbatim>\<open>app/(admin)\<close>: each asks for the session of its
  role, reads what it shows from the API with the visitor's token and hands it to its component, or
  shows that it could not.  The markup is left out; what the pages derive from the data is here.
\<close>

section \<open>Reading behind a guard\<close>

record AdminAuditEvent =
  audit_id :: jsstring
  audit_actor_id :: jsstring
  audit_action :: jsstring
  audit_target_type :: jsstring
  audit_target_id :: jsstring
  audit_target_name :: jsstring
  audit_summary :: jsstring
  audit_created_at :: jsstring

type_synonym AdminAuditEventPage = "AdminAuditEvent page"

text \<open>The visitor as Supabase knows them.\<close>

record visitor =
  vi_user :: "auth_user option"
  vi_token :: "jsstring option"

text \<open>A page shows its content, the error view with its texts, or is not found.\<close>

datatype 'a shown =
    Shows 'a
  | Shows_Error jsstring jsstring
  | Shows_Not_Found

type_synonym sent = "(jsstring \<times> RequestOptions) list"

text \<open>\<open>createServerApiClient(accessToken)\<close>: every request of the page goes out with that token.\<close>

definition with_session :: "AuthenticatedSession served \<Rightarrow> RequestOptions list \<times> 'a \<Rightarrow> sent \<times> 'a served" where
  "with_session session body =
     (case session of
        Redirects p \<Rightarrow> ([], Redirects p)
      | Returns s \<Rightarrow> (map (Pair (se_accessToken s)) (fst body), Returns (snd body)))"

definition student :: "visitor \<Rightarrow> jsstring \<Rightarrow> AuthenticatedSession served" where
  "student v returnTo = requireStudentSession (vi_user v) (vi_token v) returnTo"

definition admin :: "visitor \<Rightarrow> jsstring \<Rightarrow> AuthenticatedSession served" where
  "admin v returnTo = requireAdminSession (vi_user v) (vi_token v) returnTo"

text \<open>The \<open>try\<close> around a read: whatever it throws becomes the error view.\<close>

definition loaded :: "string \<Rightarrow> string \<Rightarrow> thrown + 'a \<Rightarrow> 'a shown" where
  "loaded title description answer =
     (case answer of Inr a \<Rightarrow> Shows a | Inl _ \<Rightarrow> Shows_Error (js title) (js description))"

definition up_to :: "nat \<Rightarrow> page_options" where
  "up_to n = \<lparr>po_limit = Some n, po_cursor = None\<rparr>"

section \<open>The pages of a student\<close>

definition MatchesPage :: "visitor \<Rightarrow> thrown + MatchPage \<Rightarrow> sent \<times> MatchPage shown served" where
  "MatchesPage v answer =
     with_session (student v (js ''/matches''))
       ([listMatches (up_to 20)],
        loaded ''Matches could not be loaded''
          ''Your existing applications and profile are unaffected. Try loading the ranking again.'' answer)"

text \<open>Outside of \<open>not_found\<close> every failure, an identifier that cannot be encoded too, is the error view.\<close>

definition found :: "string \<Rightarrow> string \<Rightarrow> thrown + 'a \<Rightarrow> 'a shown" where
  "found title description answer =
     (case answer of
        Inr a \<Rightarrow> Shows a
      | Inl e \<Rightarrow> if isNotFound e then Shows_Not_Found else Shows_Error (js title) (js description))"

definition MatchDetailPage :: "visitor \<Rightarrow> jsstring \<Rightarrow> thrown + MatchResponse \<Rightarrow> sent \<times> MatchResponse shown served" where
  "MatchDetailPage v scholarshipId answer =
     with_session (student v (js ''/matches/'' @ scholarshipId))
       (let title = ''Match explanation could not be loaded'';
            description = ''The ranking may be temporarily unavailable. No match data has been discarded.''
        in case getMatch scholarshipId of
             None \<Rightarrow> ([], Shows_Error (js title) (js description))
           | Some r \<Rightarrow> ([r], found title description answer))"

definition ScholarshipsPage ::
  "visitor \<Rightarrow> search_params \<Rightarrow> thrown + ScholarshipPage \<Rightarrow> sent \<times> (ScholarshipFilters \<times> ScholarshipPage) shown served" where
  "ScholarshipsPage v params answer =
     with_session (student v (js ''/scholarships''))
       (let filters = parseScholarshipFilters params
        in ([listScholarships filters],
            loaded ''Scholarships could not be loaded''
              ''The catalogue is temporarily unavailable. Your filters remain in the URL.''
              (map_sum id (Pair filters) answer)))"

text \<open>The related scholarships are asked for only once the scholarship is there; without them the page still shows it.\<close>

record scholarship_detail =
  sd_scholarship :: ScholarshipResponse
  sd_related :: "ScholarshipPage option"

definition ScholarshipDetailPage ::
  "visitor \<Rightarrow> jsstring \<Rightarrow> thrown + ScholarshipResponse \<Rightarrow> thrown + ScholarshipPage \<Rightarrow>
     sent \<times> scholarship_detail shown served" where
  "ScholarshipDetailPage v scholarshipId answer related =
     with_session (student v (js ''/scholarships/'' @ scholarshipId))
       (let title = ''Scholarship details could not be loaded'';
            description = ''The record may be temporarily unavailable.''
        in case (getScholarship scholarshipId, listRelatedScholarships scholarshipId (up_to 3)) of
             (Some r, Some r') \<Rightarrow>
               (case answer of
                  Inr s \<Rightarrow>
                    ([r, r'],
                     Shows \<lparr>sd_scholarship = s,
                            sd_related = (case related of Inr page \<Rightarrow> Some page | Inl _ \<Rightarrow> None)\<rparr>)
                | Inl e \<Rightarrow>
                    ([r], if isNotFound e then Shows_Not_Found else Shows_Error (js title) (js description)))
           | _ \<Rightarrow> ([], Shows_Error (js title) (js description)))"

text \<open>\<open>Promise.allSettled\<close>: the content needs every answer.\<close>

definition ApplicationsPage ::
  "visitor \<Rightarrow> thrown + ApplicationPage \<Rightarrow> thrown + ApplicationDeadlinePage \<Rightarrow>
     sent \<times> (ApplicationPage \<times> ApplicationDeadlinePage) shown served" where
  "ApplicationsPage v applications deadlines =
     with_session (student v (js ''/applications''))
       ([listApplications (up_to 100), listApplicationDeadlines (up_to 100)],
        (case (applications, deadlines) of
           (Inr a, Inr d) \<Rightarrow> Shows (a, d)
         | _ \<Rightarrow> Shows_Error (js ''Your application workspace could not be loaded'')
                  (js ''No tracking data was changed. Check your connection and try again.'')))"

definition DocumentsPage ::
  "visitor \<Rightarrow> thrown + DocumentPage \<Rightarrow> thrown + DocumentUploadPolicy \<Rightarrow> thrown + DocumentReadinessResponse \<Rightarrow>
     sent \<times> (DocumentPage \<times> DocumentUploadPolicy \<times> DocumentReadinessResponse) shown served" where
  "DocumentsPage v documents policy readiness =
     with_session (student v (js ''/documents''))
       ([listDocuments (up_to 100), getDocumentUploadPolicy, getDocumentReadiness],
        (case (documents, policy, readiness) of
           (Inr d, Inr p, Inr r) \<Rightarrow> Shows (d, p, r)
         | _ \<Rightarrow> Shows_Error (js ''Your private documents could not be loaded'')
                  (js ''Nothing was uploaded or changed. Check your connection and try again.'')))"

text \<open>The profile page: the editor opens at the first gap when the URL says \<open>edit=1\<close>; \<open>None\<close> is the page without a profile.\<close>

definition ProfilePage ::
  "number_io \<Rightarrow> visitor \<Rightarrow> jsstring option \<Rightarrow> thrown + ProfileResponse option \<Rightarrow>
     sent \<times> profile_editor option shown served" where
  "ProfilePage io v edit profile =
     (case loadProfile (vi_user v) (vi_token v) profile of
        Redirects p \<Rightarrow> ([], Redirects p)
      | Returns state \<Rightarrow>
          ((case student v (js ''/profile'') of
              Returns s \<Rightarrow> [(se_accessToken s, getProfile_options)] | Redirects _ \<Rightarrow> []),
           Returns (case state of
             Profile_Error message \<Rightarrow> Shows_Error (js ''Your profile isn'' @ [0x2019] @ js ''t available'') message
           | Profile_Empty \<Rightarrow> Shows None
           | Profile_Ready p \<Rightarrow> Shows (Some (initial_editor io p (edit = Some (js ''1'')))))))"

definition DashboardPage ::
  "dash_engine \<Rightarrow> visitor \<Rightarrow> thrown + ProfileResponse option \<Rightarrow> thrown + MatchPage \<Rightarrow> thrown + ApplicationPage \<Rightarrow> int \<Rightarrow>
     sent \<times> DashboardLoadState served" where
  "DashboardPage e v profile matches applications now =
     (let (requests, state) = loadDashboard e (vi_user v) (vi_token v) profile matches applications now
      in ((case student v (js ''/dashboard'') of
             Returns s \<Rightarrow> map (Pair (se_accessToken s)) requests | Redirects _ \<Rightarrow> []), state))"

definition SettingsPage :: "visitor \<Rightarrow> sent \<times> unit shown served" where
  "SettingsPage v = with_session (student v (js ''/settings'')) ([], Shows ())"

text \<open>The layout around every page of a student: the same guard and the name in the navigation.\<close>

definition AppLayout :: "visitor \<Rightarrow> jsstring served" where
  "AppLayout v =
     (case student v (js ''/dashboard'') of
        Redirects p \<Rightarrow> Redirects p
      | Returns s \<Rightarrow> Returns (sessionDisplayName (se_user s) (js ''Student'')))"

section \<open>The pages of an administrator\<close>

definition AdminLayout :: "visitor \<Rightarrow> jsstring served" where
  "AdminLayout v =
     (case admin v (js ''/admin'') of
        Redirects p \<Rightarrow> Redirects p
      | Returns s \<Rightarrow> Returns (sessionDisplayName (se_user s) (js ''Administrator'')))"

definition AREAS :: "(jsstring \<times> jsstring) list" where
  "AREAS =
     [(js ''/admin/scholarships'', js ''Scholarship quality''),
      (js ''/admin/ingestion'', js ''Ingestion runs''),
      (js ''/admin/duplicates'', js ''Duplicate resolution''),
      (js ''/admin/verification'', js ''Verification queue''),
      (js ''/admin/audit'', js ''Audit history'')]"

definition AdminOverviewPage :: "visitor \<Rightarrow> sent \<times> (jsstring \<times> jsstring) list shown served" where
  "AdminOverviewPage v = with_session (admin v (js ''/admin'')) ([], Shows AREAS)"

definition AdminScholarshipsPage :: "visitor \<Rightarrow> thrown + AdminScholarshipPage \<Rightarrow> sent \<times> AdminScholarshipPage shown served" where
  "AdminScholarshipsPage v answer =
     with_session (admin v (js ''/admin/scholarships''))
       ([listAdminScholarships (up_to 100)],
        loaded ''Scholarship administration could not be loaded''
          ''No catalogue data was changed. Retry after checking the API service.'' answer)"

definition AdminIngestionPage ::
  "visitor \<Rightarrow> thrown + IngestionRunResponse page \<Rightarrow> sent \<times> IngestionRunResponse page shown served" where
  "AdminIngestionPage v answer =
     with_session (admin v (js ''/admin/ingestion''))
       ([listIngestionRuns (up_to 100)],
        loaded ''Ingestion runs could not be loaded'' ''No run was started or retried.'' answer)"

definition AdminIngestionDetailPage ::
  "visitor \<Rightarrow> jsstring \<Rightarrow> thrown + IngestionRunResponse \<Rightarrow> sent \<times> IngestionRunResponse shown served" where
  "AdminIngestionDetailPage v runId answer =
     with_session (admin v (js ''/admin/ingestion/'' @ runId))
       (let title = ''This ingestion run could not be loaded'';
            description = ''The run may not exist or the API rejected access.''
        in case getIngestionRun runId of
             None \<Rightarrow> ([], Shows_Error (js title) (js description))
           | Some r \<Rightarrow> ([r], loaded title description answer))"

definition AdminDuplicatesPage ::
  "visitor \<Rightarrow> thrown + AdminDuplicateGroup page \<Rightarrow> sent \<times> AdminDuplicateGroup page shown served" where
  "AdminDuplicatesPage v answer =
     with_session (admin v (js ''/admin/duplicates''))
       ([listAdminDuplicateGroups (up_to 100)],
        loaded ''Duplicate groups could not be loaded'' ''No records were merged.'' answer)"

definition AdminVerificationPage ::
  "visitor \<Rightarrow> thrown + AdminVerificationItem page \<Rightarrow> sent \<times> AdminVerificationItem page shown served" where
  "AdminVerificationPage v answer =
     with_session (admin v (js ''/admin/verification''))
       ([listAdminVerificationQueue (up_to 100)],
        loaded ''Verification queue could not be loaded'' ''No verification decision was recorded.'' answer)"

definition AdminAuditPage :: "visitor \<Rightarrow> thrown + AdminAuditEventPage \<Rightarrow> sent \<times> AdminAuditEventPage shown served" where
  "AdminAuditPage v answer =
     with_session (admin v (js ''/admin/audit''))
       ([listAdminAuditEvents (up_to 100)],
        loaded ''Audit history could not be loaded'' ''The existing audit log is unaffected.'' answer)"

section \<open>What the pages derive\<close>

text \<open>The page of one match: the banner of a stale score, the groups of the explanation, the evidence.\<close>

definition stale_banner :: "MatchResponse \<Rightarrow> jsstring option" where
  "stale_banner m =
     (if match_calculation_status m = CalcStale
      then Some (or_else (non_empty (Some (join (js '' '') (match_stale_reasons m))))
        (js ''Your profile or the scholarship data changed after this score was calculated.''))
      else None)"

datatype group_content = Group_Items "jsstring list" | Group_Empty jsstring

definition ExplanationGroup :: "jsstring list \<Rightarrow> string \<Rightarrow> group_content" where
  "ExplanationGroup items missing = (if items \<noteq> [] then Group_Items items else Group_Empty (js missing))"

definition explanation_groups :: "MatchResponse \<Rightarrow> (string \<times> group_content) list" where
  "explanation_groups m =
     (let x = px_explanation (presentExplanation m)
      in [(''Why this matches'',
           ExplanationGroup (expl_why_this_matches x) ''No positive fit factors are currently available.''),
          (''What may block you'',
           ExplanationGroup (expl_what_may_block_you x)
             ''No blockers are currently identified. Verify every requirement with the provider.''),
          (''Missing information'',
           ExplanationGroup (map mpf_question (expl_missing_information x))
             ''No profile questions are currently unresolved.''),
          (''Next actions'',
           ExplanationGroup (expl_next_actions x)
             ''Review the scholarship source and confirm current requirements.'')])"

fun BASIS :: "EvidenceBasis \<Rightarrow> jsstring" where
  "BASIS VerifiedRequirement = js ''Verified hard requirement''"
| "BASIS InferredRelevance = js ''Inferred relevance''"
| "BASIS ProfileUnknown = js ''Unknown profile fact''"
| "BASIS RequirementNotMet = js ''Requirement not met''"

text \<open>An evidence: its label, text and detail, and the link when it has one.\<close>

definition evidence_row :: "RequirementEvidence \<Rightarrow> jsstring \<times> jsstring \<times> jsstring \<times> jsstring option" where
  "evidence_row e = (BASIS (ev_basis e), ev_label e, ev_detail e, non_empty (ev_source_url e))"

text \<open>The page of one scholarship: whether it can be acted on, and its facts.\<close>

definition actionable_at :: "(jsstring \<Rightarrow> int option) \<Rightarrow> ScholarshipResponse \<Rightarrow> int \<Rightarrow> bool" where
  "actionable_at engine s now \<longleftrightarrow>
     sch_status s = Published \<and> deadlineState engine (sch_deadline s) (sch_status s) now \<noteq> Expired_Deadline"

definition deadline_fact :: "texts \<Rightarrow> ScholarshipResponse \<Rightarrow> int \<Rightarrow> jsstring" where
  "deadline_fact tx s now =
     formatDate tx (sch_deadline s) @
     (if deadlineState (tx_engine tx) (sch_deadline s) (sch_status s) now = Expired_Deadline
      then js '' '' @ [0x2014] @ js '' closed'' else [])"

definition verified_fact :: "texts \<Rightarrow> ScholarshipResponse \<Rightarrow> jsstring" where
  "verified_fact tx s =
     (case non_empty (sch_verified_at s) of Some v \<Rightarrow> formatDate tx (Some v) | None \<Rightarrow> js ''Not yet verified'')"

definition listed_or :: "string \<Rightarrow> jsstring list \<Rightarrow> jsstring" where
  "listed_or missing values = or_else (non_empty (Some (join (js '', '') values))) (js missing)"

definition opportunity_facts :: "ScholarshipResponse \<Rightarrow> (string \<times> jsstring) list" where
  "opportunity_facts s =
     [(''Provider'', sch_provider s),
      (''Study level'', listed_or ''Not specified'' (map (titleCase \<circ> study_level_name) (sch_study_levels s))),
      (''Fields'', listed_or ''Any or not specified'' (sch_fields_of_study s)),
      (''Destination'', listed_or ''Not specified'' (sch_destination_countries s)),
      (''Nationality'', listed_or ''Not specified'' (sch_nationality_requirements s)),
      (''Residency'', listed_or ''Not specified'' (sch_residency_requirements s))]"

text \<open>The dashboard: the greeting, the totals and the first lines of each list.\<close>

definition firstName :: "jsstring \<Rightarrow> jsstring" where
  "firstName full = or_else (non_empty (Some (takeWhile (\<lambda>u. \<not> is_space u) (trim full)))) (js ''there'')"

definition applicationsTotal :: "DashboardViewModel \<Rightarrow> nat" where
  "applicationsTotal view = sum_list (map (dv_applicationCounts view) STATUSES)"

definition formatStatus :: "jsstring \<Rightarrow> jsstring" where
  "formatStatus v = formatLabel v"

datatype panel = Panel_Unavailable | Panel_Empty | Panel_List "(jsstring \<times> jsstring) list"

definition days_label :: "int option \<Rightarrow> jsstring" where
  "days_label days =
     (case days of None \<Rightarrow> js ''NaN'' | Some n \<Rightarrow> if n = 0 then js ''Today'' else js_of_int n)"

definition deadlines_panel :: "DashboardViewModel \<Rightarrow> panel" where
  "deadlines_panel view =
     (if Matches_Source \<in> set (dv_unavailableSources view) then Panel_Unavailable
      else if dv_urgentDeadlines view = [] then Panel_Empty
      else Panel_List (map (\<lambda>d. (days_label (dd_daysRemaining d),
             (case dd_applicationStatus d of
                Some st \<Rightarrow> formatStatus (application_status_name st) | None \<Rightarrow> js ''Not started'')))
             (take 4 (dv_urgentDeadlines view))))"

definition matches_panel :: "DashboardViewModel \<Rightarrow> panel" where
  "matches_panel view =
     (if Matches_Source \<in> set (dv_unavailableSources view) then Panel_Unavailable
      else if dv_recentMatches view = [] then Panel_Empty
      else Panel_List (map (\<lambda>m. (rounded (hundredfold (match_score m)), sch_title (match_scholarship m)))
             (take 4 (dv_recentMatches view))))"

definition pipeline_panel :: "DashboardViewModel \<Rightarrow> panel" where
  "pipeline_panel view =
     (if Applications_Source \<in> set (dv_unavailableSources view) then Panel_Unavailable
      else if applicationsTotal view = 0 then Panel_Empty
      else Panel_List (map (\<lambda>st. (formatStatus (application_status_name st), js_of_nat (dv_applicationCounts view st)))
             [AppSaved, AppPreparing, AppSubmitted]))"

section \<open>Navigation\<close>

definition NAV_ITEMS :: "jsstring list" where
  "NAV_ITEMS = map js
     [''/dashboard'', ''/matches'', ''/scholarships'', ''/applications'', ''/documents'', ''/profile'', ''/settings'']"

definition nav_active :: "jsstring \<Rightarrow> jsstring \<Rightarrow> bool" where
  "nav_active pathname href \<longleftrightarrow>
     pathname = href \<or> href \<noteq> js ''/dashboard'' \<and> prefix (href @ js ''/'') pathname"

definition ITEMS :: "jsstring list" where
  "ITEMS = map js
     [''/admin'', ''/admin/scholarships'', ''/admin/ingestion'', ''/admin/duplicates'', ''/admin/verification'',
      ''/admin/audit'']"

definition admin_active :: "jsstring \<Rightarrow> jsstring \<Rightarrow> bool" where
  "admin_active pathname href \<longleftrightarrow>
     (if href = js ''/admin'' then pathname = href else pathname = href \<or> prefix (href @ js ''/'') pathname)"

text \<open>
  The menu of a small screen: open or not, whether the main content is inert, where the focus is and
  whether a frame is due that gives it back to the button of the menu.
\<close>

datatype focus = On_Menu_Button | On_Close_Button | Elsewhere

record menu =
  mn_open :: bool
  mn_inert :: bool
  mn_focus :: focus
  mn_restore :: bool

definition initial_menu :: menu where
  "initial_menu = \<lparr>mn_open = False, mn_inert = False, mn_focus = Elsewhere, mn_restore = False\<rparr>"

text \<open>The effect of the component after \<open>open\<close> has changed: its cleanup, or its body.\<close>

definition set_open :: "bool \<Rightarrow> menu \<Rightarrow> menu" where
  "set_open shown s =
     (if shown = mn_open s then s
      else if shown then s\<lparr>mn_open := True, mn_inert := True, mn_focus := On_Close_Button\<rparr>
      else s\<lparr>mn_open := False, mn_inert := False\<rparr>)"

definition closeMenu :: "bool \<Rightarrow> menu \<Rightarrow> menu" where
  "closeMenu restoreFocus s = (let t = set_open False s in if restoreFocus then t\<lparr>mn_restore := True\<rparr> else t)"

datatype menu_event =
    Toggle_Menu
  | Close_Clicked
  | Link_Clicked
  | Escape_Pressed
  | Frame_Runs
  | Focus_Moves

fun menu_step :: "menu_event \<Rightarrow> menu \<Rightarrow> menu" where
  "menu_step Toggle_Menu s = set_open (\<not> mn_open s) s"
| "menu_step Close_Clicked s = closeMenu True s"
| "menu_step Link_Clicked s = closeMenu False s"
| "menu_step Escape_Pressed s = (if mn_open s then closeMenu True s else s)"
| "menu_step Frame_Runs s = (if mn_restore s then s\<lparr>mn_restore := False, mn_focus := On_Menu_Button\<rparr> else s)"
| "menu_step Focus_Moves s = s\<lparr>mn_focus := Elsewhere\<rparr>"

section \<open>No page reads before its guard\<close>

definition reads :: "RequestOptions \<Rightarrow> bool" where
  "reads r \<longleftrightarrow> ro_method r = GET \<and> ro_body r = None \<and> ro_idempotencyKey r = None \<and> ro_requireAuth r"

fun redirect_of :: "'a served \<Rightarrow> jsstring option" where
  "redirect_of (Redirects p) = Some p"
| "redirect_of (Returns _) = None"

text \<open>Every page, with the role it is for, its path, what it sends and where it redirects.\<close>

inductive page_run :: "visitor \<Rightarrow> WorkspaceRole \<Rightarrow> jsstring \<Rightarrow> sent \<Rightarrow> jsstring option \<Rightarrow> bool" for v where
  "MatchesPage v a = (sent, view) \<Longrightarrow> page_run v Student_Role (js ''/matches'') sent (redirect_of view)"
| "MatchDetailPage v i a = (sent, view) \<Longrightarrow> page_run v Student_Role (js ''/matches/'' @ i) sent (redirect_of view)"
| "ScholarshipsPage v ps a = (sent, view) \<Longrightarrow> page_run v Student_Role (js ''/scholarships'') sent (redirect_of view)"
| "ScholarshipDetailPage v i a b = (sent, view) \<Longrightarrow>
     page_run v Student_Role (js ''/scholarships/'' @ i) sent (redirect_of view)"
| "ApplicationsPage v a b = (sent, view) \<Longrightarrow> page_run v Student_Role (js ''/applications'') sent (redirect_of view)"
| "DocumentsPage v a b c = (sent, view) \<Longrightarrow> page_run v Student_Role (js ''/documents'') sent (redirect_of view)"
| "ProfilePage io v edit a = (sent, view) \<Longrightarrow> page_run v Student_Role (js ''/profile'') sent (redirect_of view)"
| "DashboardPage e v a b c now = (sent, view) \<Longrightarrow> page_run v Student_Role (js ''/dashboard'') sent (redirect_of view)"
| "SettingsPage v = (sent, view) \<Longrightarrow> page_run v Student_Role (js ''/settings'') sent (redirect_of view)"
| "AdminOverviewPage v = (sent, view) \<Longrightarrow> page_run v Admin_Role (js ''/admin'') sent (redirect_of view)"
| "AdminScholarshipsPage v a = (sent, view) \<Longrightarrow> page_run v Admin_Role (js ''/admin/scholarships'') sent (redirect_of view)"
| "AdminIngestionPage v a = (sent, view) \<Longrightarrow> page_run v Admin_Role (js ''/admin/ingestion'') sent (redirect_of view)"
| "AdminIngestionDetailPage v i a = (sent, view) \<Longrightarrow>
     page_run v Admin_Role (js ''/admin/ingestion/'' @ i) sent (redirect_of view)"
| "AdminDuplicatesPage v a = (sent, view) \<Longrightarrow> page_run v Admin_Role (js ''/admin/duplicates'') sent (redirect_of view)"
| "AdminVerificationPage v a = (sent, view) \<Longrightarrow> page_run v Admin_Role (js ''/admin/verification'') sent (redirect_of view)"
| "AdminAuditPage v a = (sent, view) \<Longrightarrow> page_run v Admin_Role (js ''/admin/audit'') sent (redirect_of view)"

definition guarded :: "visitor \<Rightarrow> WorkspaceRole \<Rightarrow> jsstring \<Rightarrow> sent \<Rightarrow> jsstring option \<Rightarrow> bool" where
  "guarded v role path sent to \<longleftrightarrow>
     (\<forall>(token, r) \<in> set sent. vi_token v = Some token \<and> reads r) \<and>
     (case to of
        None \<Rightarrow> \<exists>u. vi_user v = Some u \<and> workspaceRole u = role
      | Some p \<Rightarrow> sent = [] \<and> (p = buildSignInUrl path None \<or> p = js ''/access-denied''))"

lemma reads_options_of [simp]: "reads (options_of GET p None None)"
  by (simp add: reads_def options_of_def)

lemmas list_requests = listMatches_def listScholarships_def listApplications_def listApplicationDeadlines_def
  listDocuments_def getDocumentUploadPolicy_def getDocumentReadiness_def getProfile_options_def listAdminScholarships_def
  listIngestionRuns_def listAdminDuplicateGroups_def listAdminVerificationQueue_def listAdminAuditEvents_def

lemma item_requests:
  "getMatch i = Some r \<Longrightarrow> reads r" "getScholarship i = Some r \<Longrightarrow> reads r"
  "listRelatedScholarships i options = Some r \<Longrightarrow> reads r" "getIngestionRun i = Some r \<Longrightarrow> reads r"
  by (auto simp: getMatch_def getScholarship_def listRelatedScholarships_def getIngestionRun_def)

lemma with_student:
  assumes "with_session (student v path) body = (sent, view)" and "\<forall>r \<in> set (fst body). reads r"
  shows "guarded v Student_Role path sent (redirect_of view)"
proof (cases "student v path")
  case (Returns s)
  with require_student_cases [OF this [unfolded student_def]] assms show ?thesis
    by (auto simp: with_session_def guarded_def)
next
  case (Redirects p)
  with require_redirects(1) [OF this [unfolded student_def]] assms show ?thesis
    by (auto simp: with_session_def guarded_def)
qed

lemma with_admin:
  assumes "with_session (admin v path) body = (sent, view)" and "\<forall>r \<in> set (fst body). reads r"
  shows "guarded v Admin_Role path sent (redirect_of view)"
proof (cases "admin v path")
  case (Returns s)
  with require_admin_cases [OF this [unfolded admin_def]] assms show ?thesis
    by (auto simp: with_session_def guarded_def)
next
  case (Redirects p)
  with require_redirects(2) [OF this [unfolded admin_def]] assms show ?thesis
    by (auto simp: with_session_def guarded_def)
qed

lemma profile_guarded:
  "ProfilePage io v edit a = (sent, view) \<Longrightarrow> guarded v Student_Role (js ''/profile'') sent (redirect_of view)"
  using require_student_cases [of "vi_user v" "vi_token v" "js ''/profile''"]
    require_redirects(1) [of "vi_user v" "vi_token v" "js ''/profile''"]
  by (cases "student v (js ''/profile'')")
    (auto simp: ProfilePage_def loadProfile_def student_def guarded_def list_requests)

lemma dashboard_guarded:
  "DashboardPage e v a b c now = (sent, view) \<Longrightarrow> guarded v Student_Role (js ''/dashboard'') sent (redirect_of view)"
  using require_student_cases [of "vi_user v" "vi_token v" "js ''/dashboard''"]
    require_redirects(1) [of "vi_user v" "vi_token v" "js ''/dashboard''"]
  by (cases "student v (js ''/dashboard'')")
    (auto simp: DashboardPage_def loadDashboard_def student_def guarded_def list_requests)

lemmas student_pages = MatchesPage_def MatchDetailPage_def ScholarshipsPage_def ScholarshipDetailPage_def
  ApplicationsPage_def DocumentsPage_def SettingsPage_def

lemmas admin_pages = AdminOverviewPage_def AdminScholarshipsPage_def AdminIngestionPage_def
  AdminIngestionDetailPage_def AdminDuplicatesPage_def AdminVerificationPage_def AdminAuditPage_def

lemma page_run_guarded: "page_run v role path sent to \<Longrightarrow> guarded v role path sent to"
  by (induction rule: page_run.induct)
    (auto simp: student_pages admin_pages list_requests Let_def profile_guarded dashboard_guarded
      intro!: with_student with_admin dest: item_requests split: option.splits sum.splits)

text \<open>
  Whatever page of the two workspaces is opened, by whomever and whatever the API answers: the page
  only reads, with the visitor's own token and no idempotency key, and it is rendered only for a user
  of its role; otherwise nothing at all is requested and the visitor is sent to the denial page or to
  the sign-in URL of this very page, both on this site.
\<close>

theorem pages_guarded:
  assumes "page_run v role path sent to"
  shows "(\<forall>(token, r) \<in> set sent. vi_token v = Some token \<and> reads r) \<and>
         (to = None \<longrightarrow> (\<exists>u. vi_user v = Some u \<and> workspaceRole u = role)) \<and>
         (\<forall>p. to = Some p \<longrightarrow> sent = [] \<and> \<not> leaves_origin p \<and> (p = buildSignInUrl path None \<or> p = js ''/access-denied''))"
  using page_run_guarded [OF assms] sign_in_url_stays access_denied_stays
  by (auto simp: guarded_def split: option.splits)

lemma pages_guarded_witness:
  "(\<forall>(token, r) \<in> set (fst (MatchesPage \<lparr>vi_user = Some sample_student, vi_token = Some (js ''t'')\<rparr> (Inl Syntax_Error))).
      js ''t'' = token \<and> reads r) \<and>
   fst (MatchesPage \<lparr>vi_user = Some sample_student, vi_token = Some (js ''t'')\<rparr> (Inl Syntax_Error)) \<noteq> []"
proof
  let ?v = "\<lparr>vi_user = Some sample_student, vi_token = Some (js ''t'')\<rparr>"
  have "page_run ?v Student_Role (js ''/matches'') (fst (MatchesPage ?v (Inl Syntax_Error)))
      (redirect_of (snd (MatchesPage ?v (Inl Syntax_Error))))"
    by (rule page_run.intros(1)) simp
  from conjunct1 [OF pages_guarded [OF this]]
  show "\<forall>(token, r) \<in> set (fst (MatchesPage ?v (Inl Syntax_Error))). js ''t'' = token \<and> reads r" by simp
  show "fst (MatchesPage ?v (Inl Syntax_Error)) \<noteq> []"
    by (simp add: MatchesPage_def with_session_def student_def session_defs sample_student_def non_empty_def js_Cons)
qed

text \<open>
  The detail page lets a student start an application only for a published scholarship, and with a
  calendar date for a deadline only when it was rendered before the end of that day in UTC, whatever
  the student does on the page.
\<close>

theorem start_only_while_open:
  assumes "actions_run s (actionable_at engine s now) es (initial_actions s, []) = (t, sent)"
    and "r \<in> set sent" and "starts_application r"
    and "sch_deadline s = Some d \<Longrightarrow> read_date d = Some (day, [])"
  shows "sch_status s = Published \<and> (sch_deadline s = Some d \<longrightarrow> now < (day + 1) * DAY_MS)"
proof -
  have "actions_ok (initial_actions s)"
    by (simp add: actions_ok_def initial_actions_def)
  then have "actionable_at engine s now"
    using actions_run_inv [OF assms(1)] assms(2,3) by auto
  then show ?thesis
    using deadline_through_day(3) [OF assms(4), of engine now]
    by (auto simp: actionable_at_def split: if_split_asm)
qed

lemma start_only_while_open_witness:
  "sch_status (catalogue_entry (js ''a'')) = Published \<and>
   (\<exists>t r. actions_run (catalogue_entry (js ''a'')) (actionable_at (\<lambda>_. None) (catalogue_entry (js ''a'')) 0)
      [Start_Application (js ''u'')] (initial_actions (catalogue_entry (js ''a'')), []) = (t, [r]) \<and> starts_application r)"
proof -
  let ?s = "catalogue_entry (js ''a'')"
  have act: "actionable_at (\<lambda>_. None) ?s 0"
    by (simp add: actionable_at_def catalogue_entry_def deadlineState_def non_empty_def)
  obtain t r where run: "actions_run ?s (actionable_at (\<lambda>_. None) ?s 0) [Start_Application (js ''u'')] (initial_actions ?s, []) = (t, [r])"
      and start: "starts_application r"
    unfolding starts_application_def using act
    by (simp add: initial_actions_def startApplication_def run_action_def Let_def) blast
  have "sch_deadline ?s = Some d \<Longrightarrow> read_date d = Some (0, [])" for d
    by (simp add: catalogue_entry_def)
  from start_only_while_open [OF run _ start this] run start show ?thesis by auto
qed

section \<open>Navigation marks one item\<close>

text \<open>The first segment of a path, and the path after it.\<close>

lemma prefix_segment:
  assumes "\<forall>u \<in> set s. u \<noteq> 0x2F" and "pathname = js ''/'' @ s \<or> prefix ((js ''/'' @ s) @ js ''/'') pathname"
  shows "takeWhile (\<lambda>u. u \<noteq> 0x2F) (drop 1 pathname) = s"
proof -
  have slash: "js ''/'' = [0x2F]" by (simp add: js_def)
  obtain rest where "pathname = 0x2F # s @ rest" "rest = [] \<or> hd rest = 0x2F \<and> rest \<noteq> []"
    using assms(2) unfolding slash by (auto simp: prefix_def)
  with assms(1) show ?thesis
    by (cases rest) (auto simp: takeWhile_append2)
qed

definition segments_of_nav :: "jsstring list" where
  "segments_of_nav = map js [''dashboard'', ''matches'', ''scholarships'', ''applications'', ''documents'', ''profile'', ''settings'']"

lemma nav_segment:
  assumes "href \<in> set NAV_ITEMS" and "nav_active pathname href"
  shows "href = js ''/'' @ takeWhile (\<lambda>u. u \<noteq> 0x2F) (drop 1 pathname)"
proof -
  have "\<exists>s \<in> set segments_of_nav. href = js ''/'' @ s"
    using assms(1) by (auto simp: NAV_ITEMS_def segments_of_nav_def simp flip: js_append)
  then obtain s where s: "s \<in> set segments_of_nav" "href = js ''/'' @ s" by blast
  have "\<forall>s \<in> set segments_of_nav. \<forall>u \<in> set s. u \<noteq> 0x2F" by code_simp
  with s(1) have "\<forall>u \<in> set s. u \<noteq> 0x2F" by blast
  moreover have "pathname = js ''/'' @ s \<or> prefix ((js ''/'' @ s) @ js ''/'') pathname"
    using assms(2) s(2) by (auto simp: nav_active_def)
  ultimately show ?thesis using s(2) prefix_segment by metis
qed

lemma filter_at_most_one:
  "distinct xs \<Longrightarrow> (\<And>x. x \<in> set xs \<Longrightarrow> P x \<Longrightarrow> x = c) \<Longrightarrow> length (filter P xs) \<le> 1"
proof -
  assume "distinct xs" and only: "\<And>x. x \<in> set xs \<Longrightarrow> P x \<Longrightarrow> x = c"
  have "set (filter P xs) \<subseteq> {c}" using only by auto
  then have "card (set (filter P xs)) \<le> card {c}" by (rule card_mono [rotated]) simp
  moreover have "distinct (filter P xs)" using \<open>distinct xs\<close> by simp
  ultimately show ?thesis using distinct_card [of "filter P xs"] by simp
qed

text \<open>
  The navigation of a student marks at most one item as the current page, whatever the path; the
  page of an item, and all pages below it, mark that item.
\<close>

theorem nav_marks_one:
  "length (filter (nav_active pathname) NAV_ITEMS) \<le> 1 \<and>
   (href \<in> set NAV_ITEMS \<longrightarrow> filter (nav_active href) NAV_ITEMS = [href])"
proof
  have "distinct NAV_ITEMS" by (simp add: NAV_ITEMS_def)
  then show "length (filter (nav_active pathname) NAV_ITEMS) \<le> 1"
    using nav_segment by (rule filter_at_most_one)
  have "\<forall>href \<in> set NAV_ITEMS. filter (nav_active href) NAV_ITEMS = [href]" by code_simp
  then show "href \<in> set NAV_ITEMS \<longrightarrow> filter (nav_active href) NAV_ITEMS = [href]" by blast
qed

text \<open>The content behind an open menu is inert, and only then; Escape gives the focus back.\<close>

definition menu_ok :: "menu \<Rightarrow> bool" where
  "menu_ok s \<longleftrightarrow> mn_inert s = mn_open s"

lemma menu_step_ok [inv_intros]: "menu_ok s \<Longrightarrow> menu_ok (menu_step x s)"
  by (cases x) (auto simp: menu_ok_def set_open_def closeMenu_def Let_def)

lemma menu_inert: "menu_ok (fold menu_step xs initial_menu)"
proof -
  have "menu_ok s \<Longrightarrow> menu_ok (fold menu_step xs s)" for s
    by (induction xs arbitrary: s) (simp_all add: menu_step_ok)
  then show ?thesis by (simp add: menu_ok_def initial_menu_def)
qed

lemma escape_restores_focus:
  "mn_open s \<Longrightarrow> mn_focus (menu_step Frame_Runs (menu_step Escape_Pressed s)) = On_Menu_Button \<and>
     \<not> mn_open (menu_step Frame_Runs (menu_step Escape_Pressed s))"
  by (simp add: closeMenu_def set_open_def Let_def)

section \<open>The totals of the dashboard\<close>

lemma sum_by_status: "sum_list (map (\<lambda>st. length (filter (\<lambda>a. app_status a = st) xs)) STATUSES) = length xs"
proof (induction xs)
  case (Cons a xs)
  then show ?case by (cases "app_status a") (simp_all add: STATUSES_def)
qed (simp add: STATUSES_def)

lemma applicationsTotal_length:
  "applicationsTotal (buildDashboardViewModel e p matches applications unavailable now) = length applications"
proof -
  have "countApplications applications = (\<lambda>st. length (filter (\<lambda>a. app_status a = st) applications))"
    by (rule ext) (rule countApplications_length)
  then show ?thesis
    by (simp add: applicationsTotal_def buildDashboardViewModel_def Let_def sum_by_status)
qed

end
