(* ===== verification/Onboarding_Review.thy ===== *)
theory Onboarding_Review
  imports Onboarding_Store Upload Profile_Editor
begin

text \<open>
  What surrounds the wizard: the page that loads the saved progress before the wizard is shown
  (\<^verbatim>\<open>app/(app)/onboarding/onboarding-client.tsx\<close>) and the summary of its last step
  (\<^verbatim>\<open>review-step.tsx\<close>).
\<close>

section \<open>Loading the progress\<close>

text \<open>
  The state of the page and of its effect: \<open>oc_loaded\<close> is the ref that lets the load run once, and each
  load in flight remembers whether the run of the effect that started it is still active.
\<close>

record onboarding_client =
  oc_ready :: bool
  oc_progress :: "json option"
  oc_loaded :: bool
  oc_active :: "bool option"

definition initial_client :: onboarding_client where
  "initial_client = \<lparr>oc_ready = False, oc_progress = None, oc_loaded = False, oc_active = None\<rparr>"

datatype client_event =
    Effect_Runs
  | Effect_Cleaned
  | Load_Arrives "json option"
  | Load_Throws

definition load_settles :: "json option option \<Rightarrow> onboarding_client \<Rightarrow> onboarding_client" where
  "load_settles answer s =
     (case oc_active s of
        Some True \<Rightarrow>
          (case answer of
             Some progress \<Rightarrow> s\<lparr>oc_progress := progress, oc_ready := True\<rparr>
           | None \<Rightarrow> s\<lparr>oc_ready := True\<rparr>)
      | _ \<Rightarrow> s)"

text \<open>The first run of the effect starts the load and leaves a cleanup; later runs return at once.\<close>

fun client_step :: "client_event \<Rightarrow> onboarding_client \<Rightarrow> onboarding_client" where
  "client_step Effect_Runs s = (if oc_loaded s then s else s\<lparr>oc_loaded := True, oc_active := Some True\<rparr>)"
| "client_step Effect_Cleaned s = s\<lparr>oc_active := map_option (\<lambda>_. False) (oc_active s)\<rparr>"
| "client_step (Load_Arrives progress) s = load_settles (Some progress) s"
| "client_step Load_Throws s = load_settles None s"

text \<open>
  What is rendered: the spinner, or the wizard with the draft of what was loaded; \<open>as_draft\<close> is the
  reading of the stored value as a draft.
\<close>

definition client_view :: "(json \<Rightarrow> OnboardingDraft) \<Rightarrow> onboarding_client \<Rightarrow> StepId option \<Rightarrow> wizard option" where
  "client_view as_draft s requested =
     (if oc_ready s then Some (initial_wizard (map_option as_draft (oc_progress s)) requested) else None)"

text \<open>Where the wizard's callbacks lead.\<close>

definition onComplete :: "router_effect list" where
  "onComplete = [Router_Replace (js ''/dashboard''), Router_Refresh]"

definition onSessionExpired :: "router_effect list" where
  "onSessionExpired = [Router_Replace (buildSignInUrl (js ''/onboarding'') (Some (js ''session-expired'')))]"

section \<open>The review\<close>

text \<open>
  A disclosure as text: \<open>None\<close> when formatting throws (a method called on the missing value of a
  shared answer), \<open>Some None\<close> when the text itself is \<open>undefined\<close>.
\<close>

definition formatDisclosure ::
  "'a Disclosure option \<Rightarrow> ('a option \<Rightarrow> jsstring option option) \<Rightarrow> jsstring option option" where
  "formatDisclosure disclosure format =
     (case disclosure of
        None \<Rightarrow> Some (Some (js ''Not answered''))
      | Some (Provided v) \<Rightarrow> format v
      | Some Unknown_Yet \<Rightarrow> Some (Some (js ''Unknown''))
      | Some Prefer_Not_To_Say \<Rightarrow> Some (Some (js ''Prefer not to say'')))"

fun EXPERIENCE_LABELS :: "ExperienceStatus \<Rightarrow> jsstring" where
  "EXPERIENCE_LABELS Has_Experience = js ''Has relevant experience''"
| "EXPERIENCE_LABELS No_Experience = js ''None yet''"
| "EXPERIENCE_LABELS Experience_Unknown = js ''Not sure''"
| "EXPERIENCE_LABELS Experience_Private = js ''Prefer not to say''"

fun STUDY_LABELS :: "ScholarshipStudyLevel \<Rightarrow> jsstring" where
  "STUDY_LABELS LevelUndergraduate = js ''Undergraduate''"
| "STUDY_LABELS LevelPostgraduate = js ''Postgraduate''"
| "STUDY_LABELS LevelDoctoral = js ''Doctoral''"
| "STUDY_LABELS LevelOther = js ''Something else''"

fun CONTACT_LABELS :: "ContactPreference \<Rightarrow> jsstring" where
  "CONTACT_LABELS Contact_Email = js ''Email is fine''"
| "CONTACT_LABELS Contact_None = js ''No preference''"
| "CONTACT_LABELS Contact_Private = js ''Prefer not to say''"

record ReviewRow =
  rr_term :: string
  rr_value :: "jsstring option"

record ReviewGroup =
  rg_step :: StepId
  rg_title :: string
  rg_rows :: "ReviewRow list"

definition row :: "string \<Rightarrow> jsstring \<Rightarrow> ReviewRow" where
  "row name text = \<lparr>rr_term = name, rr_value = Some text\<rparr>"

definition group :: "StepId \<Rightarrow> string \<Rightarrow> ReviewRow list \<Rightarrow> ReviewGroup" where
  "group step title rows = \<lparr>rg_step = step, rg_title = title, rg_rows = rows\<rparr>"

definition country_text :: "OnboardingDraft \<Rightarrow> jsstring" where
  "country_text draft =
     (case non_empty (countryOfResidence draft) of
        Some c \<Rightarrow> or_else (countryName c) c | None \<Rightarrow> js ''Not answered'')"

definition field_text :: "OnboardingDraft \<Rightarrow> jsstring" where
  "field_text draft =
     (if fieldOfStudyUndecided draft = Some True then js ''Haven't decided yet''
      else or_else (nonblank (fieldOfStudy draft)) (js ''Not answered''))"

text \<open>The groups around the four disclosures as they are formatted.\<close>

definition review_groups ::
  "OnboardingDraft \<Rightarrow> jsstring option \<Rightarrow> jsstring option \<Rightarrow> jsstring option \<Rightarrow> jsstring option \<Rightarrow> ReviewGroup list" where
  "review_groups draft p n g acc =
     [group Identity ''About you''
        [row ''Full name'' (or_else (nonblank (fullName draft)) (js ''Not answered'')),
         row ''Preferred name'' (or_else (nonblank (preferredName draft)) (js ''Not added'')),
         \<lparr>rr_term = ''Pronouns'', rr_value = p\<rparr>],
      group Location ''Location''
        [row ''Country of residence'' (country_text draft), \<lparr>rr_term = ''Nationality'', rr_value = n\<rparr>],
      group Education ''Study level''
        [row ''Level'' (case studyLevel draft of Some l \<Rightarrow> STUDY_LABELS l | None \<Rightarrow> js ''Not answered'')],
      group Field ''Field of study'' [row ''Field'' (field_text draft)],
      group Results ''Academic results''
        (\<lparr>rr_term = ''GPA'', rr_value = g\<rparr> #
         (case nonblank (gradingScaleNote draft) of Some t \<Rightarrow> [row ''Scale note'' t] | None \<Rightarrow> [])),
      group Goals ''Goals & interests''
        [row ''Interests''
           (or_else (non_empty (Some (join (js '', '') (or_else (interests draft) [])))) (js ''Not answered'')),
         row ''Goals'' (or_else (nonblank (goals draft)) (js ''Not added''))],
      group Experience ''Experience''
        (row ''Experience''
           (case experienceStatus draft of Some e \<Rightarrow> EXPERIENCE_LABELS e | None \<Rightarrow> js ''Not answered'') #
         (if experienceStatus draft = Some Has_Experience
          then (case nonblank (experienceSummary draft) of Some t \<Rightarrow> [row ''Summary'' t] | None \<Rightarrow> []) else [])),
      group Preferences ''Support & preferences''
        [\<lparr>rr_term = ''Accommodations'', rr_value = acc\<rparr>,
         row ''Contact''
           (case contactPreference draft of Some c \<Rightarrow> CONTACT_LABELS c | None \<Rightarrow> js ''Not added'')]]"

text \<open>\<open>to_fixed\<close> is \<open>Number.prototype.toFixed(1)\<close>.\<close>

definition buildGroups :: "(number \<Rightarrow> jsstring) \<Rightarrow> OnboardingDraft \<Rightarrow> ReviewGroup list option" where
  "buildGroups to_fixed draft =
     (case (formatDisclosure (pronouns draft) Some,
            formatDisclosure (nationality draft) (map_option (\<lambda>v. Some (or_else (countryName v) v))),
            formatDisclosure (gpa draft) (map_option (\<lambda>v. Some (to_fixed v))),
            formatDisclosure (accommodations draft) Some) of
        (Some p, Some n, Some g, Some acc) \<Rightarrow> Some (review_groups draft p n g acc)
      | _ \<Rightarrow> None)"

text \<open>The text of a term on the page, if the review has it.\<close>

definition review_text :: "ReviewGroup list \<Rightarrow> string \<Rightarrow> jsstring option option" where
  "review_text gs name = map_of (map (\<lambda>r. (rr_term r, rr_value r)) (concat (map rg_rows gs))) name"

section \<open>Properties\<close>

text \<open>
  A mount whose effect is not cleaned up leaves the spinner with the first answer of the store, found
  or failed, and later events change nothing; but the ref outlives a cleanup, so a mount whose effect is
  cleaned up and run again before the answer stays on the spinner whatever happens afterwards.
\<close>

theorem remount_stays_loading:
  "(\<forall>answer after. (\<forall>x \<in> set after. x \<noteq> Effect_Cleaned) \<longrightarrow>
      oc_ready (fold client_step (Effect_Runs # (case answer of Some p \<Rightarrow> Load_Arrives p | None \<Rightarrow> Load_Throws) # after)
        initial_client)) \<and>
   (\<forall>after. \<not> oc_ready (fold client_step ([Effect_Runs, Effect_Cleaned, Effect_Runs] @ after) initial_client))"
proof (intro conjI allI impI)
  have stays: "oc_ready s \<Longrightarrow> oc_ready (fold client_step xs s)" for s xs
  proof (induction xs arbitrary: s)
    case (Cons x xs)
    then show ?case
      by (cases x) (auto simp: load_settles_def split: option.split bool.split)
  qed simp
  show "oc_ready (fold client_step (Effect_Runs # (case answer of Some p \<Rightarrow> Load_Arrives p | None \<Rightarrow> Load_Throws) # after)
      initial_client)" for answer after
    by (cases answer) (simp_all add: initial_client_def load_settles_def stays)
  have stuck: "\<not> oc_ready s \<Longrightarrow> oc_loaded s \<Longrightarrow> oc_active s = Some False \<Longrightarrow> \<not> oc_ready (fold client_step xs s)" for s xs
  proof (induction xs arbitrary: s)
    case (Cons x xs)
    then show ?case by (cases x) (simp_all add: load_settles_def)
  qed simp
  show "\<not> oc_ready (fold client_step ([Effect_Runs, Effect_Cleaned, Effect_Runs] @ after) initial_client)" for after
    by (simp add: initial_client_def stuck)
qed

lemma remount_stays_loading_witness:
  "oc_ready (fold client_step [Effect_Runs, Load_Throws] initial_client)"
  using conjunct1 [OF remount_stays_loading, rule_format, of "[]" None] by simp

text \<open>The groups of the review are the steps between the consent and the review, in the order of the wizard.\<close>

lemma review_steps:
  "buildGroups to_fixed draft = Some gs \<Longrightarrow>
     map rg_step gs = filter (\<lambda>s. s \<noteq> Consent \<and> s \<noteq> Review) STEP_ORDER"
  by (auto simp: buildGroups_def review_groups_def group_def STEP_ORDER_eq split: option.splits)

lemma countryName_upper: "isValidCountryCode c \<Longrightarrow> countryName (to_upper c) = countryName c"
  by (simp add: countryName_def to_upper_code)

lemma buildGroups_defined:
  assumes "nationality draft \<noteq> Some (Provided None)" and "gpa draft \<noteq> Some (Provided None)"
  shows "\<exists>gs. buildGroups to_fixed draft = Some gs"
  using assms
  by (auto simp: buildGroups_def formatDisclosure_def split: option.split Disclosure.split)

lemma valid_nationality: "step_valid Location draft \<Longrightarrow> nationality draft \<noteq> Some (Provided None)"
  by (auto simp: step_valid_iff validate_location_def Let_def)

text \<open>What the review says of the fields that are sent, in any draft it can render.\<close>

lemma review_texts:
  assumes "buildGroups to_fixed draft = Some gs"
  shows "review_text gs ''Full name'' = Some (Some (or_else (nonblank (fullName draft)) (js ''Not answered'')))"
    and "review_text gs ''Country of residence'' = Some (Some (country_text draft))"
    and "review_text gs ''Level'' =
           Some (Some (case studyLevel draft of Some l \<Rightarrow> STUDY_LABELS l | None \<Rightarrow> js ''Not answered''))"
    and "review_text gs ''Field'' = Some (Some (field_text draft))"
    and "review_text gs ''GPA'' = Some (the (formatDisclosure (gpa draft) (map_option (\<lambda>v. Some (to_fixed v)))))"
  using assms
  by (auto simp: buildGroups_def review_groups_def review_text_def group_def row_def split: option.splits)

text \<open>
  A draft that has reached the review is rendered there without an error, and what the review shows
  is what the submission sends: the name, the name of the country, the level, the field of study, and a
  GPA exactly when one is sent.
\<close>

theorem review_shows_submission:
  assumes "firstIncompleteStep draft = Some Review"
  shows "\<exists>gs w. buildGroups to_fixed draft = Some gs \<and> draftToProfileWrite draft = Some w \<and>
    review_text gs ''Full name'' = Some (Some (pw_full_name w)) \<and>
    review_text gs ''Country of residence'' = Some (countryName (pw_country w)) \<and>
    review_text gs ''Level'' = Some (Some (STUDY_LABELS (pw_study_level w))) \<and>
    (\<forall>f. pw_field_of_study w = Some f \<longrightarrow> review_text gs ''Field'' = Some (Some f)) \<and>
    (\<forall>v. pw_gpa w = Some v \<longrightarrow> review_text gs ''GPA'' = Some (Some (to_fixed v)))"
proof -
  have valid: "step_valid Identity draft" "step_valid Location draft" "step_valid Education draft"
      "step_valid Results draft" "step_valid Goals draft"
    using Review_reached [OF assms] by (simp_all add: optional_step_def)
  obtain w where w: "draftToProfileWrite draft = Some w"
    using complete_draft_serialises [OF valid] by blast
  obtain c where c: "countryOfResidence draft = Some c" "isValidCountryCode c"
    using valid_location [OF valid(2)] by blast
  obtain gs where gs: "buildGroups to_fixed draft = Some gs"
    using buildGroups_defined [OF valid_nationality [OF valid(2)]] valid_results [OF valid(4), of None] by blast
  have sent: "pw_country w = to_upper c" "nonblank (fullName draft) = Some (pw_full_name w)"
      "studyLevel draft = Some (pw_study_level w)"
      "pw_field_of_study w = (if fieldOfStudyUndecided draft = Some True then None else nonblank (fieldOfStudy draft))"
      "pw_gpa w = (case gpa draft of Some (Provided v) \<Rightarrow> v | _ \<Rightarrow> None)"
    using w c(1) by (auto simp: draftToProfileWrite_def split: option.splits if_split_asm)
  obtain name where name: "countryName c = Some name"
    using valid_country(4) [OF c(2)] by blast
  then have "Some (country_text draft) = countryName (pw_country w)"
    using c valid_country(1) [OF c(2)]
    by (cases c) (simp_all add: country_text_def sent(1) countryName_upper or_else_def non_empty_def)
  moreover have "review_text gs ''GPA'' = Some (Some (to_fixed v))" if "pw_gpa w = Some v" for v
    using that unfolding review_texts(5) [OF gs] sent(5)
    by (auto simp: formatDisclosure_def split: option.splits Disclosure.splits)
  moreover have "review_text gs ''Field'' = Some (Some f)" if "pw_field_of_study w = Some f" for f
    using that unfolding review_texts(4) [OF gs] sent(4)
    by (auto simp: field_text_def or_else_def split: if_split_asm)
  ultimately show ?thesis
    using gs w review_texts(1-3) [OF gs] by (auto simp: sent(2,3) or_else_def)
qed

lemma review_shows_submission_witness:
  "\<exists>gs w. buildGroups (\<lambda>_. []) example_draft = Some gs \<and> draftToProfileWrite example_draft = Some w \<and>
     review_text gs ''Full name'' = Some (Some (pw_full_name w))"
  using review_shows_submission [OF example_reviewed, of "\<lambda>_. []"] by blast

end
