(* ===== verification/Observability.thy ===== *)
theory Observability
  imports Routing
begin

text \<open>
  The reports of the browser, \<^verbatim>\<open>app/lib/observability/client.ts\<close>: which events are sent, to where, and what
  is in them.
\<close>

definition WEB_VITAL_NAMES :: "jsstring list" where
  "WEB_VITAL_NAMES = [js ''CLS'', js ''FCP'', js ''FID'', js ''INP'', js ''LCP'', js ''TTFB'']"

datatype vital_rating = Good_Rating | Needs_Improvement | Poor_Rating | Unknown_Rating

definition RATINGS :: "(jsstring, vital_rating) dict" where
  "RATINGS = [(js ''good'', Good_Rating), (js ''needs-improvement'', Needs_Improvement), (js ''poor'', Poor_Rating)]"

definition MARKETING_CTA_IDS :: "jsstring list" where
  "MARKETING_CTA_IDS = map js
     [''closing_create_profile'', ''closing_dashboard'', ''closing_sign_in'', ''closing_view_matches'',
      ''faq_all_questions'', ''how_it_works_details'', ''match_anatomy_glossary'', ''resources_guide'',
      ''stories_student_paths'']"

datatype RouteGroup =
    Marketing_Group
  | Auth_Group
  | Student_Group
  | Administration_Group
  | Unknown_Group

datatype fault_source = Error_Boundary | Window_Error | Unhandled_Rejection

datatype OperationalEvent =
    Web_Vital jsstring vital_rating number RouteGroup
  | Client_Fault fault_source RouteGroup
  | Marketing_Cta jsstring jsstring

definition routeGroup :: "jsstring \<Rightarrow> RouteGroup" where
  "routeGroup pathname =
     (if pathname = js ''/'' then Marketing_Group
      else if list_ex (\<lambda>p. prefix (js p) pathname)
                [''/sign-in'', ''/sign-up'', ''/forgot-password'', ''/reset-password'', ''/verify-email'']
      then Auth_Group
      else if pathname = js ''/admin'' \<or> prefix (js ''/admin/'') pathname then Administration_Group
      else if list_ex (\<lambda>p. pathname = js p \<or> prefix (js p @ js ''/'') pathname)
                [''/dashboard'', ''/onboarding'', ''/matches'', ''/scholarships'', ''/applications'', ''/documents'',
                 ''/profile'', ''/settings'']
      then Student_Group
      else Unknown_Group)"

text \<open>
  The browser: the configured endpoint, the two privacy signals, the page, and the reading of a URL
  against the origin (its origin and its path, or nothing when it throws).
\<close>

record report_env =
  re_endpoint :: "jsstring option"
  re_doNotTrack :: "jsstring option"
  re_globalPrivacyControl :: "bool option"
  re_origin :: jsstring
  re_pathname :: jsstring
  re_url :: "jsstring \<Rightarrow> (jsstring \<times> jsstring) option"

definition reportingEndpoint :: "report_env \<Rightarrow> jsstring option" where
  "reportingEndpoint e =
     (case re_endpoint e of
        None \<Rightarrow> None
      | Some v \<Rightarrow>
          (let candidate = trim v
           in if candidate \<noteq> [] \<and> prefix (js ''/'') candidate \<and> \<not> prefix (js ''//'') candidate
              then Some candidate else None))"

definition trackingDisabled :: "report_env \<Rightarrow> bool" where
  "trackingDisabled e \<longleftrightarrow> re_doNotTrack e = Some (js ''1'') \<or> re_globalPrivacyControl e = Some True"

text \<open>What is sent: the endpoint and the event, without credentials.\<close>

definition send :: "report_env \<Rightarrow> OperationalEvent \<Rightarrow> (jsstring \<times> OperationalEvent) list" where
  "send e event =
     (case reportingEndpoint e of
        None \<Rightarrow> []
      | Some endpoint \<Rightarrow> if trackingDisabled e then [] else [(endpoint, event)])"

fun thousandths :: "number \<Rightarrow> number" where
  "thousandths (Fin x) = Fin (of_int (math_round (x * 1000)) / 1000)"
| "thousandths n = n"

definition reportWebVital :: "report_env \<Rightarrow> jsstring \<Rightarrow> number \<Rightarrow> jsstring option \<Rightarrow> (jsstring \<times> OperationalEvent) list" where
  "reportWebVital e name v rating =
     (if name \<notin> set WEB_VITAL_NAMES \<or> \<not> is_finite v then []
      else send e (Web_Vital name (case map_of RATINGS (case rating of Some r \<Rightarrow> r | None \<Rightarrow> []) of
                                     Some r \<Rightarrow> r | None \<Rightarrow> Unknown_Rating)
                     (thousandths v) (routeGroup (re_pathname e))))"

definition reportClientFault :: "report_env \<Rightarrow> fault_source \<Rightarrow> (jsstring \<times> OperationalEvent) list" where
  "reportClientFault e source = send e (Client_Fault source (routeGroup (re_pathname e)))"

definition reportMarketingCta :: "report_env \<Rightarrow> jsstring \<Rightarrow> jsstring \<Rightarrow> (jsstring \<times> OperationalEvent) list" where
  "reportMarketingCta e ctaId destination =
     (if ctaId \<notin> set MARKETING_CTA_IDS then []
      else (case re_url e destination of
              None \<Rightarrow> []
            | Some (origin, pathname) \<Rightarrow> if origin \<noteq> re_origin e then [] else send e (Marketing_Cta ctaId pathname)))"

lemmas [js_defs] = WEB_VITAL_NAMES_def RATINGS_def MARKETING_CTA_IDS_def routeGroup_def reportingEndpoint_def
  trackingDisabled_def send_def reportWebVital_def reportClientFault_def reportMarketingCta_def

section \<open>Properties\<close>

text \<open>The events of the policy: a known metric with a finite value, a fault, a known link of this site.\<close>

fun within_policy :: "report_env \<Rightarrow> OperationalEvent \<Rightarrow> bool" where
  "within_policy e (Web_Vital name rating v g) \<longleftrightarrow>
     name \<in> set WEB_VITAL_NAMES \<and> (\<exists>k. v = Fin (of_int k / 1000)) \<and> g = routeGroup (re_pathname e)"
| "within_policy e (Client_Fault source g) \<longleftrightarrow> g = routeGroup (re_pathname e)"
| "within_policy e (Marketing_Cta i route) \<longleftrightarrow>
     i \<in> set MARKETING_CTA_IDS \<and> (\<exists>destination. re_url e destination = Some (re_origin e, route))"

definition all_reports :: "report_env \<Rightarrow> (jsstring \<times> OperationalEvent) set" where
  "all_reports e =
     {r. (\<exists>name v rating. r \<in> set (reportWebVital e name v rating)) \<or>
         (\<exists>source. r \<in> set (reportClientFault e source)) \<or>
         (\<exists>i destination. r \<in> set (reportMarketingCta e i destination))}"

lemma send_sent:
  "(endpoint, event) \<in> set (send e x) \<Longrightarrow>
     event = x \<and> reportingEndpoint e = Some endpoint \<and> \<not> trackingDisabled e"
  by (auto simp: send_def split: option.splits if_split_asm)

lemma thousandths_Fin: "is_finite v \<Longrightarrow> \<exists>k. thousandths v = Fin (of_int k / 1000)"
  by (cases v) auto


definition sample_reports :: "jsstring \<Rightarrow> report_env" where
  "sample_reports endpoint =
     \<lparr>re_endpoint = Some endpoint, re_doNotTrack = None, re_globalPrivacyControl = None, re_origin = js ''https://s.org'',
      re_pathname = js ''/documents/secret'', re_url = (\<lambda>_. None)\<rparr>"


text \<open>
  The check of the endpoint does not keep the reports on the site: a path with a backslash after
  its slash passes, and a browser reads it as another host.
\<close>

theorem endpoint_can_leave:
  "reportingEndpoint (sample_reports (js ''/'' @ [0x5C] @ js ''evil.org/v'')) = Some (js ''/'' @ [0x5C] @ js ''evil.org/v'') \<and>
   leaves_origin (js ''/'' @ [0x5C] @ js ''evil.org/v'')"
  by code_simp

end
