(* ===== verification/Marketing_Demos.thy ===== *)
theory Marketing_Demos
  imports Prelude
begin

text \<open>
  The moving parts of the public pages, \<^verbatim>\<open>app/components/marketing\<close>: the carousel of student stories, the
  demonstration of a match with its tabs and its store, the checklist, the explorer of example
  opportunities and the menus.
\<close>

section \<open>Moving through a row of items\<close>

datatype key = Arrow_Left | Arrow_Right | Home_Key | End_Key | Escape_Key | Other_Key

text \<open>The item a key leads to, among \<open>n\<close> items, from item \<open>i\<close>; used by the tabs and the examples.\<close>

fun roving :: "nat \<Rightarrow> nat \<Rightarrow> key \<Rightarrow> nat option" where
  "roving n i Arrow_Right = Some ((i + 1) mod n)"
| "roving n i Arrow_Left = Some ((i + n - 1) mod n)"
| "roving n i Home_Key = Some 0"
| "roving n i End_Key = Some (n - 1)"
| "roving n i _ = None"

lemma roving_bound: "0 < n \<Longrightarrow> roving n i k = Some j \<Longrightarrow> j < n"
  by (cases k) auto

lemma roving_back:
  assumes "i < n"
  shows "roving n (the (roving n i Arrow_Right)) Arrow_Left = Some i"
    and "roving n (the (roving n i Arrow_Left)) Arrow_Right = Some i"
proof -
  show "roving n (the (roving n i Arrow_Right)) Arrow_Left = Some i"
  proof (cases "i + 1 = n")
    case False
    with assms have "(i + 1) mod n = i + 1" by simp
    with assms show ?thesis by simp
  qed (use assms in auto)
  show "roving n (the (roving n i Arrow_Left)) Arrow_Right = Some i"
  proof (cases i)
    case 0
    with assms show ?thesis by simp
  next
    case (Suc m)
    with assms have "(i + n - 1) mod n = m" by simp
    with assms Suc show ?thesis by simp
  qed
qed

section \<open>The student stories\<close>

text \<open>Stories carry their approval; the illustrative journeys are shown only while none is approved.\<close>

record 'a story =
  st_approved :: bool
  st_content :: 'a

datatype 'a carousel_item = Approved_Story 'a | Illustrative_Journey 'a

definition carousel_items :: "'a story list \<Rightarrow> 'a list \<Rightarrow> 'a carousel_item list" where
  "carousel_items approvedStories exampleJourneys =
     (let approved = filter st_approved approvedStories
      in if approved \<noteq> [] then map (Approved_Story \<circ> st_content) approved
         else map Illustrative_Journey exampleJourneys)"

definition nextStoryIndexFromDrag :: "nat \<Rightarrow> nat \<Rightarrow> rat \<Rightarrow> nat" where
  "nextStoryIndexFromDrag activeIndex itemCount offsetX =
     (if itemCount < 2 \<or> \<bar>offsetX\<bar> < 50 then activeIndex
      else if offsetX < 0 then (activeIndex + 1) mod itemCount
      else (activeIndex + itemCount - 1) mod itemCount)"

record carousel =
  ca_activeIndex :: nat
  ca_forward :: bool
  ca_userPaused :: bool
  ca_interactionPaused :: bool

definition initial_carousel :: carousel where
  "initial_carousel =
     \<lparr>ca_activeIndex = 0, ca_forward = True, ca_userPaused = False, ca_interactionPaused = False\<rparr>"

text \<open>The browser: whether motion is reduced and whether the page is visible.\<close>

record motion =
  mo_reduce :: bool
  mo_visible :: bool

definition allowMotion :: "motion \<Rightarrow> bool" where
  "allowMotion m \<longleftrightarrow> \<not> mo_reduce m \<and> mo_visible m"

definition autoplayActive :: "motion \<Rightarrow> nat \<Rightarrow> carousel \<Rightarrow> bool" where
  "autoplayActive m n s \<longleftrightarrow>
     1 < n \<and> \<not> mo_reduce m \<and> mo_visible m \<and> \<not> ca_userPaused s \<and> \<not> ca_interactionPaused s"

definition renderedIndex :: "nat \<Rightarrow> carousel \<Rightarrow> nat" where
  "renderedIndex n s = min (ca_activeIndex s) (n - 1)"

text \<open>\<open>index\<close> is the index plus the number of items, so that it never is below zero.\<close>

definition show_slide :: "nat \<Rightarrow> nat \<Rightarrow> bool \<Rightarrow> carousel \<Rightarrow> carousel" where
  "show_slide n index forward s =
     s\<lparr>ca_forward := forward, ca_activeIndex := index mod n, ca_userPaused := True\<rparr>"

datatype carousel_event =
    Tick
  | Key_Pressed key
  | Previous_Clicked
  | Next_Clicked
  | Dot_Clicked nat
  | Pause_Clicked
  | Dragged rat
  | Focus_In
  | Focus_Out
  | Pointer_In
  | Pointer_Out

text \<open>The interval runs only while autoplay is active; the buttons are disabled on a single item.\<close>

fun carousel_step :: "motion \<Rightarrow> nat \<Rightarrow> carousel_event \<Rightarrow> carousel \<Rightarrow> carousel" where
  "carousel_step m n Tick s =
     (if autoplayActive m n s then s\<lparr>ca_forward := True, ca_activeIndex := (ca_activeIndex s + 1) mod n\<rparr> else s)"
| "carousel_step m n (Key_Pressed Arrow_Left) s = show_slide n (renderedIndex n s + n - 1) False s"
| "carousel_step m n (Key_Pressed Arrow_Right) s = show_slide n (renderedIndex n s + 1 + n) True s"
| "carousel_step m n (Key_Pressed Home_Key) s = show_slide n n False s"
| "carousel_step m n (Key_Pressed End_Key) s = show_slide n (n - 1 + n) True s"
| "carousel_step m n (Key_Pressed _) s = s"
| "carousel_step m n Previous_Clicked s = (if 1 < n then show_slide n (renderedIndex n s + n - 1) False s else s)"
| "carousel_step m n Next_Clicked s = (if 1 < n then show_slide n (renderedIndex n s + 1 + n) True s else s)"
| "carousel_step m n (Dot_Clicked i) s = (if i < n then show_slide n (i + n) (renderedIndex n s \<le> i) s else s)"
| "carousel_step m n Pause_Clicked s =
     (if 1 < n \<and> \<not> mo_reduce m then s\<lparr>ca_userPaused := \<not> ca_userPaused s\<rparr> else s)"
| "carousel_step m n (Dragged offset) s =
     (if \<not> mo_reduce m \<and> 1 < n
      then (let next = nextStoryIndexFromDrag (renderedIndex n s) n offset
            in if next = renderedIndex n s then s else show_slide n (next + n) (offset < 0) s)
      else s)"
| "carousel_step m n Focus_In s = s\<lparr>ca_interactionPaused := True\<rparr>"
| "carousel_step m n Focus_Out s = s\<lparr>ca_interactionPaused := False\<rparr>"
| "carousel_step m n Pointer_In s = s\<lparr>ca_interactionPaused := True\<rparr>"
| "carousel_step m n Pointer_Out s = s\<lparr>ca_interactionPaused := False\<rparr>"

text \<open>The slide on the page; without items the page says so.\<close>

definition shown_slide :: "'a story list \<Rightarrow> 'a list \<Rightarrow> carousel \<Rightarrow> 'a carousel_item option" where
  "shown_slide approvedStories exampleJourneys s =
     (let items = carousel_items approvedStories exampleJourneys
      in if items = [] then None else Some (items ! renderedIndex (length items) s))"

section \<open>The matching demonstration\<close>

text \<open>The store two components share: the chosen example and how many listen.\<close>

record demo_store =
  ds_selected :: int
  ds_listeners :: nat

definition initial_store :: demo_store where
  "initial_store = \<lparr>ds_selected = 0, ds_listeners = 0\<rparr>"

definition subscribe :: "demo_store \<Rightarrow> demo_store" where
  "subscribe s = s\<lparr>ds_listeners := ds_listeners s + 1\<rparr>"

definition unsubscribe :: "demo_store \<Rightarrow> demo_store" where
  "unsubscribe s =
     (let left = ds_listeners s - 1
      in s\<lparr>ds_listeners := left, ds_selected := (if left = 0 then 0 else ds_selected s)\<rparr>)"

text \<open>An index outside of the examples is ignored; the result says whether the listeners are called.\<close>

definition setMatchingScenario :: "nat \<Rightarrow> int \<Rightarrow> demo_store \<Rightarrow> demo_store \<times> bool" where
  "setMatchingScenario n index s =
     (if index = ds_selected s \<or> \<not> (0 \<le> index \<and> index < int n) then (s, False)
      else (s\<lparr>ds_selected := index\<rparr>, True))"

datatype PlaybackState = Playback_Complete | Playback_Paused | Playback_Playing

record hero =
  he_playback :: PlaybackState
  he_run :: nat
  he_store :: demo_store

definition chooseScenario :: "nat \<Rightarrow> motion \<Rightarrow> int \<Rightarrow> hero \<Rightarrow> hero" where
  "chooseScenario n m index s =
     s\<lparr>he_store := fst (setMatchingScenario n index (he_store s)), he_run := he_run s + 1,
       he_playback := (if allowMotion m then Playback_Playing else Playback_Paused)\<rparr>"

definition handleScenarioKeyDown :: "nat \<Rightarrow> motion \<Rightarrow> key \<Rightarrow> nat \<Rightarrow> hero \<Rightarrow> hero" where
  "handleScenarioKeyDown n m k index s =
     (case roving n index k of None \<Rightarrow> s | Some next \<Rightarrow> chooseScenario n m (int next) s)"

definition togglePlayback :: "motion \<Rightarrow> hero \<Rightarrow> hero" where
  "togglePlayback m s =
     (if \<not> allowMotion m then s
      else if he_playback s = Playback_Playing then s\<lparr>he_playback := Playback_Paused\<rparr>
      else s\<lparr>he_run := (if he_playback s = Playback_Complete then he_run s + 1 else he_run s),
             he_playback := Playback_Playing\<rparr>)"

definition replay :: "motion \<Rightarrow> hero \<Rightarrow> hero" where
  "replay m s =
     s\<lparr>he_run := he_run s + 1, he_playback := (if allowMotion m then Playback_Playing else Playback_Paused)\<rparr>"

definition animation_done :: "hero \<Rightarrow> hero" where
  "animation_done s = s\<lparr>he_playback := Playback_Complete\<rparr>"

section \<open>The checklist, the explorer and the tabs of the product story\<close>

definition checklist_sizes :: "nat list" where
  "checklist_sizes = [4, 3, 3, 3, 4]"

definition itemIds :: "(nat \<times> nat) list" where
  "itemIds = concat (map (\<lambda>(g, n). map (Pair g) [0..<n]) (enumerate 0 checklist_sizes))"

definition toggle_check :: "nat \<times> nat \<Rightarrow> (nat \<times> nat) list \<Rightarrow> (nat \<times> nat) list" where
  "toggle_check i checked = (if i \<in> set checked then filter (\<lambda>j. j \<noteq> i) checked else checked @ [i])"

text \<open>A card holds its attributes; a select its attribute (if it has one) and the chosen value.\<close>

type_synonym card_attributes = "jsstring \<Rightarrow> jsstring option"

definition card_matches :: "(jsstring option \<times> jsstring) list \<Rightarrow> card_attributes \<Rightarrow> bool" where
  "card_matches selects attrs \<longleftrightarrow>
     list_all (\<lambda>(name, chosen). chosen = [] \<or>
       (case name of Some k \<Rightarrow> k = [] \<or> attrs k = Some chosen | None \<Rightarrow> True)) selects"

text \<open>What \<open>update\<close> writes to the page: the hidden cards, the count, the empty note and the buttons.\<close>

record explorer =
  ex_hidden :: "bool list"
  ex_count :: jsstring
  ex_empty_hidden :: bool
  ex_clear_disabled :: bool

definition update_explorer :: "(jsstring option \<times> jsstring) list \<Rightarrow> card_attributes list \<Rightarrow> explorer" where
  "update_explorer selects cards =
     (let visible = length (filter (card_matches selects) cards)
      in \<lparr>ex_hidden = map (\<lambda>c. \<not> card_matches selects c) cards,
          ex_count = js_of_nat visible @ js '' illustrative '' @ (if visible = 1 then js ''result'' else js ''results''),
          ex_empty_hidden = (visible \<noteq> 0),
          ex_clear_disabled = list_all (\<lambda>s. snd s = []) selects\<rparr>)"

definition clear_selects :: "(jsstring option \<times> jsstring) list \<Rightarrow> (jsstring option \<times> jsstring) list" where
  "clear_selects selects = map (\<lambda>(name, _). (name, [])) selects"

text \<open>\<open>activate\<close>: the selected tabs and the visible panels.\<close>

definition activate :: "nat \<Rightarrow> nat \<Rightarrow> nat \<Rightarrow> bool list \<times> bool list" where
  "activate tabs panels index = (map (\<lambda>i. i = index) [0..<tabs], map (\<lambda>i. i = index) [0..<panels])"

text \<open>The count and the bar of the readiness areas.\<close>

definition readiness :: "bool list \<Rightarrow> nat \<times> rat \<times> bool" where
  "readiness inputs =
     (let complete = length (filter id inputs)
      in (complete, if inputs = [] then 0 else of_nat complete / of_nat (length inputs), complete = 0))"

section \<open>The menus of the public pages\<close>

record site_nav =
  sn_desktopOpen :: "nat option"
  sn_mobileOpen :: bool
  sn_mobileGroup :: "nat option"
  sn_background_inert :: bool
  sn_path_frame :: bool

definition initial_nav :: site_nav where
  "initial_nav =
     \<lparr>sn_desktopOpen = None, sn_mobileOpen = False, sn_mobileGroup = None, sn_background_inert = False,
      sn_path_frame = False\<rparr>"

text \<open>The effect of \<open>mobileOpen\<close>: the background is inert while the panel is open, and restored after it.\<close>

definition set_mobile :: "bool \<Rightarrow> site_nav \<Rightarrow> site_nav" where
  "set_mobile shown s = s\<lparr>sn_mobileOpen := shown, sn_background_inert := shown\<rparr>"

definition closeMobile :: "site_nav \<Rightarrow> site_nav" where
  "closeMobile s = (set_mobile False s)\<lparr>sn_mobileGroup := None\<rparr>"

datatype nav_event =
    Trigger_Clicked nat
  | Trigger_Arrow_Down nat
  | Mouse_Enters nat
  | Mouse_Leaves
  | Focus_Leaves_Group
  | Desktop_Link_Followed
  | Menu_Opened
  | Mobile_Closed
  | Mobile_Link_Followed
  | Mobile_Group_Clicked nat
  | Escape_Key_Down
  | Outside_Pressed
  | Path_Changed
  | Path_Frame

fun site_nav_step :: "nav_event \<Rightarrow> site_nav \<Rightarrow> site_nav" where
  "site_nav_step (Trigger_Clicked g) s = s\<lparr>sn_desktopOpen := Some g\<rparr>"
| "site_nav_step (Trigger_Arrow_Down g) s = s\<lparr>sn_desktopOpen := Some g\<rparr>"
| "site_nav_step (Mouse_Enters g) s = s\<lparr>sn_desktopOpen := Some g\<rparr>"
| "site_nav_step Mouse_Leaves s = s\<lparr>sn_desktopOpen := None\<rparr>"
| "site_nav_step Focus_Leaves_Group s = s\<lparr>sn_desktopOpen := None\<rparr>"
| "site_nav_step Desktop_Link_Followed s = s\<lparr>sn_desktopOpen := None\<rparr>"
| "site_nav_step Menu_Opened s = set_mobile True s"
| "site_nav_step Mobile_Closed s = closeMobile s"
| "site_nav_step Mobile_Link_Followed s = closeMobile s"
| "site_nav_step (Mobile_Group_Clicked g) s =
     (if sn_mobileOpen s
      then s\<lparr>sn_mobileGroup := (if sn_mobileGroup s = Some g then None else Some g)\<rparr> else s)"
| "site_nav_step Escape_Key_Down s =
     (if sn_mobileOpen s then closeMobile s else s\<lparr>sn_desktopOpen := None\<rparr>)"
| "site_nav_step Outside_Pressed s =
     (if sn_desktopOpen s \<noteq> None \<or> sn_mobileOpen s then closeMobile (s\<lparr>sn_desktopOpen := None\<rparr>) else s)"
| "site_nav_step Path_Changed s = s\<lparr>sn_path_frame := True\<rparr>"
| "site_nav_step Path_Frame s =
     (if sn_path_frame s then (closeMobile s)\<lparr>sn_desktopOpen := None, sn_path_frame := False\<rparr> else s)"

text \<open>The item of the public navigation a path belongs to; the link may carry a query or a fragment.\<close>

definition isMarketingHrefActive :: "jsstring \<Rightarrow> jsstring \<Rightarrow> bool" where
  "isMarketingHrefActive pathname href =
     (let cut = takeWhile (\<lambda>u. u \<noteq> 0x3F \<and> u \<noteq> 0x23) href;
          hrefPath = (if cut = [] then js ''/'' else cut)
      in if hrefPath = js ''/'' then pathname = js ''/''
         else pathname = hrefPath \<or> prefix (hrefPath @ js ''/'') pathname)"

section \<open>Properties\<close>

definition carousel_run :: "(motion \<times> carousel_event) list \<Rightarrow> nat \<Rightarrow> carousel \<Rightarrow> carousel" where
  "carousel_run xs n s = fold (\<lambda>(m, x). carousel_step m n x) xs s"

lemma show_slide_index: "0 < n \<Longrightarrow> ca_activeIndex (show_slide n i f s) < n"
  by (simp add: show_slide_def)

lemma carousel_step_index: "0 < n \<Longrightarrow> ca_activeIndex s < n \<Longrightarrow> ca_activeIndex (carousel_step m n x s) < n"
  by (cases "(m, n, x, s)" rule: carousel_step.cases) (auto simp: show_slide_index Let_def)

lemma carousel_run_index: "0 < n \<Longrightarrow> ca_activeIndex s < n \<Longrightarrow> ca_activeIndex (carousel_run xs n s) < n"
  unfolding carousel_run_def
  by (induction xs arbitrary: s) (auto simp: carousel_step_index)

text \<open>
  In every run of the carousel the slide on the page is one of the items, an approved story whenever
  there is one and an illustrative journey otherwise; a story that is not approved is never shown.
\<close>

theorem only_approved_stories:
  assumes "carousel_items stories journeys \<noteq> []"
    and "s = carousel_run xs (length (carousel_items stories journeys)) initial_carousel"
  shows "ca_activeIndex s < length (carousel_items stories journeys) \<and>
    ((\<exists>st \<in> set stories. st_approved st \<and> shown_slide stories journeys s = Some (Approved_Story (st_content st))) \<or>
     (\<forall>st \<in> set stories. \<not> st_approved st) \<and>
       (\<exists>j \<in> set journeys. shown_slide stories journeys s = Some (Illustrative_Journey j)))"
proof -
  let ?items = "carousel_items stories journeys"
  have index: "ca_activeIndex s < length ?items"
    unfolding assms(2) using assms(1) by (intro carousel_run_index) (simp_all add: initial_carousel_def)
  then have "shown_slide stories journeys s = Some (?items ! ca_activeIndex s)"
    using assms(1) by (auto simp: shown_slide_def renderedIndex_def Let_def min_def)
  moreover have "?items ! ca_activeIndex s \<in> set ?items" using index by simp
  then have "(\<exists>st \<in> set stories. st_approved st \<and> ?items ! ca_activeIndex s = Approved_Story (st_content st)) \<or>
      (\<forall>st \<in> set stories. \<not> st_approved st) \<and> (\<exists>j \<in> set journeys. ?items ! ca_activeIndex s = Illustrative_Journey j)"
  proof (cases "filter st_approved stories = []")
    case True
    with \<open>?items ! ca_activeIndex s \<in> set ?items\<close> show ?thesis
      by (auto simp: carousel_items_def filter_empty_conv)
  next
    case False
    then have "set ?items = (Approved_Story \<circ> st_content) ` set (filter st_approved stories)"
      by (simp add: carousel_items_def)
    with \<open>?items ! ca_activeIndex s \<in> set ?items\<close> show ?thesis by auto
  qed
  ultimately show ?thesis using index by simp
qed

lemma only_approved_stories_witness:
  "shown_slide [\<lparr>st_approved = False, st_content = 1 :: nat\<rparr>, \<lparr>st_approved = True, st_content = 2\<rparr>] [3]
     (carousel_run [(\<lparr>mo_reduce = False, mo_visible = True\<rparr>, Tick)] 1 initial_carousel) = Some (Approved_Story 2)"
proof -
  let ?stories = "[\<lparr>st_approved = False, st_content = 1 :: nat\<rparr>, \<lparr>st_approved = True, st_content = 2\<rparr>]"
  let ?xs = "[(\<lparr>mo_reduce = False, mo_visible = True\<rparr>, Tick)]"
  have items: "carousel_items ?stories [3] = [Approved_Story 2]"
    by (simp add: carousel_items_def)
  then have "carousel_items ?stories [3] \<noteq> []" "length (carousel_items ?stories [3]) = 1" by simp_all
  from only_approved_stories [OF this(1) refl, of ?xs, unfolded this(2)] show ?thesis by simp
qed

text \<open>
  Slides advance by themselves only while motion is welcome, the page is visible and the visitor has
  neither paused nor chosen a slide; but the pointer and the focus share one flag: when the pointer
  leaves while the focus is inside, the slides move on under the focus.
\<close>

theorem pointer_leave_resumes:
  "(ca_activeIndex (carousel_step m n Tick s) \<noteq> ca_activeIndex s \<longrightarrow>
      1 < n \<and> allowMotion m \<and> \<not> ca_userPaused s \<and> \<not> ca_interactionPaused s) \<and>
   (1 < n \<and> allowMotion m \<longrightarrow>
      ca_activeIndex (carousel_run [(m, Focus_In), (m, Pointer_In), (m, Pointer_Out), (m, Tick)] n initial_carousel) = 1)"
  by (simp add: autoplayActive_def allowMotion_def carousel_run_def initial_carousel_def)

lemma pointer_leave_resumes_witness:
  "ca_activeIndex (carousel_run (map (Pair \<lparr>mo_reduce = False, mo_visible = True\<rparr>)
     [Focus_In, Pointer_In, Pointer_Out, Tick]) 3 initial_carousel) = 1"
  using pointer_leave_resumes [of "\<lparr>mo_reduce = False, mo_visible = True\<rparr>" 3 initial_carousel]
  by (simp add: allowMotion_def)

text \<open>The chosen example is one of the examples, whatever a component asks for, and the first without listeners.\<close>

lemma demo_store_bounds:
  "0 < n \<Longrightarrow> 0 \<le> ds_selected s \<and> ds_selected s < int n \<Longrightarrow>
     0 \<le> ds_selected (fst (setMatchingScenario n i s)) \<and> ds_selected (fst (setMatchingScenario n i s)) < int n"
  "0 < n \<Longrightarrow> 0 \<le> ds_selected s \<and> ds_selected s < int n \<Longrightarrow>
     0 \<le> ds_selected (unsubscribe s) \<and> ds_selected (unsubscribe s) < int n"
  "ds_listeners (unsubscribe s) = 0 \<Longrightarrow> ds_selected (unsubscribe s) = 0"
  by (auto simp: setMatchingScenario_def unsubscribe_def Let_def)

text \<open>Every restart of the animation has a key of its own, and nothing plays where motion is not welcome.\<close>

lemma replay_restarts:
  "he_run (chooseScenario n m i s) = Suc (he_run s)" "he_run (replay m s) = Suc (he_run s)"
  "he_run s \<le> he_run (togglePlayback m s)"
  "\<not> allowMotion m \<Longrightarrow> he_playback (chooseScenario n m i s) = Playback_Paused"
  "\<not> allowMotion m \<Longrightarrow> he_playback (replay m s) = Playback_Paused" "\<not> allowMotion m \<Longrightarrow> togglePlayback m s = s"
  by (simp_all add: chooseScenario_def replay_def togglePlayback_def)

text \<open>The checklist: no item is counted twice, so the bar never passes its maximum.\<close>

lemma toggle_check_bound:
  assumes "set checked \<subseteq> set itemIds" and "distinct checked" and "i \<in> set itemIds"
  shows "set (toggle_check i checked) \<subseteq> set itemIds \<and> distinct (toggle_check i checked) \<and>
         length (toggle_check i checked) \<le> 17"
proof -
  have "set (toggle_check i checked) \<subseteq> set itemIds" "distinct (toggle_check i checked)"
    using assms by (auto simp: toggle_check_def)
  moreover from this have "length (toggle_check i checked) \<le> card (set itemIds)"
    by (metis card_mono distinct_card finite_set)
  moreover have "card (set itemIds) \<le> 17"
  proof -
    have "length itemIds = 17" by (simp add: itemIds_def checklist_sizes_def enumerate_eq_zip upt_rec)
    then show ?thesis using card_length [of itemIds] by simp
  qed
  ultimately show ?thesis by simp
qed

text \<open>Clearing the filters shows every card and disables the button that clears.\<close>

lemma clear_shows_all:
  "ex_hidden (update_explorer (clear_selects selects) cards) = replicate (length cards) False"
  "ex_clear_disabled (update_explorer (clear_selects selects) cards)"
  "ex_empty_hidden (update_explorer selects cards) = (False \<in> set (ex_hidden (update_explorer selects cards)))"
proof -
  have all: "card_matches (clear_selects selects) c" for c
    by (auto simp: card_matches_def clear_selects_def list_all_iff)
  then show "ex_hidden (update_explorer (clear_selects selects) cards) = replicate (length cards) False"
    by (simp add: update_explorer_def Let_def map_replicate_const)
  show "ex_clear_disabled (update_explorer (clear_selects selects) cards)"
    by (auto simp: update_explorer_def Let_def clear_selects_def list_all_iff)
  show "ex_empty_hidden (update_explorer selects cards) = (False \<in> set (ex_hidden (update_explorer selects cards)))"
    by (auto simp: update_explorer_def Let_def filter_empty_conv)
qed

definition nav_ok :: "site_nav \<Rightarrow> bool" where
  "nav_ok s \<longleftrightarrow> sn_background_inert s = sn_mobileOpen s \<and> (sn_mobileGroup s \<noteq> None \<longrightarrow> sn_mobileOpen s)"

text \<open>The background is inert exactly while the mobile panel is open, and a group is open only inside it.\<close>

lemma nav_step_ok [inv_intros]: "nav_ok s \<Longrightarrow> nav_ok (site_nav_step x s)"
  by (cases x) (auto simp: nav_ok_def set_mobile_def closeMobile_def)

lemma nav_after_path: "sn_path_frame s \<Longrightarrow> nav_ok s \<Longrightarrow> site_nav_step Path_Frame s = initial_nav"
  by (cases s) (simp add: initial_nav_def closeMobile_def set_mobile_def)

end
