(* ===== verification/Spec2Isabelle.thy ===== *)
theory Spec2Isabelle
  imports Routing Onboarding_Store Applications Documents Admin_Catalogue Scholarship_Actions Matches
    Auth_Forms Pages Onboarding_Review Observability Marketing_Demos
begin

text \<open>
  A model of the ScholarMatch front end, the TypeScript application under \<^verbatim>\<open>src/frontend\<close>.
\<close>

end
